(* ===== verification/Prelude.thy ===== *)
theory Prelude
  imports Complex_Main
begin

text \<open>
  Shared ground of the development: the result type of code that may throw, the string
  and array operations of the JavaScript standard library that the front end calls, and
  insertion-ordered maps and sets (the \<^verbatim>\<open>Map\<close>, \<^verbatim>\<open>Set\<close> and plain objects of the source).

  A JavaScript string is a list of code units. The model uses Isabelle's \<open>string\<close>, so it
  covers the code units below 256 (Latin-1); the two operations that look at character
  classes, \<^verbatim>\<open>trim\<close> and \<^verbatim>\<open>toLowerCase\<close>, are written out for that whole range.
\<close>

section \<open>Collections of simplification rules\<close>

named_theorems js_simps \<open>equations of the JavaScript library functions\<close>
named_theorems page_simps \<open>definitions of the page handlers, for unfolding a step\<close>

section \<open>Results of code that may throw\<close>

text \<open>An exception is an \<^verbatim>\<open>Error\<close>, of which the source reads the message only.\<close>

type_synonym 'a result = "string + 'a"

definition bind_result :: "'a result \<Rightarrow> ('a \<Rightarrow> 'b result) \<Rightarrow> 'b result" where
  "bind_result r f = (case r of Inl e \<Rightarrow> Inl e | Inr a \<Rightarrow> f a)"

lemma bind_result_simps [simp]:
  "bind_result (Inl e) f = Inl e"
  "bind_result (Inr a) f = f a"
  by (simp_all add: bind_result_def)

lemma bind_result_Inr_iff:
  "bind_result r f = Inr b \<longleftrightarrow> (\<exists>a. r = Inr a \<and> f a = Inr b)"
  by (cases r) auto

section \<open>Strings\<close>

definition is_ws :: "char \<Rightarrow> bool" where
  "is_ws c \<longleftrightarrow> c \<in> {CHR 0x09, CHR 0x0A, CHR 0x0B, CHR 0x0C, CHR 0x0D, CHR '' '', CHR 0xA0}"

definition trim_start :: "string \<Rightarrow> string" where
  "trim_start s = dropWhile is_ws s"

definition trim_end :: "string \<Rightarrow> string" where
  "trim_end s = rev (dropWhile is_ws (rev s))"

definition trim :: "string \<Rightarrow> string" where
  "trim s = trim_end (trim_start s)"

text \<open>\<^verbatim>\<open>s.indexOf(c)\<close> for a one-character needle; \<open>None\<close> is the \<open>-1\<close> of the source.\<close>

fun index_of :: "char \<Rightarrow> string \<Rightarrow> nat option" where
  "index_of c [] = None"
| "index_of c (x # xs) = (if x = c then Some 0 else map_option Suc (index_of c xs))"

definition starts_with :: "string \<Rightarrow> string \<Rightarrow> bool" where
  "starts_with p s \<longleftrightarrow> take (length p) s = p"

fun str_includes :: "string \<Rightarrow> string \<Rightarrow> bool" where
  "str_includes [] q = (q = [])"
| "str_includes (x # xs) q = (starts_with q (x # xs) \<or> str_includes xs q)"

fun split_on :: "char \<Rightarrow> string \<Rightarrow> string list" where
  "split_on c [] = [[]]"
| "split_on c (x # xs) =
     (if x = c then [] # split_on c xs
      else (x # hd (split_on c xs)) # tl (split_on c xs))"

fun join :: "string \<Rightarrow> string list \<Rightarrow> string" where
  "join sep [] = []"
| "join sep [w] = w"
| "join sep (w # v # ws) = w @ sep @ join sep (v # ws)"

text \<open>\<^verbatim>\<open>s.replace(/^c/, '')\<close> and \<^verbatim>\<open>s.replace(/c$/, '')\<close>.\<close>

definition strip_first :: "char \<Rightarrow> string \<Rightarrow> string" where
  "strip_first c s = (case s of [] \<Rightarrow> [] | x # xs \<Rightarrow> if x = c then xs else s)"

definition strip_last :: "char \<Rightarrow> string \<Rightarrow> string" where
  "strip_last c s = (if s \<noteq> [] \<and> last s = c then butlast s else s)"

text \<open>
  \<^verbatim>\<open>toLowerCase\<close> on Latin-1: the ASCII capitals, and the capitals from U+00C0 to U+00DE
  other than the multiplication sign U+00D7, are 32 below their small letters.
\<close>

definition lower_char :: "char \<Rightarrow> char" where
  "lower_char c = (let n = (of_char c :: nat) in
     if (65 \<le> n \<and> n \<le> 90) \<or> (192 \<le> n \<and> n \<le> 222 \<and> n \<noteq> 215) then char_of (n + 32) else c)"

definition to_lower :: "string \<Rightarrow> string" where
  "to_lower s = map lower_char s"

text \<open>A whole number printed in decimal, as \<^verbatim>\<open>String(n)\<close> prints it below \<open>10^21\<close>.\<close>

definition digit_char :: "nat \<Rightarrow> char" where
  "digit_char d = char_of (48 + d)"

fun show_nat :: "nat \<Rightarrow> string" where
  "show_nat n = (if n < 10 then [digit_char n] else show_nat (n div 10) @ [digit_char (n mod 10)])"

declare show_nat.simps [simp del]

definition show_int :: "int \<Rightarrow> string" where
  "show_int i = (if i < 0 then ''-'' @ show_nat (nat (- i)) else show_nat (nat i))"

subsection \<open>Laws of the string operations\<close>

lemma split_on_ne [simp]: "split_on c s \<noteq> []"
  by (cases s) auto

lemma split_on_append:
  "c \<notin> set w \<Longrightarrow> split_on c (w @ c # s) = w # split_on c s"
  by (induction w) auto

lemma split_on_no_sep [simp]: "c \<notin> set w \<Longrightarrow> split_on c w = [w]"
  by (induction w) auto

theorem split_join:
  "ws \<noteq> [] \<Longrightarrow> \<forall>w \<in> set ws. c \<notin> set w \<Longrightarrow> split_on c (join [c] ws) = ws"
  by (induction "[c]" ws rule: join.induct) (auto simp: split_on_append)

lemma join_split: "join [c] (split_on c s) = s"
proof (induction s)
  case (Cons x xs)
  then show ?case
    by (cases "split_on c xs"; cases "tl (split_on c xs)") auto
qed simp

lemma split_on_parts_no_sep: "w \<in> set (split_on c s) \<Longrightarrow> c \<notin> set w"
proof (induction s arbitrary: w)
  case (Cons x xs)
  then show ?case
    by (cases "split_on c xs") (auto split: if_splits)
qed simp

lemma length_split_on: "length (split_on c s) = Suc (count_list s c)"
  by (induction s) auto

lemma index_of_None_iff: "index_of c s = None \<longleftrightarrow> c \<notin> set s"
  by (induction s) auto

lemma index_of_absent [simp]: "c \<notin> set s \<Longrightarrow> index_of c s = None"
  by (simp add: index_of_None_iff)

lemma index_of_append: "c \<notin> set w \<Longrightarrow> index_of c (w @ c # s) = Some (length w)"
  by (induction w) auto

lemma trim_no_ws:
  assumes "s \<noteq> []" and "\<not> is_ws (hd s)" and "\<not> is_ws (last s)"
  shows "trim s = s"
proof -
  have "trim_start s = s"
    using assms(1,2) by (cases s) (auto simp: trim_start_def)
  moreover have "dropWhile is_ws (rev s) = rev s"
    using assms(1,3) by (cases s rule: rev_cases) auto
  ultimately show ?thesis by (simp add: trim_def trim_end_def)
qed

lemma trim_Nil [simp]: "trim [] = []"
  by (simp add: trim_def trim_start_def trim_end_def)

lemma trim_eq_Nil_iff: "trim s = [] \<longleftrightarrow> (\<forall>c \<in> set s. is_ws c)"
proof -
  have "trim s = [] \<longleftrightarrow> (\<forall>c \<in> set (dropWhile is_ws s). is_ws c)"
    by (simp add: trim_def trim_end_def trim_start_def dropWhile_eq_Nil_conv)
  also have "\<dots> \<longleftrightarrow> (\<forall>c \<in> set s. is_ws c)"
    by (induction s) auto
  finally show ?thesis .
qed

lemma starts_with_append [simp]: "starts_with p (p @ s)"
  by (simp add: starts_with_def)

lemma starts_with_Nil [simp]: "starts_with [] s"
  by (simp add: starts_with_def)

lemma includes_Nil [simp]: "str_includes s []"
  by (cases s) auto

lemma includes_append_right: "str_includes (a @ q @ b) q"
proof (induction a)
  case Nil
  show ?case
  proof (cases "q @ b")
    case (Cons x xs)
    then show ?thesis by (metis append_Nil str_includes.simps(2) starts_with_append)
  qed simp
qed auto

lemma includes_iff: "str_includes s q \<longleftrightarrow> (\<exists>a b. s = a @ q @ b)"
proof
  show "str_includes s q \<Longrightarrow> \<exists>a b. s = a @ q @ b"
  proof (induction s)
    case (Cons x xs)
    from Cons.prems consider "starts_with q (x # xs)" | "str_includes xs q" by auto
    then show ?case
    proof cases
      case 1
      then have "x # xs = [] @ q @ drop (length q) (x # xs)"
        by (metis append_Nil append_take_drop_id starts_with_def)
      then show ?thesis by blast
    next
      case 2
      with Cons.IH show ?thesis by (metis append_Cons)
    qed
  qed auto
qed (auto intro: includes_append_right)

section \<open>Arrays\<close>

text \<open>\<^verbatim>\<open>xs.slice(a, b)\<close> for non-negative bounds and \<^verbatim>\<open>xs.slice(-k)\<close>.\<close>

definition slice :: "nat \<Rightarrow> nat \<Rightarrow> 'a list \<Rightarrow> 'a list" where
  "slice a b xs = take (b - a) (drop a xs)"

definition slice_last :: "nat \<Rightarrow> 'a list \<Rightarrow> 'a list" where
  "slice_last k xs = drop (length xs - k) xs"

fun find_index :: "('a \<Rightarrow> bool) \<Rightarrow> 'a list \<Rightarrow> nat option" where
  "find_index P [] = None"
| "find_index P (x # xs) = (if P x then Some 0 else map_option Suc (find_index P xs))"

definition list_index_of :: "'a \<Rightarrow> 'a list \<Rightarrow> nat option" where
  "list_index_of a = find_index (\<lambda>x. x = a)"

definition enumerated :: "'a list \<Rightarrow> (nat \<times> 'a) list" where
  "enumerated xs = zip [0..<length xs] xs"

lemma find_index_Some_iff:
  "find_index P xs = Some i \<longleftrightarrow> i < length xs \<and> P (xs ! i) \<and> (\<forall>j<i. \<not> P (xs ! j))"
proof (induction xs arbitrary: i)
  case (Cons x xs)
  show ?case
    by (cases i) (auto simp: Cons.IH All_less_Suc2)
qed simp

lemma find_index_None_iff: "find_index P xs = None \<longleftrightarrow> (\<forall>x \<in> set xs. \<not> P x)"
  by (induction xs) auto

lemma length_enumerated [simp]: "length (enumerated xs) = length xs"
  by (simp add: enumerated_def)

lemma nth_enumerated [simp]: "i < length xs \<Longrightarrow> enumerated xs ! i = (i, xs ! i)"
  by (simp add: enumerated_def)

lemma set_enumerated: "(i, x) \<in> set (enumerated xs) \<longleftrightarrow> i < length xs \<and> x = xs ! i"
  by (auto simp: in_set_conv_nth)

section \<open>Insertion-ordered maps and sets\<close>

text \<open>
  A \<^verbatim>\<open>Map\<close> keeps its keys in the order of first insertion and overwrites in place: an
  association list with distinct keys. Its operations satisfy the usual map laws, which the
  clients use through the locale \<open>ordered_map\<close>.
\<close>

fun om_set :: "'k \<Rightarrow> 'v \<Rightarrow> ('k \<times> 'v) list \<Rightarrow> ('k \<times> 'v) list" where
  "om_set k v [] = [(k, v)]"
| "om_set k v ((k', v') # m) = (if k' = k then (k, v) # m else (k', v') # om_set k v m)"

definition om_get :: "('k \<times> 'v) list \<Rightarrow> 'k \<Rightarrow> 'v option" where
  "om_get m k = map_of m k"

definition om_ok :: "('k \<times> 'v) list \<Rightarrow> bool" where
  "om_ok m \<longleftrightarrow> distinct (map fst m)"

locale ordered_map =
  fixes upd :: "'k \<Rightarrow> 'v \<Rightarrow> 'm \<Rightarrow> 'm"
    and look :: "'m \<Rightarrow> 'k \<Rightarrow> 'v option"
    and emp :: "'m"
    and ok :: "'m \<Rightarrow> bool"
  assumes look_emp: "look emp k = None"
    and look_upd: "look (upd k v m) k' = (if k' = k then Some v else look m k')"
    and ok_emp: "ok emp"
    and ok_upd: "ok m \<Longrightarrow> ok (upd k v m)"
begin

text \<open>Changing the value at a key by a function of the old one, along a list of changes.\<close>

definition bump :: "('k \<Rightarrow> 'v option \<Rightarrow> 'a \<Rightarrow> 'v) \<Rightarrow> 'm \<Rightarrow> 'k \<times> 'a \<Rightarrow> 'm" where
  "bump f m ka = upd (fst ka) (f (fst ka) (look m (fst ka)) (snd ka)) m"

lemma look_bump:
  "look (bump f m (k, a)) k' = (if k' = k then Some (f k (look m k) a) else look m k')"
  by (simp add: bump_def look_upd)

lemma ok_fold_bump: "ok m \<Longrightarrow> ok (foldl (bump f) m kas)"
  by (induction kas arbitrary: m) (auto simp: bump_def ok_upd)

lemma look_fold_bump:
  "look (foldl (bump f) m kas) k =
     foldl (\<lambda>old ka. Some (f k old (snd ka))) (look m k) (filter (\<lambda>ka. fst ka = k) kas)"
proof (induction kas arbitrary: m)
  case (Cons ka kas)
  then show ?case by (cases ka) (simp add: look_bump)
qed simp

end

lemma om_get_set: "om_get (om_set k v m) k' = (if k' = k then Some v else om_get m k')"
  by (induction m) (auto simp: om_get_def)

lemma om_set_keys: "map fst (om_set k v m) =
    (if k \<in> fst ` set m then map fst m else map fst m @ [k])"
  by (induction m) force+

lemma om_get_Nil [simp]: "om_get [] k = None"
  by (simp add: om_get_def)

interpretation om: ordered_map om_set om_get "[]" om_ok
  by unfold_locales (auto simp: om_get_set om_ok_def om_set_keys)

text \<open>
  A plain object used as a dictionary is such a map too, but for two things. Assigning a
  primitive to the key \<^verbatim>\<open>__proto__\<close> does nothing, and \<^verbatim>\<open>Object.entries\<close> lists the keys
  that are array indices first, in ascending order.
\<close>

definition obj_set :: "string \<Rightarrow> 'v \<Rightarrow> (string \<times> 'v) list \<Rightarrow> (string \<times> 'v) list" where
  "obj_set k v m = (if k = ''__proto__'' then m else om_set k v m)"

definition inherited_names :: "string list" where
  "inherited_names =
     [''constructor'', ''hasOwnProperty'', ''isPrototypeOf'', ''propertyIsEnumerable'',
      ''toLocaleString'', ''toString'', ''valueOf'', ''__defineGetter__'', ''__defineSetter__'',
      ''__lookupGetter__'', ''__lookupSetter__'', ''__proto__'']"

definition array_index :: "string \<Rightarrow> nat option" where
  "array_index k = (let n = foldl (\<lambda>n c. 10 * n + (of_char c - 48)) 0 k in
     if k = show_nat n \<and> n < 4294967295 then Some n else None)"

definition obj_entries :: "(string \<times> 'v) list \<Rightarrow> (string \<times> 'v) list" where
  "obj_entries m =
     sort_key (\<lambda>kv. the (array_index (fst kv))) (filter (\<lambda>kv. array_index (fst kv) \<noteq> None) m)
     @ filter (\<lambda>kv. array_index (fst kv) = None) m"

lemma obj_get_set:
  "om_get (obj_set k v m) k' = (if k' = k \<and> k \<noteq> ''__proto__'' then Some v else om_get m k')"
  by (simp add: obj_set_def om_get_set)

lemma obj_set_ok: "om_ok m \<Longrightarrow> om_ok (obj_set k v m)"
  by (simp add: obj_set_def om.ok_upd)

lemma set_obj_entries [simp]: "set (obj_entries m) = set m"
  by (auto simp: obj_entries_def)

lemma om_get_Some_iff: "om_ok m \<Longrightarrow> om_get m k = Some v \<longleftrightarrow> (k, v) \<in> set m"
  by (simp add: om_get_def om_ok_def)

lemma obj_entries_ok: "om_ok m \<Longrightarrow> om_ok (obj_entries m)"
proof -
  assume ok: "om_ok m"
  then have "distinct m" by (simp add: om_ok_def distinct_map)
  then have "distinct (obj_entries m)" by (auto simp: obj_entries_def)
  then show ?thesis using ok by (simp add: om_ok_def distinct_map)
qed

lemma om_get_obj_entries:
  assumes "om_ok m"
  shows "om_get (obj_entries m) k = om_get m k"
proof -
  have iff: "om_get (obj_entries m) k = Some v \<longleftrightarrow> om_get m k = Some v" for v
    using assms by (simp add: om_get_Some_iff obj_entries_ok)
  show ?thesis
  proof (cases "om_get m k")
    case None
    then show ?thesis using iff by (metis not_None_eq)
  next
    case (Some v)
    then show ?thesis using iff [of v] by simp
  qed
qed

text \<open>A \<^verbatim>\<open>Set\<close> is a list without repetitions, in insertion order.\<close>

definition os_add :: "'a \<Rightarrow> 'a list \<Rightarrow> 'a list" where
  "os_add x xs = (if x \<in> set xs then xs else xs @ [x])"

definition os_delete :: "'a \<Rightarrow> 'a list \<Rightarrow> 'a list" where
  "os_delete x xs = filter (\<lambda>y. y \<noteq> x) xs"

lemma set_os_add [simp]: "set (os_add x xs) = insert x (set xs)"
  by (auto simp: os_add_def)

lemma set_os_delete [simp]: "set (os_delete x xs) = set xs - {x}"
  by (auto simp: os_delete_def)

lemma distinct_os_add [simp]: "distinct (os_add x xs) \<longleftrightarrow> distinct xs"
  by (auto simp: os_add_def)

lemma distinct_os_delete [simp]: "distinct xs \<Longrightarrow> distinct (os_delete x xs)"
  by (simp add: os_delete_def)

lemma set_fold_os_add: "set (foldl (\<lambda>n x. os_add (f x) n) s xs) = set s \<union> f ` set xs"
  by (induction xs arbitrary: s) auto

lemma set_fold_os_delete: "set (foldl (\<lambda>n x. os_delete (f x) n) s xs) = set s - f ` set xs"
  by (induction xs arbitrary: s) auto

lemma distinct_fold_os_add: "distinct s \<Longrightarrow> distinct (foldl (\<lambda>n x. os_add (f x) n) s xs)"
  by (induction xs arbitrary: s) auto

lemma distinct_fold_os_delete: "distinct s \<Longrightarrow> distinct (foldl (\<lambda>n x. os_delete (f x) n) s xs)"
  by (induction xs arbitrary: s) auto

section \<open>Runs of a component\<close>

text \<open>
  A component is a state with one transition per event. What holds at the start and is kept by every
  event holds after any sequence of events.
\<close>

locale run_invariant =
  fixes step :: "'s \<Rightarrow> 'e \<Rightarrow> 's"
    and inv :: "'s \<Rightarrow> bool"
  assumes step_inv: "inv s \<Longrightarrow> inv (step s e)"
begin

lemma run_inv: "inv s \<Longrightarrow> inv (foldl step s es)"
  by (induction es arbitrary: s) (simp_all add: step_inv)

lemma run_inv_prefix: "inv s \<Longrightarrow> inv (foldl step s (take n es))"
  by (rule run_inv)

end

end
