(* ===== verification/JsNumber.thy ===== *)
theory JsNumber
  imports Prelude
begin

text \<open>
  JavaScript numbers: IEEE-754 binary64 with round-to-nearest, ties-to-even, written over
  the rationals. A number is NaN, an infinity, or a finite rational; every operation rounds
  its exact result with \<open>fl\<close>. The sign of a zero is not kept (the front end never divides
  by a value it has negated, and never prints a zero's sign).

  The laws that the pages use, monotonicity of rounding and exactness on whole numbers up
  to \<open>2^53\<close>, are the locale \<open>rounding\<close>; its lemmas bound the percentages of the pages, and
  the interpretation at the end discharges the laws for \<open>fl\<close>.
\<close>

section \<open>Values and rounding\<close>

datatype number = NaN | PInf | NInf | Fin rat

definition pow2 :: "int \<Rightarrow> rat" where
  "pow2 e = (if 0 \<le> e then 2 ^ nat e else 1 / 2 ^ nat (- e))"

fun ilog2 :: "nat \<Rightarrow> nat" where
  "ilog2 n = (if n < 2 then 0 else Suc (ilog2 (n div 2)))"

declare ilog2.simps [simp del]

text \<open>\<open>expo x\<close> is the binary exponent of a positive rational: \<open>2^e \<le> x < 2^(e+1)\<close>.\<close>

definition expo :: "rat \<Rightarrow> int" where
  "expo x = (if 1 \<le> x then int (ilog2 (nat \<lfloor>x\<rfloor>))
             else - int (Suc (ilog2 (nat (\<lceil>1 / x\<rceil> - 1)))))"

definition rne :: "rat \<Rightarrow> int" where
  "rne q = (let f = \<lfloor>q\<rfloor>; r = q - of_int f in
     if r < 1/2 then f else if 1/2 < r then f + 1 else if even f then f else f + 1)"

definition ulp_exp :: "rat \<Rightarrow> int" where
  "ulp_exp x = max (expo x - 52) (- 1074)"

definition fl_pos :: "rat \<Rightarrow> rat" where
  "fl_pos x = of_int (rne (x / pow2 (ulp_exp x))) * pow2 (ulp_exp x)"

definition fl :: "rat \<Rightarrow> number" where
  "fl x = (if x = 0 then Fin 0
           else if 0 < x then (let y = fl_pos x in if 2 ^ 1024 \<le> y then PInf else Fin y)
           else (let y = fl_pos (- x) in if 2 ^ 1024 \<le> y then NInf else Fin (- y)))"

section \<open>Operators\<close>

fun js_lt :: "number \<Rightarrow> number \<Rightarrow> bool" where
  "js_lt (Fin a) (Fin b) = (a < b)"
| "js_lt NInf (Fin _) = True"
| "js_lt NInf PInf = True"
| "js_lt (Fin _) PInf = True"
| "js_lt _ _ = False"

fun js_eq :: "number \<Rightarrow> number \<Rightarrow> bool" where
  "js_eq NaN _ = False"
| "js_eq _ NaN = False"
| "js_eq a b = (a = b)"

definition js_le :: "number \<Rightarrow> number \<Rightarrow> bool" where
  "js_le a b \<longleftrightarrow> js_lt a b \<or> js_eq a b"

fun js_neg :: "number \<Rightarrow> number" where
  "js_neg NaN = NaN"
| "js_neg PInf = NInf"
| "js_neg NInf = PInf"
| "js_neg (Fin a) = Fin (- a)"

fun js_add :: "number \<Rightarrow> number \<Rightarrow> number" where
  "js_add (Fin a) (Fin b) = fl (a + b)"
| "js_add NaN _ = NaN"
| "js_add _ NaN = NaN"
| "js_add PInf NInf = NaN"
| "js_add NInf PInf = NaN"
| "js_add PInf _ = PInf"
| "js_add _ PInf = PInf"
| "js_add NInf _ = NInf"
| "js_add _ NInf = NInf"

definition js_sub :: "number \<Rightarrow> number \<Rightarrow> number" where
  "js_sub a b = js_add a (js_neg b)"

text \<open>The sign of a number as \<open>-1\<close>, \<open>0\<close> or \<open>1\<close> (NaN is treated apart).\<close>

fun js_sgn :: "number \<Rightarrow> rat" where
  "js_sgn NaN = 0"
| "js_sgn PInf = 1"
| "js_sgn NInf = - 1"
| "js_sgn (Fin a) = sgn a"

definition inf_of_sign :: "rat \<Rightarrow> number" where
  "inf_of_sign s = (if s = 0 then NaN else if 0 < s then PInf else NInf)"

fun js_mul :: "number \<Rightarrow> number \<Rightarrow> number" where
  "js_mul (Fin a) (Fin b) = fl (a * b)"
| "js_mul NaN _ = NaN"
| "js_mul _ NaN = NaN"
| "js_mul a b = inf_of_sign (js_sgn a * js_sgn b)"

fun js_div :: "number \<Rightarrow> number \<Rightarrow> number" where
  "js_div (Fin a) (Fin b) = (if b = 0 then inf_of_sign (sgn a) else fl (a / b))"
| "js_div NaN _ = NaN"
| "js_div _ NaN = NaN"
| "js_div (Fin _) _ = Fin 0"
| "js_div a (Fin b) = (if b < 0 then js_neg a else a)"
| "js_div _ _ = NaN"

definition js_max :: "number \<Rightarrow> number \<Rightarrow> number" where
  "js_max a b = (if a = NaN \<or> b = NaN then NaN else if js_lt a b then b else a)"

definition js_min :: "number \<Rightarrow> number \<Rightarrow> number" where
  "js_min a b = (if a = NaN \<or> b = NaN then NaN else if js_lt b a then b else a)"

text \<open>
  \<^verbatim>\<open>Math.floor\<close> and \<^verbatim>\<open>Math.round\<close> (nearest whole number, halves up). Their results are
  again representable, so no rounding follows.
\<close>

fun js_floor :: "number \<Rightarrow> number" where
  "js_floor (Fin a) = Fin (of_int \<lfloor>a\<rfloor>)"
| "js_floor n = n"

fun js_round :: "number \<Rightarrow> number" where
  "js_round (Fin a) = Fin (of_int \<lfloor>a + 1/2\<rfloor>)"
| "js_round n = n"

definition js_truthy :: "number \<Rightarrow> bool" where
  "js_truthy n \<longleftrightarrow> n \<noteq> NaN \<and> n \<noteq> Fin 0"

definition num_of_nat :: "nat \<Rightarrow> number" where
  "num_of_nat n = fl (of_nat n)"

section \<open>Powers of two and the binary exponent\<close>

lemma pow2_pos [simp]: "0 < pow2 e"
  by (simp add: pow2_def)

lemma pow2_ne [simp]: "pow2 e \<noteq> 0"
  using pow2_pos [of e] by linarith

lemma pow2_powi: "pow2 e = 2 powi e"
  by (simp add: pow2_def power_int_def inverse_eq_divide power_divide)

lemma pow2_add: "pow2 (a + b) = pow2 a * pow2 b"
  by (simp add: pow2_powi power_int_add)

lemma pow2_mono: "a \<le> b \<Longrightarrow> pow2 a \<le> pow2 b"
  by (simp add: pow2_powi power_int_increasing)

lemma pow2_diff: "b \<le> a \<Longrightarrow> pow2 a / pow2 b = of_int (2 ^ nat (a - b))"
proof -
  assume "b \<le> a"
  then have "pow2 a = pow2 (a - b) * pow2 b" by (simp flip: pow2_add)
  then show ?thesis using \<open>b \<le> a\<close> by (simp add: pow2_def [of "a - b"])
qed

lemma ilog2_bounds: "0 < n \<Longrightarrow> 2 ^ ilog2 n \<le> n \<and> n < 2 ^ Suc (ilog2 n)"
proof (induction n rule: ilog2.induct)
  case (1 n)
  show ?case
  proof (cases "n < 2")
    case True
    with 1 show ?thesis by (subst (1 2) ilog2.simps) simp
  next
    case False
    then have "2 ^ ilog2 (n div 2) \<le> n div 2" and "n div 2 < 2 ^ Suc (ilog2 (n div 2))"
      using 1 by auto
    then have "2 * 2 ^ ilog2 (n div 2) \<le> n" and "n < 2 * 2 ^ Suc (ilog2 (n div 2))"
      by linarith+
    with False show ?thesis by (subst (1 2) ilog2.simps) simp
  qed
qed

lemma expo_ge1:
  assumes "1 \<le> x"
  shows "pow2 (expo x) \<le> x" and "x < pow2 (expo x + 1)"
proof -
  define n where "n = nat \<lfloor>x\<rfloor>"
  have n: "0 < n" "of_nat n \<le> x" "x < of_nat n + 1"
    using assms by (auto simp: n_def) linarith+
  have e: "expo x = int (ilog2 n)"
    using assms by (simp add: expo_def n_def)
  have "2 ^ ilog2 n \<le> n" and "Suc n \<le> 2 ^ Suc (ilog2 n)"
    using ilog2_bounds [OF n(1)] by auto
  then have b: "(of_nat (2 ^ ilog2 n) :: rat) \<le> of_nat n"
    and c: "(of_nat (Suc n) :: rat) \<le> of_nat (2 ^ Suc (ilog2 n))"
    by (simp_all only: of_nat_le_iff)
  show "pow2 (expo x) \<le> x"
    using order_trans [OF b n(2)] by (simp add: e pow2_def)
  have "nat (int (ilog2 n) + 1) = Suc (ilog2 n)" by simp
  then show "x < pow2 (expo x + 1)"
    using c n(3) by (simp add: e pow2_def)
qed

lemma expo_lt1:
  assumes "0 < x" and "x < 1"
  shows "pow2 (expo x) \<le> x" and "x < pow2 (expo x + 1)"
proof -
  define m where "m = nat (\<lceil>1 / x\<rceil> - 1)"
  have "1 < 1 / x" using assms by simp
  then have m: "0 < m" "of_nat m < 1 / x" "1 / x \<le> of_nat m + 1"
    unfolding m_def by (auto simp: of_nat_nat) linarith+
  define k where "k = Suc (ilog2 m)"
  have e: "expo x = - int k"
    using assms by (simp add: expo_def m_def k_def)
  have "2 ^ ilog2 m \<le> m" and "Suc m \<le> 2 ^ k"
    using ilog2_bounds [OF m(1)] by (auto simp: k_def)
  then have b: "(of_nat (2 ^ ilog2 m) :: rat) \<le> of_nat m"
    and c: "(of_nat (Suc m) :: rat) \<le> of_nat (2 ^ k)"
    by (simp_all only: of_nat_le_iff)
  have "1 / x \<le> 2 ^ k" using c m(3) by simp
  then have "1 / 2 ^ k \<le> x"
    using assms by (simp add: field_simps)
  then show "pow2 (expo x) \<le> x"
    by (simp add: e pow2_def k_def del: of_nat_Suc)
  have "2 ^ ilog2 m < 1 / x" using order_le_less_trans [OF b m(2)] by simp
  then have "x < 1 / 2 ^ ilog2 m" using assms by (simp add: field_simps)
  then show "x < pow2 (expo x + 1)"
    using assms(2) by (simp add: e pow2_def k_def)
qed

lemma expo_bounds:
  assumes "0 < x"
  shows "pow2 (expo x) \<le> x" and "x < pow2 (expo x + 1)"
  using assms expo_ge1 [of x] expo_lt1 [of x] by (cases "1 \<le> x"; simp)+

lemma expo_mono:
  assumes "0 < x" and "x \<le> y"
  shows "expo x \<le> expo y"
proof (rule ccontr)
  assume "\<not> expo x \<le> expo y"
  then have "pow2 (expo y + 1) \<le> pow2 (expo x)" by (intro pow2_mono) simp
  also have "\<dots> \<le> x" by (rule expo_bounds [OF assms(1)])
  finally show False using expo_bounds(2) [of y] assms by simp
qed

section \<open>Rounding to a whole multiple\<close>

lemma rne_of_int [simp]: "rne (of_int n) = n"
  by (simp add: rne_def)

lemma rne_floor: "\<lfloor>q\<rfloor> \<le> rne q" and rne_floor_Suc: "rne q \<le> \<lfloor>q\<rfloor> + 1"
  by (auto simp: rne_def Let_def)

lemma rne_mono:
  assumes "p \<le> q"
  shows "rne p \<le> rne q"
proof (cases "\<lfloor>p\<rfloor> = \<lfloor>q\<rfloor>")
  case True
  with assms show ?thesis by (auto simp: rne_def Let_def)
next
  case False
  with assms have "\<lfloor>p\<rfloor> + 1 \<le> \<lfloor>q\<rfloor>" using floor_mono [OF assms] by simp
  then show ?thesis using rne_floor_Suc [of p] rne_floor [of q] by simp
qed

lemma rne_nonneg: "0 \<le> q \<Longrightarrow> 0 \<le> rne q"
  using rne_floor [of q] by (meson order_trans zero_le_floor)

lemma rne_error: "\<bar>of_int (rne q) - q\<bar> \<le> 1 / 2"
proof -
  have "of_int \<lfloor>q\<rfloor> \<le> q" and "q < of_int \<lfloor>q\<rfloor> + 1" by linarith+
  then show ?thesis by (auto simp: rne_def Let_def)
qed

text \<open>A multiple of the last place at or above \<open>x\<close> stays at or above the rounded \<open>x\<close>.\<close>

lemma fl_pos_le_multiple:
  assumes "x \<le> of_int k * pow2 (ulp_exp x)"
  shows "fl_pos x \<le> of_int k * pow2 (ulp_exp x)"
proof -
  have "x / pow2 (ulp_exp x) \<le> of_int k" using assms by (simp add: pos_divide_le_eq)
  from rne_mono [OF this] show ?thesis by (simp add: fl_pos_def)
qed

lemma fl_pos_ge_multiple:
  assumes "of_int k * pow2 (ulp_exp x) \<le> x"
  shows "of_int k * pow2 (ulp_exp x) \<le> fl_pos x"
proof -
  have "of_int k \<le> x / pow2 (ulp_exp x)" using assms by (simp add: pos_le_divide_eq)
  from rne_mono [OF this] show ?thesis by (simp add: fl_pos_def)
qed

lemma fl_pos_exact: "x = of_int k * pow2 (ulp_exp x) \<Longrightarrow> fl_pos x = x"
  using fl_pos_le_multiple [of x k] fl_pos_ge_multiple [of k x] by simp

lemma fl_pos_nonneg: "0 \<le> x \<Longrightarrow> 0 \<le> fl_pos x"
  by (simp add: fl_pos_def rne_nonneg less_imp_le)

section \<open>Rounding is monotone and exact on small whole numbers\<close>

lemma ulp_exp_mono: "0 < x \<Longrightarrow> x \<le> y \<Longrightarrow> ulp_exp x \<le> ulp_exp y"
  using expo_mono [of x y] by (simp add: ulp_exp_def)

lemma pow2_multiple:
  assumes "u \<le> e"
  shows "pow2 e = of_int (2 ^ nat (e - u)) * pow2 u"
  using pow2_diff [OF assms] by (simp add: field_simps)

lemma fl_pos_mono:
  assumes "0 < x" and "x \<le> y"
  shows "fl_pos x \<le> fl_pos y"
proof (cases "ulp_exp x = ulp_exp y")
  case True
  have "x / pow2 (ulp_exp y) \<le> y / pow2 (ulp_exp y)"
    using assms by (simp add: divide_right_mono less_imp_le)
  then show ?thesis
    using True rne_mono by (simp add: fl_pos_def mult_right_mono less_imp_le)
next
  case False
  with ulp_exp_mono [OF assms] have lt: "ulp_exp x < ulp_exp y" by simp
  define e where "e = max (expo x + 1) (ulp_exp x)"
  have ey: "e \<le> expo y" and uy: "ulp_exp y \<le> expo y" and ux: "ulp_exp x \<le> e"
    using lt by (auto simp: ulp_exp_def e_def max_def split: if_splits)
  have "x \<le> pow2 (expo x + 1)" using expo_bounds(2) [OF assms(1)] by simp
  also have "\<dots> \<le> pow2 e" by (rule pow2_mono) (simp add: e_def)
  finally have "x \<le> pow2 e" .
  then have "fl_pos x \<le> pow2 e"
    using fl_pos_le_multiple [of x "2 ^ nat (e - ulp_exp x)"] pow2_multiple [OF ux] by simp
  also have "\<dots> \<le> pow2 (expo y)" using ey by (rule pow2_mono)
  also have "pow2 (expo y) \<le> fl_pos y"
    using fl_pos_ge_multiple [of "2 ^ nat (expo y - ulp_exp y)" y] pow2_multiple [OF uy]
      expo_bounds(1) [of y] assms by simp
  finally show ?thesis .
qed

lemma fl_pos_int:
  assumes "0 < n" and "n \<le> 2 ^ 53"
  shows "fl_pos (of_nat n) = of_nat n"
proof (cases "ulp_exp (of_nat n) \<le> 0")
  case True
  let ?u = "ulp_exp (of_nat n)"
  have "(of_nat n :: rat) = of_int (int n * 2 ^ nat (- ?u)) * pow2 ?u"
    using True pow2_multiple [OF True] by (simp add: pow2_def [of 0])
  then show ?thesis by (rule fl_pos_exact)
next
  case False
  then have "53 \<le> expo (of_nat n)" by (simp add: ulp_exp_def)
  then have "pow2 53 \<le> of_nat n"
    using order_trans [OF pow2_mono expo_bounds(1)] assms(1) by simp
  then have "(2 ^ 53 :: rat) \<le> of_nat n" by (simp add: pow2_def)
  then have "of_nat (2 ^ 53) \<le> (of_nat n :: rat)" by simp
  then have n: "n = 2 ^ 53" using assms(2) by (simp only: of_nat_le_iff)
  let ?u = "ulp_exp (of_nat n)"
  have "pow2 (expo (of_nat n)) < pow2 54"
    using order_le_less_trans [OF expo_bounds(1) [of "of_nat n"], of "pow2 54"] n
    by (simp add: pow2_def)
  then have "expo (of_nat n) < 54" using pow2_mono [of 54 "expo (of_nat n)"] by force
  then have "?u \<le> 53" by (simp add: ulp_exp_def)
  from pow2_multiple [OF this] have "(of_nat n :: rat) = of_int (2 ^ nat (53 - ?u)) * pow2 ?u"
    by (simp add: n pow2_def [of 53])
  then show ?thesis by (rule fl_pos_exact)
qed

lemma fl_0 [simp]: "fl 0 = Fin 0"
  by (simp add: fl_def)

lemma fl_of_nat [simp]: "n \<le> 2 ^ 53 \<Longrightarrow> fl (of_nat n) = Fin (of_nat n)"
proof (cases "n = 0")
  case False
  assume n: "n \<le> 2 ^ 53"
  then have "(of_nat n :: rat) \<le> of_nat (2 ^ 53)" by (simp only: of_nat_le_iff)
  also have "\<dots> < 2 ^ 1024" by simp
  finally show ?thesis using False n by (simp add: fl_def fl_pos_int Let_def)
qed simp

lemma num_of_nat [simp]: "n \<le> 2 ^ 53 \<Longrightarrow> num_of_nat n = Fin (of_nat n)"
  by (simp add: num_of_nat_def)

lemma fl_mono: "x \<le> y \<Longrightarrow> js_le (fl x) (fl y)"
proof -
  assume le: "x \<le> y"
  consider "0 < x" | "x \<le> 0" "0 \<le> y" | "y < 0" using le by linarith
  then show ?thesis
  proof cases
    case 1
    with le fl_pos_mono [OF 1 le] show ?thesis
      by (auto simp: fl_def Let_def js_le_def)
  next
    case 2
    then show ?thesis
      using fl_pos_nonneg [of y] fl_pos_nonneg [of "- x"] by (auto simp: fl_def Let_def js_le_def)
  next
    case 3
    with le fl_pos_mono [of "- y" "- x"] show ?thesis
      by (auto simp: fl_def Let_def js_le_def)
  qed
qed

section \<open>What the pages rely on: the rounding contract\<close>

lemma js_le_Fin [simp]: "js_le (Fin a) (Fin b) \<longleftrightarrow> a \<le> b"
  by (auto simp: js_le_def)

lemma js_le_between:
  assumes "js_le (Fin a) n" and "js_le n (Fin b)"
  shows "\<exists>y. n = Fin y \<and> a \<le> y \<and> y \<le> b"
  using assms by (cases n) (auto simp: js_le_def)

locale rounding =
  fixes rnd :: "rat \<Rightarrow> number"
  assumes mono: "x \<le> y \<Longrightarrow> js_le (rnd x) (rnd y)"
    and exact: "n \<le> 2 ^ 53 \<Longrightarrow> rnd (of_nat n) = Fin (of_nat n)"
begin

lemma bounded:
  assumes "0 \<le> x" and "x \<le> of_nat n" and "n \<le> 2 ^ 53"
  shows "\<exists>y. rnd x = Fin y \<and> 0 \<le> y \<and> y \<le> of_nat n"
proof -
  have "js_le (Fin 0) (rnd x)" using mono [OF assms(1)] exact [of 0] by simp
  moreover have "js_le (rnd x) (Fin (of_nat n))"
    using mono [OF assms(2)] exact [OF assms(3)] by simp
  ultimately show ?thesis by (rule js_le_between)
qed

lemma ratio_unit:
  assumes "0 \<le> a" and "a \<le> b" and "0 < b"
  shows "\<exists>y. rnd (a / b) = Fin y \<and> 0 \<le> y \<and> y \<le> 1"
  using bounded [of "a / b" 1] assms by simp

lemma percent_range:
  assumes "0 \<le> y" and "y \<le> 1"
  shows "\<exists>p. rnd (y * 100) = Fin p \<and> 0 \<le> p \<and> p \<le> 100"
  using bounded [of "y * 100" 100] assms by simp

lemma between:
  assumes "of_nat m \<le> x" and "x \<le> of_nat n" and "m \<le> 2 ^ 53" and "n \<le> 2 ^ 53"
  shows "\<exists>y. rnd x = Fin y \<and> of_nat m \<le> y \<and> y \<le> of_nat n"
  using mono [OF assms(1)] mono [OF assms(2)] exact [OF assms(3)] exact [OF assms(4)]
  by (auto intro: js_le_between)

lemma exact_1: "rnd 1 = Fin 1"
  using exact [of 1] by simp

lemma exact_100: "rnd 100 = Fin 100"
  using exact [of 100] by simp

lemma mono_Fin: "x \<le> y \<Longrightarrow> rnd x = Fin a \<Longrightarrow> rnd y = Fin b \<Longrightarrow> a \<le> b"
  using mono [of x y] by simp

end

interpretation b64: rounding fl
  by unfold_locales (simp_all add: fl_mono)

lemma fl_1 [simp]: "fl 1 = Fin 1"
  by (rule b64.exact_1)

lemma fl_100 [simp]: "fl 100 = Fin 100"
  by (rule b64.exact_100)

section \<open>Percentages\<close>

text \<open>The expression \<^verbatim>\<open>(done / total) * 100\<close> of several pages.\<close>

definition js_percent :: "number \<Rightarrow> number \<Rightarrow> number" where
  "js_percent a b = js_mul (js_div a b) (Fin 100)"

lemma js_percent_range:
  assumes "0 \<le> a" and "a \<le> b" and "0 < b"
  shows "\<exists>p. js_percent (Fin a) (Fin b) = Fin p \<and> 0 \<le> p \<and> p \<le> 100"
proof -
  obtain y where y: "fl (a / b) = Fin y" "0 \<le> y" "y \<le> 1"
    using b64.ratio_unit [OF assms] by blast
  from b64.percent_range [OF y(2,3)] y(1) assms(3) show ?thesis
    by (simp add: js_percent_def)
qed

lemma js_percent_full: "0 < b \<Longrightarrow> js_percent (Fin b) (Fin b) = Fin 100"
  by (simp add: js_percent_def)

lemma js_percent_zero: "0 < b \<Longrightarrow> js_percent (Fin 0) (Fin b) = Fin 0"
  by (simp add: js_percent_def)

lemma js_percent_mono:
  assumes "0 \<le> a" and "a \<le> a'" and "a' \<le> b" and "0 < b"
    and "js_percent (Fin a) (Fin b) = Fin p" and "js_percent (Fin a') (Fin b) = Fin p'"
  shows "p \<le> p'"
proof -
  obtain y where y: "fl (a / b) = Fin y" using b64.ratio_unit [of a b] assms by auto
  obtain y' where y': "fl (a' / b) = Fin y'" using b64.ratio_unit [of a' b] assms by auto
  have "a / b \<le> a' / b" using assms by (simp add: divide_right_mono)
  then have "y \<le> y'" using y y' by (rule b64.mono_Fin)
  then have "y * 100 \<le> y' * 100" by simp
  moreover have "fl (y * 100) = Fin p" and "fl (y' * 100) = Fin p'"
    using assms(4-6) y y' by (simp_all add: js_percent_def)
  ultimately show ?thesis by (rule b64.mono_Fin)
qed

lemma js_round_range:
  assumes "0 \<le> p" and "p \<le> of_nat n"
  shows "\<exists>k. js_round (Fin p) = Fin (of_nat k) \<and> k \<le> n"
proof -
  have lo: "0 \<le> \<lfloor>p + 1/2\<rfloor>" and hi: "\<lfloor>p + 1/2\<rfloor> \<le> int n"
    using assms by (simp_all add: floor_le_iff)
  have "js_round (Fin p) = Fin (of_nat (nat \<lfloor>p + 1/2\<rfloor>))"
    using lo by (simp add: of_nat_nat)
  moreover have "nat \<lfloor>p + 1/2\<rfloor> \<le> n" using hi by simp
  ultimately show ?thesis by blast
qed

section \<open>Reading a number: parseFloat\<close>

definition is_digit :: "char \<Rightarrow> bool" where
  "is_digit c \<longleftrightarrow> 48 \<le> (of_char c :: nat) \<and> (of_char c :: nat) \<le> 57"

definition digit_val :: "char \<Rightarrow> nat" where
  "digit_val c = of_char c - 48"

definition nat_of_digits :: "string \<Rightarrow> nat" where
  "nat_of_digits ds = foldl (\<lambda>n c. 10 * n + digit_val c) 0 ds"

definition pow10 :: "int \<Rightarrow> rat" where
  "pow10 e = (if 0 \<le> e then 10 ^ nat e else 1 / 10 ^ nat (- e))"

text \<open>A sign in front, and what follows it.\<close>

definition take_sign :: "string \<Rightarrow> bool \<times> string" where
  "take_sign s = (case s of [] \<Rightarrow> (False, [])
     | c # cs \<Rightarrow> if c = CHR ''-'' then (True, cs) else if c = CHR ''+'' then (False, cs) else (False, s))"

text \<open>The exponent part, if the text begins with one; otherwise no scaling.\<close>

definition read_exponent :: "string \<Rightarrow> int" where
  "read_exponent s = (case s of [] \<Rightarrow> 0
     | c # cs \<Rightarrow> if c = CHR ''e'' \<or> c = CHR ''E''
         then (let (neg, ds) = take_sign cs; e = int (nat_of_digits (takeWhile is_digit ds))
               in if neg then - e else e)
         else 0)"

text \<open>
  \<^verbatim>\<open>parseFloat\<close>: the longest prefix, after white space, that is a decimal literal; NaN if
  there is none. Hexadecimal is not read, and \<^verbatim>\<open>+Inf\<close> (as Prometheus writes it) is NaN.
\<close>

definition parse_float :: "string \<Rightarrow> number" where
  "parse_float s =
     (let (neg, t) = take_sign (trim_start s) in
      if starts_with ''Infinity'' t then (if neg then NInf else PInf)
      else
        let ip = takeWhile is_digit t; r = dropWhile is_digit t;
            (fp, r') = (case r of c # cs \<Rightarrow>
                 if c = CHR ''.'' then (takeWhile is_digit cs, dropWhile is_digit cs) else ([], r)
               | [] \<Rightarrow> ([], []))
        in if ip = [] \<and> fp = [] then NaN
           else let q = of_nat (nat_of_digits (ip @ fp)) * pow10 (read_exponent r' - int (length fp))
                in fl (if neg then - q else q))"

subsection \<open>Whole numbers print and read back\<close>

lemma digit_char_digit: "d < 10 \<Longrightarrow> is_digit (digit_char d) \<and> digit_val (digit_char d) = d"
  by (simp add: is_digit_def digit_val_def digit_char_def)

lemma show_nat_digits: "c \<in> set (show_nat n) \<Longrightarrow> is_digit c"
proof (induction n rule: show_nat.induct)
  case (1 n)
  then show ?case
    by (subst (asm) (2) show_nat.simps) (auto simp: digit_char_digit split: if_splits)
qed

lemma show_nat_ne [simp]: "show_nat n \<noteq> []"
  by (subst show_nat.simps) simp

lemma nat_of_digits_snoc: "nat_of_digits (ds @ [c]) = 10 * nat_of_digits ds + digit_val c"
  by (simp add: nat_of_digits_def)

lemma nat_of_digits_show_nat [simp]: "nat_of_digits (show_nat n) = n"
proof (induction n rule: show_nat.induct)
  case (1 n)
  show ?case
  proof (cases "n < 10")
    case True
    then show ?thesis
      by (subst show_nat.simps) (simp add: nat_of_digits_def digit_char_digit)
  next
    case False
    with 1 show ?thesis
      by (subst show_nat.simps) (simp add: nat_of_digits_snoc digit_char_digit)
  qed
qed

lemma show_nat_inj: "show_nat m = show_nat n \<Longrightarrow> m = n"
  by (metis nat_of_digits_show_nat)

lemma is_digit_not:
  "is_digit c \<Longrightarrow> \<not> is_ws c \<and> c \<noteq> CHR ''-'' \<and> c \<noteq> CHR ''+'' \<and> c \<noteq> CHR ''I'' \<and> c \<noteq> CHR '' '' \<and>
     c \<noteq> CHR ''{'' \<and> c \<noteq> CHR ''}'' \<and> c \<noteq> CHR ''#'' \<and> c \<noteq> CHR 0x0A \<and> c \<noteq> CHR '',''"
  by (auto simp: is_digit_def is_ws_def)

theorem parse_float_show_nat:
  assumes "n \<le> 2 ^ 53"
  shows "parse_float (show_nat n) = Fin (of_nat n)"
proof -
  let ?s = "show_nat n"
  obtain c cs where s: "?s = c # cs" by (cases ?s) auto
  have d: "\<forall>x \<in> set ?s. is_digit x" using show_nat_digits by blast
  then have c: "is_digit c" by (simp add: s)
  have ts: "trim_start ?s = ?s" using is_digit_not [OF c] by (simp add: s trim_start_def)
  have sg: "take_sign ?s = (False, ?s)" using is_digit_not [OF c] by (simp add: s take_sign_def)
  have inf: "\<not> starts_with ''Infinity'' ?s" using is_digit_not [OF c] by (simp add: s starts_with_def)
  have tw: "takeWhile is_digit ?s = ?s" and dw: "dropWhile is_digit ?s = []"
    using d by (simp_all add: takeWhile_eq_all_conv dropWhile_eq_Nil_conv)
  show ?thesis
    using assms by (simp add: parse_float_def Let_def read_exponent_def pow10_def ts sg inf tw dw)
qed

section \<open>Whole numbers from text: parseInt\<close>

text \<open>
  \<^verbatim>\<open>parseInt\<close> without a radix: white space, a sign, then hexadecimal digits after \<^verbatim>\<open>0x\<close> and
  decimal digits otherwise; NaN if there are none. What follows the digits is ignored.
\<close>

definition hex_val :: "char \<Rightarrow> nat option" where
  "hex_val c = (let n = of_char c :: nat in
     if 48 \<le> n \<and> n \<le> 57 then Some (n - 48)
     else if 65 \<le> n \<and> n \<le> 70 then Some (n - 55)
     else if 97 \<le> n \<and> n \<le> 102 then Some (n - 87)
     else None)"

definition parse_int :: "string \<Rightarrow> number" where
  "parse_int s =
     (let (neg, t) = take_sign (trim_start s);
          hex = starts_with ''0x'' t \<or> starts_with ''0X'' t;
          ds = (if hex then takeWhile (\<lambda>c. hex_val c \<noteq> None) (drop 2 t) else takeWhile is_digit t);
          n = (if hex then foldl (\<lambda>n c. 16 * n + the (hex_val c)) 0 ds else nat_of_digits ds)
      in if ds = [] then NaN else fl (if neg then - of_nat n else of_nat n))"

lemma parse_int_show_nat:
  assumes "n \<le> 2 ^ 53"
  shows "parse_int (show_nat n) = Fin (of_nat n)"
proof -
  let ?s = "show_nat n"
  obtain c cs where s: "?s = c # cs" by (cases ?s) auto
  have d: "\<forall>x \<in> set ?s. is_digit x" using show_nat_digits by blast
  then have c: "is_digit c" by (simp add: s)
  have ts: "trim_start ?s = ?s" using is_digit_not [OF c] by (simp add: s trim_start_def)
  have sg: "take_sign ?s = (False, ?s)" using is_digit_not [OF c] by (simp add: s take_sign_def)
  have x: "\<not> is_digit CHR ''x'' \<and> \<not> is_digit CHR ''X''" by (simp add: is_digit_def)
  then have "CHR ''x'' \<notin> set ?s \<and> CHR ''X'' \<notin> set ?s" using d by blast
  then have hex: "\<not> starts_with ''0x'' ?s \<and> \<not> starts_with ''0X'' ?s"
    by (cases cs) (auto simp: s starts_with_def)
  have tw: "takeWhile is_digit ?s = ?s" using d by (simp add: takeWhile_eq_all_conv)
  show ?thesis
    using assms by (simp add: parse_int_def Let_def ts sg hex tw)
qed

section \<open>Further operations of Math\<close>

text \<open>
  \<^verbatim>\<open>Math.max\<close> of any number of arguments, \<^verbatim>\<open>Math.ceil\<close>, and the double \<^verbatim>\<open>Math.PI\<close>.
\<close>

definition js_max_list :: "number list \<Rightarrow> number" where
  "js_max_list ns = foldl js_max NInf ns"

fun js_ceil :: "number \<Rightarrow> number" where
  "js_ceil (Fin a) = Fin (of_int \<lceil>a\<rceil>)"
| "js_ceil n = n"

definition JS_PI :: number where
  "JS_PI = Fin (884279719003555 / 281474976710656)"

lemma js_max_Fin [simp]: "js_max (Fin a) (Fin b) = Fin (max a b)"
  by (auto simp: js_max_def)

lemma js_min_Fin [simp]: "js_min (Fin a) (Fin b) = Fin (min a b)"
  by (auto simp: js_min_def min_def)

lemma js_max_NInf [simp]: "js_max NInf (Fin b) = Fin b"
  by (simp add: js_max_def)

lemma foldl_js_max: "foldl js_max (Fin m) (map Fin qs) = Fin (foldl max m qs)"
  by (induction qs arbitrary: m) simp_all

lemma foldl_max_ge: "(m :: rat) \<le> foldl max m qs \<and> (\<forall>q \<in> set qs. q \<le> foldl max m qs)"
proof (induction qs arbitrary: m)
  case (Cons q qs)
  from Cons.IH [of "max m q"] show ?case by auto
qed simp

lemma js_max_list_snoc:
  "js_max_list (map Fin qs @ [Fin m]) = Fin (foldl max m qs)"
proof (cases qs)
  case (Cons q qs')
  have swap: "max (foldl max x xs) y = foldl max y (x # xs)" for x y :: rat and xs
  proof (induction xs arbitrary: x)
    case (Cons z zs)
    then show ?case by (simp add: max.assoc)
  qed (simp add: max.commute)
  show ?thesis
    by (simp add: js_max_list_def Cons foldl_js_max swap)
qed (simp add: js_max_list_def)

lemma js_sub_Fin [simp]: "js_sub (Fin a) (Fin b) = fl (a - b)"
  by (simp add: js_sub_def)

text \<open>A number with at most 53 significant bits is not rounded.\<close>

text \<open>How far rounding moves a number of at most 64.\<close>

lemma fl_pos_error: "\<bar>fl_pos x - x\<bar> \<le> pow2 (ulp_exp x) / 2"
proof -
  let ?u = "pow2 (ulp_exp x)"
  have "\<bar>(of_int (rne (x / ?u)) - x / ?u) * ?u\<bar> \<le> 1 / 2 * ?u"
    using rne_error [of "x / ?u"] by (simp only: abs_mult abs_of_pos [OF pow2_pos] mult_right_mono less_imp_le [OF pow2_pos])
  then show ?thesis by (simp add: fl_pos_def left_diff_distrib)
qed

lemma fl_error_64:
  assumes "0 \<le> x" and "x \<le> 64"
  obtains y where "fl x = Fin y" "\<bar>y - x\<bar> \<le> 1 / 2 ^ 47"
proof (cases "x = 0")
  case True
  then show thesis using that [of 0] by simp
next
  case False
  then have x: "0 < x" using assms(1) by simp
  have "expo x < 7"
  proof (rule ccontr)
    assume "\<not> expo x < 7"
    then have "pow2 7 \<le> pow2 (expo x)" by (intro pow2_mono) simp
    also have "\<dots> \<le> x" using expo_bounds(1) [OF x] by simp
    finally show False using assms(2) by (simp add: pow2_def)
  qed
  then have "pow2 (ulp_exp x) \<le> pow2 (- 46)" by (intro pow2_mono) (simp add: ulp_exp_def)
  then have err: "\<bar>fl_pos x - x\<bar> \<le> 1 / 2 ^ 47"
    using fl_pos_error [of x] by (simp add: pow2_def [of "- 46"])
  obtain y where y: "fl x = Fin y" using b64.bounded [of x 64] assms by auto
  then have "y = fl_pos x" using x by (auto simp: fl_def Let_def split: if_splits)
  then show thesis using that [OF y] err by simp
qed

lemma fl_exact:
  assumes "0 < k" and "k < 2 ^ 53" and "- 1074 \<le> e" and "e \<le> 900"
  shows "fl (of_nat k * pow2 e) = Fin (of_nat k * pow2 e)"
proof -
  let ?x = "of_nat k * pow2 e :: rat" and ?u = "ulp_exp (of_nat k * pow2 e)"
  have p53: "pow2 53 = of_nat (2 ^ 53)" by (simp add: pow2_def)
  have k: "of_nat k < pow2 53"
    unfolding p53 of_nat_less_iff by (rule assms(2))
  have pos: "0 < ?x" using assms(1) by simp
  have lt: "?x < pow2 (53 + e)" using k by (simp add: pow2_add)
  then have "pow2 (expo ?x) < pow2 (53 + e)" using expo_bounds [OF pos] by linarith
  then have "expo ?x < 53 + e"
    using pow2_mono [of "53 + e" "expo ?x"] by (meson linorder_not_le)
  then have "?u \<le> e" using assms(3) by (simp add: ulp_exp_def)
  from pow2_multiple [OF this] have "?x = of_int (int k * 2 ^ nat (e - ?u)) * pow2 ?u"
    by simp
  then have fp: "fl_pos ?x = ?x" by (rule fl_pos_exact)
  have "?x < pow2 1024"
    using lt pow2_mono [of "53 + e" 1024] assms(4) by simp
  then have "?x < 2 ^ 1024" by (simp only: pow2_def) simp
  then show ?thesis using pos fp by (simp add: fl_def Let_def)
qed

lemma fl_eighth [simp]: "k < 2 ^ 53 \<Longrightarrow> fl (of_nat k / 8) = Fin (of_nat k / 8)"
  using fl_exact [of k "- 3"] by (cases "k = 0") (simp_all add: pow2_def)

end
