(* ===== verification/Types.thy ===== *)
theory Types
  imports JsNumber
begin

text \<open>
  The data types of \<^verbatim>\<open>frontend/src/types/index.ts\<close>: the ten migration states with the two
  flows through them and their labels and colours, and the interfaces of the records the
  engine sends. An interface is a record, an optional or nullable member an \<open>option\<close>, a
  \<^verbatim>\<open>number\<close> that is only displayed a \<open>number\<close>.
\<close>

section \<open>States\<close>

datatype mig_state =
    Pending | Expanding | Backfilling | Verifying | Canary | Cutover | Contracting | Done
  | RollingBack | RolledBack

text \<open>The string literal of a state, as the source compares and prints it.\<close>

fun state_str :: "mig_state \<Rightarrow> string" where
  "state_str Pending = ''Pending''"
| "state_str Expanding = ''Expanding''"
| "state_str Backfilling = ''Backfilling''"
| "state_str Verifying = ''Verifying''"
| "state_str Canary = ''Canary''"
| "state_str Cutover = ''Cutover''"
| "state_str Contracting = ''Contracting''"
| "state_str Done = ''Done''"
| "state_str RollingBack = ''RollingBack''"
| "state_str RolledBack = ''RolledBack''"

definition STATE_FLOW :: "mig_state list" where
  "STATE_FLOW =
     [Pending, Expanding, Backfilling, Verifying, Canary, Cutover, Contracting, Done]"

definition ROLLBACK_FLOW :: "mig_state list" where
  "ROLLBACK_FLOW = [Pending, RollingBack, RolledBack]"

fun STATE_COLORS :: "mig_state \<Rightarrow> string" where
  "STATE_COLORS Pending = ''#6b7280''"
| "STATE_COLORS Expanding = ''#3b82f6''"
| "STATE_COLORS Backfilling = ''#eab308''"
| "STATE_COLORS Verifying = ''#06b6d4''"
| "STATE_COLORS Canary = ''#f97316''"
| "STATE_COLORS Cutover = ''#8b5cf6''"
| "STATE_COLORS Contracting = ''#ef4444''"
| "STATE_COLORS Done = ''#22c55e''"
| "STATE_COLORS RollingBack = ''#ec4899''"
| "STATE_COLORS RolledBack = ''#6b7280''"

fun STATE_LABELS :: "mig_state \<Rightarrow> string" where
  "STATE_LABELS Pending = ''Pending''"
| "STATE_LABELS Expanding = ''Expanding''"
| "STATE_LABELS Backfilling = ''Backfilling''"
| "STATE_LABELS Verifying = ''Verifying''"
| "STATE_LABELS Canary = ''Canary''"
| "STATE_LABELS Cutover = ''Cutover''"
| "STATE_LABELS Contracting = ''Contracting''"
| "STATE_LABELS Done = ''Done''"
| "STATE_LABELS RollingBack = ''Rolling Back''"
| "STATE_LABELS RolledBack = ''Rolled Back''"

text \<open>The states as an enumeration, so that a statement over all of them evaluates.\<close>

instantiation mig_state :: enum
begin

definition enum_mig_state :: "mig_state list" where
  "enum_mig_state = STATE_FLOW @ [RollingBack, RolledBack]"

definition enum_all_mig_state :: "(mig_state \<Rightarrow> bool) \<Rightarrow> bool" where
  "enum_all_mig_state P = list_all P (STATE_FLOW @ [RollingBack, RolledBack])"

definition enum_ex_mig_state :: "(mig_state \<Rightarrow> bool) \<Rightarrow> bool" where
  "enum_ex_mig_state P = list_ex P (STATE_FLOW @ [RollingBack, RolledBack])"

instance
proof
  have univ: "x \<in> set (STATE_FLOW @ [RollingBack, RolledBack])" for x
    by (cases x) (simp_all add: STATE_FLOW_def)
  show "(UNIV :: mig_state set) = set enum_class.enum"
    using univ by (auto simp: enum_mig_state_def)
  show "distinct (enum_class.enum :: mig_state list)"
    by (simp add: enum_mig_state_def STATE_FLOW_def)
  show "enum_class.enum_all P = Ball UNIV P" for P :: "mig_state \<Rightarrow> bool"
    using univ by (auto simp: enum_all_mig_state_def list_all_iff simp del: set_append)
  show "enum_class.enum_ex P = Bex UNIV P" for P :: "mig_state \<Rightarrow> bool"
    using univ by (auto simp: enum_ex_mig_state_def list_ex_iff simp del: set_append)
qed

end

section \<open>Plans\<close>

record column_spec =
  cs_name :: string
  cs_type :: string
  cs_expression :: "string option"
  cs_nullable :: "bool option"
  cs_indexed :: "bool option"

record backfill_spec =
  bf_column :: string
  bf_batch_size :: number
  bf_throttle_ms :: number
  bf_source_expr :: string

record verify_spec =
  vf_mode :: string
  vf_parity_threshold :: number
  vf_sample_rate :: number

record canary_spec =
  cn_steps :: "number list"
  cn_bake_seconds :: number

record slo_spec =
  slo_max_p99_latency_ms :: number
  slo_max_error_rate_pct :: number
  slo_min_parity :: number

record migration_plan =
  mp_id :: string
  mp_version :: number
  mp_table :: string
  mp_strategy :: string
  mp_expand :: "string list"
  mp_backfill :: backfill_spec
  mp_verify :: verify_spec
  mp_canary :: canary_spec
  mp_slo :: slo_spec
  mp_contract :: "string list"
  mp_rollback :: "string list"
  mp_on_failure :: string
  mp_add_columns :: "column_spec list option"
  mp_drop_columns :: "string list option"

section \<open>Records the engine sends\<close>

text \<open>
  A field declared \<^verbatim>\<open>T | null\<close>. The engine leaves some of them out when they are empty, so the
  decoded value may also be \<^verbatim>\<open>undefined\<close>. And where a list is declared, the engine's encoder
  writes \<^verbatim>\<open>null\<close> for an empty one (a nil slice): these fields are optional here.
\<close>

datatype 'a field = Undefined | Null | Value 'a

record throttle_event =
  te_timestamp :: string
  te_reason :: string
  te_duration :: string
  te_metric :: string
  te_threshold :: string
  te_current :: string

datatype rollback_kind = Breach | Trip | Init | Drain | Drop | Complete | Verify

record rollback_event =
  re_timestamp :: string
  re_type :: rollback_kind
  re_message :: string

record migration_record =
  mr_migration_id :: string
  mr_plan_id :: string
  mr_state :: mig_state
  mr_terminal :: bool
  mr_updated_at :: string
  mr_table :: "string option"
  mr_plan :: "migration_plan option"
  mr_row_count :: "number option"
  mr_duration :: "string option"
  mr_data_parity :: "number option"
  mr_rows_verified :: "number option"
  mr_drift_detected :: "number option"
  mr_throttle_events :: "number option"
  mr_data_loss :: "number option"
  mr_uptime :: "string option"
  mr_downtime_cost :: "number option"
  mr_downtime_seconds :: "number option"
  mr_engineering_saved :: "number option"
  mr_cost_saved :: "number option"
  mr_throughput :: "number option"
  mr_source_rows :: "number option"
  mr_dest_rows :: "number option"
  mr_source_checksum :: "string option"
  mr_dest_checksum :: "string option"
  mr_null_mismatches :: "number option"
  mr_type_conversion_valid :: "bool option"
  mr_fk_integrity_valid :: "bool option"
  mr_verification_method :: "string option"
  mr_deletes_processed :: "number option"
  mr_updates_processed :: "number option"
  mr_alters_handled :: "number option"
  mr_start_time :: "string option"
  mr_end_time :: "string option"
  mr_throttle_events_list :: "throttle_event list option"
  mr_rollback_events :: "rollback_event list option"

record schema_column =
  sc_name :: string
  sc_type :: string
  sc_nullable :: bool
  sc_default :: "string option"

record schema_response =
  sr_table :: string
  sr_columns :: "schema_column list option"

record drift_report =
  dr_table :: string
  dr_column :: string
  dr_total :: number
  dr_nulls :: number
  dr_drifted :: number
  dr_parity :: number

record plan_submission =
  ps_migration_id :: string

record migration_event =
  me_from_state :: mig_state
  me_to_state :: mig_state
  me_detail :: string
  me_created_at :: string

record ddl_execution_log =
  dl_id :: nat
  dl_migration_id :: string
  dl_statement :: string
  dl_started_at :: string
  dl_completed_at :: "string field"
  dl_duration_ms :: "number field"
  dl_success :: bool
  dl_error_message :: "string field"
  dl_lock_wait_ms :: "number option"
  dl_created_at :: string

record backfill_progress =
  bp_id :: nat
  bp_migration_id :: string
  bp_batch_number :: number
  bp_rows_affected :: number
  bp_throttle_ms :: "number option"
  bp_db_cpu_pct :: "number option"
  bp_db_rep_lag_ms :: "number option"
  bp_db_conns_pct :: "number option"
  bp_created_at :: string

record canary_observation =
  co_id :: nat
  co_migration_id :: string
  co_step :: number
  co_traffic_pct :: number
  co_p99_ms :: "number option"
  co_err_pct :: "number option"
  co_slo_breached :: bool
  co_observed_at :: string

record safety_metrics =
  sm_migration_id :: string
  sm_ddl_logs :: "ddl_execution_log list option"

record backfill_progress_response =
  bpr_migration_id :: string
  bpr_progress :: "backfill_progress list option"

record canary_observations_response =
  cor_migration_id :: string
  cor_observations :: "canary_observation list option"

section \<open>Facts about the flow\<close>

text \<open>The position of a state on the happy path; \<open>None\<close> off it.\<close>

definition flow_index :: "mig_state \<Rightarrow> nat option" where
  "flow_index s = list_index_of s STATE_FLOW"

lemma length_STATE_FLOW [simp]: "length STATE_FLOW = 8"
  by (simp add: STATE_FLOW_def)

lemma distinct_STATE_FLOW [simp]: "distinct STATE_FLOW"
  by (simp add: STATE_FLOW_def)

lemma flow_index_simps [simp]:
  "flow_index Pending = Some 0" "flow_index Expanding = Some 1"
  "flow_index Backfilling = Some 2" "flow_index Verifying = Some 3"
  "flow_index Canary = Some 4" "flow_index Cutover = Some 5"
  "flow_index Contracting = Some 6" "flow_index Done = Some 7"
  "flow_index RollingBack = None" "flow_index RolledBack = None"
  by (simp_all add: flow_index_def list_index_of_def STATE_FLOW_def)

lemma flow_index_lt: "flow_index s = Some i \<Longrightarrow> i < 8"
  by (cases s) auto

lemma flow_index_nth: "flow_index s = Some i \<Longrightarrow> STATE_FLOW ! i = s"
  by (auto simp: flow_index_def list_index_of_def find_index_Some_iff)

lemma flow_index_None_iff: "flow_index s = None \<longleftrightarrow> s = RollingBack \<or> s = RolledBack"
  by (cases s) auto

lemma state_str_inj: "state_str s = state_str t \<Longrightarrow> s = t"
  by (cases s; cases t) simp_all

lemma labels_distinguish: "STATE_LABELS s = STATE_LABELS t \<Longrightarrow> s = t"
  by (cases s; cases t) simp_all

text \<open>A record with its required fields only, as a list answer holds it; used in examples.\<close>

definition bare_record :: "string \<Rightarrow> string \<Rightarrow> mig_state \<Rightarrow> bool \<Rightarrow> migration_record" where
  "bare_record i plan st terminal =
     \<lparr> mr_migration_id = i, mr_plan_id = plan, mr_state = st, mr_terminal = terminal,
       mr_updated_at = [], mr_table = None, mr_plan = None, mr_row_count = None, mr_duration = None, mr_data_parity =
       None, mr_rows_verified = None, mr_drift_detected = None, mr_throttle_events = None,
       mr_data_loss = None, mr_uptime = None, mr_downtime_cost = None, mr_downtime_seconds =
       None, mr_engineering_saved = None, mr_cost_saved = None, mr_throughput = None,
       mr_source_rows = None, mr_dest_rows = None, mr_source_checksum = None, mr_dest_checksum =
       None, mr_null_mismatches = None, mr_type_conversion_valid = None, mr_fk_integrity_valid =
       None, mr_verification_method = None, mr_deletes_processed = None, mr_updates_processed =
       None, mr_alters_handled = None, mr_start_time = None, mr_end_time = None,
       mr_throttle_events_list = None, mr_rollback_events = None \<rparr>"

end
