(* ===== verification/Constants.thy ===== *)
theory Constants
  imports Types
begin

text \<open>
  \<^verbatim>\<open>frontend/src/lib/constants.ts\<close>: the plan that the demo button submits, and the
  periods and the page size of the pages.
\<close>

definition DEMO_PLAN :: migration_plan where
  "DEMO_PLAN =
     \<lparr> mp_id = ''demo-run'',
       mp_version = Fin 1,
       mp_table = ''catalog_product'',
       mp_strategy = ''expand-contract'',
       mp_expand =
         [''ALTER TABLE catalog_product ADD COLUMN IF NOT EXISTS shipping_class text'',
          ''CREATE INDEX CONCURRENTLY IF NOT EXISTS idx_cp_shipping ON catalog_product (shipping_class)''],
       mp_backfill =
         \<lparr> bf_column = ''shipping_class'',
           bf_batch_size = Fin 5000,
           bf_throttle_ms = Fin 20,
           bf_source_expr =
             ''CASE WHEN weight < 1 THEN 'light' WHEN weight < 10 THEN 'standard' ELSE 'freight' END'' \<rparr>,
       mp_verify =
         \<lparr> vf_mode = ''shadow-read'',
           vf_parity_threshold = fl (999 / 1000),
           vf_sample_rate = fl (5 / 100) \<rparr>,
       mp_canary = \<lparr> cn_steps = [Fin 1, Fin 5, Fin 25, Fin 100], cn_bake_seconds = Fin 120 \<rparr>,
       mp_slo =
         \<lparr> slo_max_p99_latency_ms = Fin 50,
           slo_max_error_rate_pct = fl (1 / 10),
           slo_min_parity = fl (999 / 1000) \<rparr>,
       mp_contract = [''ALTER TABLE catalog_product DROP COLUMN IF EXISTS legacy_shipping''],
       mp_rollback =
         [''DROP INDEX IF EXISTS idx_cp_shipping'',
          ''ALTER TABLE catalog_product DROP COLUMN IF EXISTS shipping_class''],
       mp_on_failure = ''rollback'',
       mp_add_columns = None,
       mp_drop_columns = None \<rparr>"

definition TOAST_DURATION :: nat where
  "TOAST_DURATION = 4000"

definition POLL_INTERVAL_MS :: nat where
  "POLL_INTERVAL_MS = 2000"

definition PAGE_SIZE :: nat where
  "PAGE_SIZE = 20"

lemma PAGE_SIZE_pos [simp]: "0 < PAGE_SIZE"
  by (simp add: PAGE_SIZE_def)

end
