(* ===== verification/JsText.thy ===== *)
theory JsText
  imports JsNumber
begin

text \<open>
  Numbers as text: \<^verbatim>\<open>toFixed\<close>, the conversion a template literal applies to a number, and
  \<^verbatim>\<open>padStart\<close>. Text depending on the browser's locale (\<^verbatim>\<open>toLocaleString\<close>) stays a parameter of
  the pages.
\<close>

section \<open>Shortest decimal text\<close>

text \<open>
  The text of a number is its shortest decimal that reads back as the same number. Whole
  numbers up to \<open>2^53\<close> print all their digits.
\<close>

fun dec_exp :: "nat \<Rightarrow> rat \<Rightarrow> int \<Rightarrow> int" where
  "dec_exp 0 x n = n"
| "dec_exp (Suc f) x n =
     (if pow10 n \<le> x then dec_exp f x (n + 1) else if x < pow10 (n - 1) then dec_exp f x (n - 1) else n)"

text \<open>The \<open>k\<close>-digit decimals around \<open>x\<close>, where \<open>10^(n-1) \<le> x < 10^n\<close>, that read back as \<open>x\<close>.\<close>

definition short_at :: "rat \<Rightarrow> int \<Rightarrow> nat \<Rightarrow> int option" where
  "short_at x n k =
     (let u = pow10 (n - int k); lo = \<lfloor>x / u\<rfloor>; hi = lo + 1;
          ok = (\<lambda>d. fl (of_int d * u) = Fin x)
      in if ok lo \<and> (\<not> ok hi \<or> x - of_int lo * u \<le> of_int hi * u - x) then Some lo
         else if ok hi then Some hi else None)"

fun shortest :: "nat \<Rightarrow> rat \<Rightarrow> int \<Rightarrow> nat \<Rightarrow> int \<times> nat" where
  "shortest 0 x n k = (\<lfloor>x / pow10 (n - int k)\<rfloor>, k)"
| "shortest (Suc f) x n k = (case short_at x n k of Some d \<Rightarrow> (d, k) | None \<Rightarrow> shortest f x n (k + 1))"

text \<open>
  The layout of the digits: plain up to 21 places, small fractions with leading zeros, and an
  exponent beyond. When the decimal is rounded up to the next power of ten it has one place more.
\<close>

definition pos_text :: "rat \<Rightarrow> string" where
  "pos_text x =
     (let m = dec_exp 700 x 1; (d, k) = shortest 17 x m 1;
          (d', n) = (if d = 10 ^ k then (10 ^ (k - 1), m + 1) else (d, m));
          s = show_nat (nat d'); e = n - 1
      in if int k \<le> n \<and> n \<le> 21 then s @ replicate (nat n - k) CHR ''0''
         else if 0 < n \<and> n \<le> 21 then take (nat n) s @ ''.'' @ drop (nat n) s
         else if - 6 < n \<and> n \<le> 0 then ''0.'' @ replicate (nat (- n)) CHR ''0'' @ s
         else (take 1 s @ (if k = 1 then [] else CHR ''.'' # drop 1 s)) @ ''e'' @
           (if e < 0 then ''-'' else ''+'') @ show_nat (nat \<bar>e\<bar>))"

fun num_text :: "number \<Rightarrow> string" where
  "num_text NaN = ''NaN''"
| "num_text PInf = ''Infinity''"
| "num_text NInf = ''-Infinity''"
| "num_text (Fin x) =
     (if x = of_int \<lfloor>x\<rfloor> \<and> \<bar>x\<bar> \<le> 2 ^ 53 then show_int \<lfloor>x\<rfloor>
      else if x < 0 then CHR ''-'' # pos_text (- x) else pos_text x)"

section \<open>A fixed number of decimals\<close>

text \<open>
  \<^verbatim>\<open>toFixed(d)\<close>: the nearest decimal with \<open>d\<close> places, the larger one in the middle; from
  \<open>10^21\<close> on the plain text of the number.
\<close>

definition fixed_nat :: "nat \<Rightarrow> rat \<Rightarrow> nat" where
  "fixed_nat d x = nat \<lfloor>x * 10 ^ d + 1 / 2\<rfloor>"

definition fixed_text :: "nat \<Rightarrow> nat \<Rightarrow> string" where
  "fixed_text d n =
     (if d = 0 then show_nat n
      else let s = show_nat n; t = replicate (d + 1 - length s) CHR ''0'' @ s
           in take (length t - d) t @ ''.'' @ drop (length t - d) t)"

fun to_fixed :: "nat \<Rightarrow> number \<Rightarrow> string" where
  "to_fixed d (Fin x) =
     (if 10 ^ 21 \<le> \<bar>x\<bar> then num_text (Fin x)
      else if x < 0 then CHR ''-'' # fixed_text d (fixed_nat d (- x))
      else fixed_text d (fixed_nat d x))"
| "to_fixed d n = num_text n"

section \<open>Padding\<close>

definition pad_start :: "nat \<Rightarrow> char \<Rightarrow> string \<Rightarrow> string" where
  "pad_start n c s = replicate (n - length s) c @ s"

lemma length_pad_start: "length (pad_start n c s) = max n (length s)"
  by (simp add: pad_start_def)

lemma show_int_nat [simp]: "show_int (int n) = show_nat n"
  by (simp add: show_int_def)

lemma num_text_nat [simp]: "n \<le> 2 ^ 53 \<Longrightarrow> num_text (Fin (of_nat n)) = show_nat n"
proof -
  assume "n \<le> 2 ^ 53"
  then have "\<bar>of_nat n :: rat\<bar> \<le> of_nat (2 ^ 53)" by (simp only: abs_of_nat of_nat_le_iff)
  then show ?thesis by simp
qed

text \<open>A text with \<open>d\<close> decimals shows its number up to half a unit of the last place.\<close>

lemma fixed_nat_error:
  assumes "0 \<le> x"
  shows "\<bar>of_nat (fixed_nat d x) / 10 ^ d - x\<bar> \<le> 1 / (2 * 10 ^ d)"
proof -
  let ?y = "x * 10 ^ d"
  have "0 \<le> ?y" using assms by simp
  then have "0 \<le> \<lfloor>?y + 1 / 2\<rfloor>" by (simp add: le_floor_iff)
  then have eq: "of_nat (fixed_nat d x) = (of_int \<lfloor>?y + 1 / 2\<rfloor> :: rat)"
    by (simp add: fixed_nat_def of_nat_nat)
  have "\<bar>of_int \<lfloor>?y + 1 / 2\<rfloor> - ?y\<bar> \<le> 1 / 2" by linarith
  then have "\<bar>of_nat (fixed_nat d x) - ?y\<bar> / 10 ^ d \<le> (1 / 2) / 10 ^ d"
    unfolding eq by (intro divide_right_mono) simp_all
  moreover have "of_nat (fixed_nat d x) / 10 ^ d - x = (of_nat (fixed_nat d x) - ?y) / 10 ^ d"
    by (simp add: diff_divide_distrib)
  ultimately show ?thesis by (simp add: abs_divide)
qed

end
