(* ===== verification/NumText.thy ===== *)
theory NumText
  imports JsText
begin

text \<open>
  The text of a number reads back as that number: a template literal or \<^verbatim>\<open>JSON.stringify\<close> followed by
  \<^verbatim>\<open>parseFloat\<close> or \<^verbatim>\<open>JSON.parse\<close> loses nothing. The proof shows that seventeen digits always suffice, so
  that the search for the shortest decimal succeeds, and follows the four layouts of the digits.
\<close>

section \<open>Powers of ten\<close>

lemma pow10_powi: "pow10 e = 10 powi e"
  by (simp add: pow10_def power_int_def inverse_eq_divide power_divide)

lemma pow10_add: "pow10 (a + b) = pow10 a * pow10 b"
  by (simp add: pow10_powi power_int_add)

lemma pow10_pos [simp]: "0 < pow10 e"
  by (simp add: pow10_powi)

lemma pow10_ne [simp]: "pow10 e \<noteq> 0"
  using pow10_pos [of e] by linarith

lemma pow10_mono: "a \<le> b \<Longrightarrow> pow10 a \<le> pow10 b"
  by (simp add: pow10_powi power_int_increasing)

lemma pow10_nat: "pow10 (int n) = 10 ^ n"
  by (simp add: pow10_def)

lemma pow10_less: "pow10 a < pow10 b \<Longrightarrow> a < b"
  using pow10_mono [of b a] by force

lemma pow10_shift: "a \<le> b \<Longrightarrow> pow10 b = 10 ^ nat (b - a) * pow10 a"
  using pow10_add [of "b - a" a] pow10_nat [of "nat (b - a)"] by simp

section \<open>Doubles\<close>

definition is_double :: "rat \<Rightarrow> bool" where
  "is_double x \<longleftrightarrow> fl x = Fin x"

lemma double_pos:
  assumes "is_double x" and "0 < x"
  shows "fl_pos x = x" and "x < 2 ^ 1024"
  using assms by (auto simp: is_double_def fl_def Let_def split: if_splits)

lemma double_multiple:
  assumes "is_double x" and "0 < x"
  obtains k :: int where "x = of_int k * pow2 (ulp_exp x)" "1 \<le> k"
proof -
  let ?k = "rne (x / pow2 (ulp_exp x))"
  have e: "x = of_int ?k * pow2 (ulp_exp x)" using double_pos(1) [OF assms] by (simp add: fl_pos_def)
  then have "0 < of_int ?k * pow2 (ulp_exp x)" using assms(2) by simp
  then have "0 < (of_int ?k :: rat)" by (rule zero_less_mult_pos2) simp
  then show ?thesis using that e by simp
qed

lemma double_least:
  assumes "is_double x" and "0 < x"
  shows "pow2 (- 1074) \<le> x"
proof -
  obtain k where k: "x = of_int k * pow2 (ulp_exp x)" "1 \<le> k" by (rule double_multiple [OF assms])
  have "pow2 (- 1074) \<le> pow2 (ulp_exp x)" by (rule pow2_mono) (simp add: ulp_exp_def)
  also have "\<dots> \<le> of_int k * pow2 (ulp_exp x)" using k(2) mult_right_mono [of 1 "of_int k" "pow2 (ulp_exp x)"] by simp
  finally show ?thesis using k(1) by simp
qed

lemma fl_neg: "fl (- q) = js_neg (fl q)"
  by (simp add: fl_def Let_def)

section \<open>Numbers next to a double\<close>

lemma rne_near: "\<bar>q - of_int k\<bar> < 1 / 2 \<Longrightarrow> rne q = k"
proof -
  assume "\<bar>q - of_int k\<bar> < 1 / 2"
  then have "\<bar>of_int (rne q) - of_int k :: rat\<bar> < 1" using rne_error [of q] by linarith
  then show ?thesis by linarith
qed

lemma pow2_52: "pow2 (e + 1) = 2 ^ 53 * pow2 (e - 52)"
proof -
  have "pow2 (e + 1) = pow2 (53 + (e - 52))" by (rule arg_cong [of _ _ pow2]) simp
  then show ?thesis by (simp only: pow2_add) (simp add: pow2_def [of 53])
qed

text \<open>A number above the double, but close, has the same grid.\<close>

lemma ulp_above:
  assumes "is_double x" and "0 < x" and "x < y" and "20000000000000000 * (y - x) \<le> x"
  shows "ulp_exp y \<le> ulp_exp x"
proof (rule ccontr)
  assume "\<not> ulp_exp y \<le> ulp_exp x"
  then have u: "ulp_exp x < ulp_exp y" by simp
  let ?u = "ulp_exp x" and ?Q = "pow2 (expo x + 1)"
  obtain k where k: "x = of_int k * pow2 ?u" by (rule double_multiple [OF assms(1,2)])
  have Q: "x < ?Q" "pow2 (expo x) \<le> x" using expo_bounds [OF assms(2)] by simp_all
  have "pow2 (- 1074) < ?Q" using double_least [OF assms(1,2)] Q(1) by simp
  then have "- 1074 < expo x + 1" using pow2_mono [of "expo x + 1" "- 1074"] by force
  then have le: "?u \<le> expo x + 1" by (simp add: ulp_exp_def)
  have m: "?Q = of_int (2 ^ nat (expo x + 1 - ?u)) * pow2 ?u" by (rule pow2_multiple [OF le])
  have "of_int k * pow2 ?u < of_int (2 ^ nat (expo x + 1 - ?u)) * pow2 ?u" using Q(1) k m by simp
  then have "k < 2 ^ nat (expo x + 1 - ?u)" by (simp only: mult_less_cancel_right_pos [OF pow2_pos] of_int_less_iff)
  then have "k + 1 \<le> 2 ^ nat (expo x + 1 - ?u)" by simp
  then have "of_int (k + 1) * pow2 ?u \<le> of_int (2 ^ nat (expo x + 1 - ?u)) * pow2 ?u"
    by (intro mult_right_mono) (simp_all only: of_int_le_iff pow2_pos less_imp_le)
  then have gap: "x + pow2 ?u \<le> ?Q" using k m by (simp add: distrib_right)
  have "pow2 (expo x - 52) \<le> pow2 ?u" by (rule pow2_mono) (simp add: ulp_exp_def)
  then have q: "?Q \<le> 2 ^ 53 * pow2 ?u" by (simp add: pow2_52)
  have "expo x < expo y" using u by (auto simp: ulp_exp_def)
  then have "?Q \<le> pow2 (expo y)" by (intro pow2_mono) simp
  also have "\<dots> \<le> y" using expo_bounds(1) [of y] assms(2,3) by simp
  finally have "x + pow2 ?u \<le> y" using gap by simp
  then have "20000000000000000 * pow2 ?u \<le> 20000000000000000 * (y - x)" by simp
  then have "20000000000000000 * pow2 ?u \<le> x" using assms(4) by (rule order_trans)
  then show False using q Q(1) pow2_pos [of ?u] by simp
qed

lemma near_double:
  assumes "is_double x" and "0 < x" and "20000000000000000 * \<bar>y - x\<bar> \<le> x"
  shows "fl y = Fin x"
proof -
  have y: "0 < y"
  proof (rule ccontr)
    assume "\<not> 0 < y"
    then have "20000000000000000 * x \<le> 20000000000000000 * \<bar>y - x\<bar>" by simp
    then show False using assms(2,3) by simp
  qed
  let ?v = "ulp_exp y"
  have "?v \<le> ulp_exp x"
  proof (cases "y \<le> x")
    case True
    then show ?thesis using y by (rule ulp_exp_mono [rotated])
  next
    case False
    then show ?thesis using ulp_above [OF assms(1,2), of y] assms(3) by simp
  qed
  then have "pow2 (ulp_exp x) = of_int (2 ^ nat (ulp_exp x - ?v)) * pow2 ?v" by (rule pow2_multiple)
  moreover obtain k where "x = of_int k * pow2 (ulp_exp x)" by (rule double_multiple [OF assms(1,2)])
  ultimately have x: "x = of_int (k * 2 ^ nat (ulp_exp x - ?v)) * pow2 ?v" by simp
  define K where "K = k * 2 ^ nat (ulp_exp x - ?v)"
  note x = x [folded K_def]
  have "pow2 (expo y + 1) \<le> 2 ^ 53 * pow2 ?v"
    using pow2_mono [of "expo y - 52" ?v] by (simp add: pow2_52 ulp_exp_def)
  then have "y < 2 ^ 53 * pow2 ?v" using expo_bounds(2) [OF y] by linarith
  then have "2 * \<bar>y - x\<bar> < pow2 ?v" using assms(2,3) by (simp add: abs_if split: if_splits)
  then have "\<bar>(y - x) / pow2 ?v\<bar> < 1 / 2" by (simp add: abs_divide divide_less_eq)
  moreover have "(y - x) / pow2 ?v = y / pow2 ?v - of_int K" by (simp add: x diff_divide_distrib)
  ultimately have "rne (y / pow2 ?v) = K" by (intro rne_near) simp
  then have "fl_pos y = x" by (simp add: fl_pos_def x)
  then show ?thesis using y double_pos(2) [OF assms(1,2)] by (simp add: fl_def)
qed

section \<open>The decimal exponent\<close>

lemma dec_exp_bounds:
  "pow10 (n - int f) \<le> x \<Longrightarrow> x < pow10 (n + int f - 1) \<Longrightarrow>
    pow10 (dec_exp f x n - 1) \<le> x \<and> x < pow10 (dec_exp f x n)"
proof (induction f arbitrary: n)
  case 0
  then show ?case using pow10_mono [of "n - 1" n] by simp
next
  case (Suc f)
  consider "pow10 n \<le> x" | "x < pow10 (n - 1)" | "x < pow10 n" "pow10 (n - 1) \<le> x" by linarith
  then show ?case
  proof cases
    case 1
    have "f \<noteq> 0" using 1 Suc.prems(2) by (intro notI) simp
    then have "pow10 (n + 1 - int f) \<le> pow10 n" by (intro pow10_mono) simp
    then show ?thesis using Suc.IH [of "n + 1"] Suc.prems(2) 1 by (simp add: algebra_simps)
  next
    case 2
    have "f \<noteq> 0" using 2 Suc.prems(1) by (intro notI) simp
    then have "pow10 (n - 1) \<le> pow10 (n - 1 + int f - 1)" by (intro pow10_mono) simp
    moreover have "\<not> pow10 n \<le> x" using 2 pow10_mono [of "n - 1" n] by simp
    moreover have "pow10 (n - 1 - int f) \<le> x" using Suc.prems(1) by (simp add: algebra_simps)
    ultimately show ?thesis using Suc.IH [of "n - 1"] 2 by simp
  next
    case 3
    then show ?thesis by (simp add: not_le not_less)
  qed
qed

text \<open>Three binary places are less than one decimal place.\<close>

lemma eight_ten: "(2 :: rat) ^ (3 * k) \<le> 10 ^ k"
proof -
  have "(2 :: rat) ^ (3 * k) = 8 ^ k" by (simp add: power_mult)
  then show ?thesis by (simp add: power_mono)
qed

lemma pow10_below_pow2: "pow10 (- int k) \<le> pow2 (- int (3 * k))"
proof -
  have ten: "pow10 (- int k) = inverse (10 ^ k)" by (simp only: pow10_powi power_int_minus power_int_of_nat)
  have two: "pow2 (- int (3 * k)) = inverse (2 ^ (3 * k))" by (simp only: pow2_powi power_int_minus power_int_of_nat)
  show ?thesis unfolding ten two by (rule le_imp_inverse_le [OF eight_ten]) simp
qed

lemma double_decimal_range:
  assumes "is_double x" and "0 < x"
  shows "pow10 (- 699) \<le> x" and "x < pow10 700"
proof -
  have "pow10 (- 699) \<le> pow10 (- int 358)" by (rule pow10_mono) simp
  also have "\<dots> \<le> pow2 (- int (3 * 358))" by (rule pow10_below_pow2)
  also have "\<dots> = pow2 (- 1074)" by (rule arg_cong [of _ _ pow2]) simp
  also have "\<dots> \<le> x" by (rule double_least [OF assms])
  finally show "pow10 (- 699) \<le> x" .
  have "x < 2 ^ 1024" by (rule double_pos(2) [OF assms])
  also have "\<dots> \<le> 2 ^ (3 * 342)" by (rule power_increasing) simp_all
  also have "\<dots> \<le> 10 ^ 342" by (rule eight_ten)
  also have "\<dots> = pow10 (int 342)" by (rule pow10_nat [symmetric])
  also have "\<dots> \<le> pow10 700" by (rule pow10_mono) simp
  finally show "x < pow10 700" .
qed

section \<open>The shortest decimal\<close>

lemma short_at_sound:
  assumes "short_at x n k = Some d"
  shows "fl (of_int d * pow10 (n - int k)) = Fin x"
    and "d = \<lfloor>x / pow10 (n - int k)\<rfloor> \<or> d = \<lfloor>x / pow10 (n - int k)\<rfloor> + 1"
  using assms by (auto simp: short_at_def Let_def split: if_splits)

text \<open>With seventeen digits one of the two neighbours is close enough.\<close>

lemma short_at_17:
  assumes "is_double x" and "0 < x" and "pow10 (n - 1) \<le> x"
  shows "short_at x n 17 \<noteq> None"
proof -
  let ?u = "pow10 (n - 17)" and ?l = "\<lfloor>x / pow10 (n - 17)\<rfloor>"
  have "pow10 (n - 1) = pow10 (16 + (n - 17))" by (rule arg_cong [of _ _ pow10]) simp
  also have "\<dots> = 10 ^ 16 * ?u" by (simp only: pow10_add) (simp add: pow10_def)
  finally have u: "10 ^ 16 * ?u \<le> x" using assms(3) by simp
  have "of_int ?l \<le> x / ?u" "x / ?u < of_int ?l + 1" by linarith+
  then have l: "of_int ?l * ?u \<le> x" "x < (of_int ?l + 1) * ?u"
    by (simp_all only: pos_le_divide_eq [OF pow10_pos] pos_divide_less_eq [OF pow10_pos])
  have "fl (of_int ?l * ?u) = Fin x \<or> fl (of_int (?l + 1) * ?u) = Fin x"
  proof (cases "2 * (x - of_int ?l * ?u) \<le> ?u")
    case True
    then have "20000000000000000 * \<bar>of_int ?l * ?u - x\<bar> \<le> x" using l(1) u by simp
    then show ?thesis using near_double [OF assms(1,2)] by blast
  next
    case False
    then have "2 * ((of_int ?l + 1) * ?u - x) \<le> ?u" by (simp add: distrib_right)
    then have "20000000000000000 * \<bar>of_int (?l + 1) * ?u - x\<bar> \<le> x" using l(2) u by simp
    then show ?thesis using near_double [OF assms(1,2)] by blast
  qed
  then show ?thesis by (auto simp: short_at_def Let_def)
qed

lemma shortest_found:
  "k \<le> j \<Longrightarrow> j < k + f \<Longrightarrow> short_at x n j \<noteq> None \<Longrightarrow> shortest f x n k = (d, i) \<Longrightarrow>
    short_at x n i = Some d \<and> k \<le> i \<and> i \<le> j"
proof (induction f arbitrary: k)
  case (Suc f)
  show ?case
  proof (cases "short_at x n k")
    case None
    then have "k < j" using Suc.prems by (cases "k = j") auto
    then show ?thesis using Suc.IH [of "k + 1"] Suc.prems None by simp
  next
    case (Some c)
    then show ?thesis using Suc.prems by simp
  qed
qed simp

text \<open>The digits found, normalised: \<open>k\<close> of them, the first one not zero.\<close>

lemma digits_of_double:
  assumes "is_double x" and "0 < x"
    and "shortest 17 x (dec_exp 700 x 1) 1 = (d, k)"
    and "(d', n) = (if d = 10 ^ k then (10 ^ (k - 1), dec_exp 700 x 1 + 1) else (d, dec_exp 700 x 1))"
  shows "1 \<le> k" and "fl (of_int d' * pow10 (n - int k)) = Fin x" and "10 ^ (k - 1) \<le> d'" and "d' < 10 ^ k"
proof -
  define m where "m = dec_exp 700 x 1"
  have m: "pow10 (m - 1) \<le> x" "x < pow10 m"
    using dec_exp_bounds [of 1 700 x] double_decimal_range [OF assms(1,2)] by (simp_all add: m_def)
  have found: "short_at x m k = Some d \<and> 1 \<le> k \<and> k \<le> 17"
    by (rule shortest_found [of 1 17 17]) (use short_at_17 [OF assms(1,2) m(1)] assms(3) in \<open>simp_all add: m_def\<close>)
  then show k: "1 \<le> k" by simp
  let ?u = "pow10 (m - int k)"
  have "10 ^ (k - 1) * ?u = pow10 (m - 1)" "10 ^ k * ?u = pow10 m"
    using k pow10_shift [of "m - int k" "m - 1"] pow10_shift [of "m - int k" m] by (simp_all add: nat_diff_distrib)
  then have "10 ^ (k - 1) \<le> x / ?u" "x / ?u < 10 ^ k"
    using m by (simp_all add: pos_le_divide_eq pos_divide_less_eq)
  then have "(of_int (10 ^ (k - 1)) :: rat) \<le> x / ?u" "x / ?u < of_int (10 ^ k)" by simp_all
  then have "10 ^ (k - 1) \<le> \<lfloor>x / ?u\<rfloor>" "\<lfloor>x / ?u\<rfloor> < 10 ^ k" by (simp_all only: le_floor_iff floor_less_iff)
  then have d: "10 ^ (k - 1) \<le> d" "d \<le> 10 ^ k" using short_at_sound(2) found by fastforce+
  have fd: "fl (of_int d * ?u) = Fin x" using short_at_sound(1) found by blast
  have lt: "(10 :: int) ^ (k - 1) < 10 ^ k" using k by (intro power_strict_increasing) simp_all
  show "fl (of_int d' * pow10 (n - int k)) = Fin x" "10 ^ (k - 1) \<le> d'" "d' < 10 ^ k"
  proof -
    have "of_int d' * pow10 (n - int k) = of_int d * ?u"
    proof (cases "d = 10 ^ k")
      case True
      have "pow10 (m + 1 - int k) = 10 * ?u" using pow10_shift [of "m - int k" "m + 1 - int k"] by simp
      moreover have "(10 :: rat) ^ (k - 1) * 10 = 10 ^ k" using k by (cases k) simp_all
      ultimately show ?thesis using assms(4) True by (simp add: m_def flip: mult.assoc)
    qed (use assms(4) in \<open>simp add: m_def\<close>)
    then show "fl (of_int d' * pow10 (n - int k)) = Fin x" using fd by simp
    show "10 ^ (k - 1) \<le> d'" "d' < 10 ^ k" using assms(4) d lt by (auto split: if_splits)
  qed
qed

section \<open>Reading a literal\<close>

text \<open>A literal: whole part, decimals, exponent.\<close>

definition literal :: "string \<Rightarrow> string \<Rightarrow> int option \<Rightarrow> string" where
  "literal ip fp e =
     ip @ (if fp = [] then [] else CHR ''.'' # fp) @
     (case e of None \<Rightarrow> [] | Some i \<Rightarrow> CHR ''e'' # (if i < 0 then CHR ''-'' else CHR ''+'') # show_nat (nat \<bar>i\<bar>))"

definition literal_value :: "string \<Rightarrow> string \<Rightarrow> int option \<Rightarrow> rat" where
  "literal_value ip fp e =
     of_nat (nat_of_digits (ip @ fp)) * pow10 ((case e of None \<Rightarrow> 0 | Some i \<Rightarrow> i) - int (length fp))"

definition digits :: "string \<Rightarrow> bool" where
  "digits s \<longleftrightarrow> (\<forall>c \<in> set s. is_digit c)"

definition good_literal :: "string \<Rightarrow> string \<Rightarrow> bool" where
  "good_literal ip fp \<longleftrightarrow> digits ip \<and> digits fp \<and> ip \<noteq> [] \<and> (hd ip = CHR ''0'' \<longrightarrow> length ip = 1)"

lemma digits_simps [simp]:
  "digits []" "digits (c # s) \<longleftrightarrow> is_digit c \<and> digits s" "digits (a @ b) \<longleftrightarrow> digits a \<and> digits b"
  "digits (replicate j CHR ''0'')" "digits (show_nat m)"
  using show_nat_digits by (auto simp: digits_def is_digit_def)

lemma digits_span:
  "digits s \<Longrightarrow> r = [] \<or> \<not> is_digit (hd r) \<Longrightarrow> takeWhile is_digit (s @ r) = s \<and> dropWhile is_digit (s @ r) = r"
  by (induction s) (cases r; simp)+

lemma not_digits [simp]:
  "\<not> is_digit CHR ''.''" "\<not> is_digit CHR ''e''" "\<not> is_digit CHR ''-''" "\<not> is_digit CHR ''+''" "\<not> is_digit CHR ''E''"
  by (simp_all add: is_digit_def)

lemma read_exponent_literal:
  "read_exponent (CHR ''e'' # (if i < 0 then CHR ''-'' else CHR ''+'') # show_nat (nat \<bar>i\<bar>)) = i"
proof -
  have tw: "takeWhile is_digit (show_nat m) = show_nat m" for m using digits_span [of "show_nat m" "[]"] by simp
  show ?thesis by (simp add: read_exponent_def take_sign_def tw)
qed

text \<open>Any decimal: whole part, decimals and whatever text the exponent has.\<close>

definition decimal :: "string \<Rightarrow> string \<Rightarrow> string \<Rightarrow> string" where
  "decimal ip fp ex = ip @ (if fp = [] then [] else CHR ''.'' # fp) @ ex"

definition decimal_value :: "string \<Rightarrow> string \<Rightarrow> int \<Rightarrow> rat" where
  "decimal_value ip fp i = of_nat (nat_of_digits (ip @ fp)) * pow10 (i - int (length fp))"

lemma parse_float_decimal:
  assumes d: "digits ip" "digits fp" "ip \<noteq> []"
    and ex: "ex = [] \<or> \<not> is_digit (hd ex) \<and> hd ex \<noteq> CHR ''.''"
  shows "parse_float (decimal ip fp ex) = fl (decimal_value ip fp (read_exponent ex))"
    and "parse_float (CHR ''-'' # decimal ip fp ex) = fl (- decimal_value ip fp (read_exponent ex))"
proof -
  define r where "r = (if fp = [] then [] else CHR ''.'' # fp) @ ex"
  have lit: "decimal ip fp ex = ip @ r" by (simp add: decimal_def r_def)
  have r: "r = [] \<or> \<not> is_digit (hd r)" using ex by (auto simp: r_def)
  have e: "ex = [] \<or> \<not> is_digit (hd ex)" using ex by blast
  note span = digits_span [OF d(1) r] digits_span [OF d(2) e]
  have split: "(case r of c # cs \<Rightarrow> if c = CHR ''.'' then (takeWhile is_digit cs, dropWhile is_digit cs) else ([], r)
       | [] \<Rightarrow> ([], [])) = (fp, ex)"
    using span(2) ex by (cases ex) (auto simp: r_def)
  obtain c cs where ip: "ip = c # cs" using d(3) by (cases ip) auto
  then have c: "is_digit c" using d(1) by simp
  have ts: "trim_start (ip @ r) = ip @ r" "take_sign (ip @ r) = (False, ip @ r)"
    "\<not> starts_with ''Infinity'' (ip @ r)" "take_sign (CHR ''-'' # ip @ r) = (True, ip @ r)"
    "trim_start (CHR ''-'' # ip @ r) = CHR ''-'' # ip @ r"
    using is_digit_not [OF c] by (simp_all add: ip trim_start_def take_sign_def starts_with_def is_ws_def)
  show "parse_float (decimal ip fp ex) = fl (decimal_value ip fp (read_exponent ex))"
    "parse_float (CHR ''-'' # decimal ip fp ex) = fl (- decimal_value ip fp (read_exponent ex))"
    using d(3) by (simp_all add: lit parse_float_def Let_def ts span(1) split decimal_value_def)
qed

lemma parse_float_signed:
  assumes "good_literal ip fp"
  shows "parse_float (literal ip fp e) = fl (literal_value ip fp e)"
    and "parse_float (CHR ''-'' # literal ip fp e) = fl (- literal_value ip fp e)"
proof -
  define ex where "ex = (case e of None \<Rightarrow> [] | Some i \<Rightarrow>
      CHR ''e'' # (if i < 0 then CHR ''-'' else CHR ''+'') # show_nat (nat \<bar>i\<bar>))"
  have lit: "literal ip fp e = decimal ip fp ex" by (simp add: literal_def decimal_def ex_def)
  have re: "read_exponent ex = (case e of None \<Rightarrow> 0 | Some i \<Rightarrow> i)"
    using read_exponent_literal by (auto simp: ex_def read_exponent_def split: option.split)
  have val: "literal_value ip fp e = decimal_value ip fp (read_exponent ex)"
    by (simp add: literal_value_def decimal_value_def re)
  have d: "digits ip" "digits fp" "ip \<noteq> []" using assms by (auto simp: good_literal_def)
  have "ex = [] \<or> \<not> is_digit (hd ex) \<and> hd ex \<noteq> CHR ''.''" by (auto simp: ex_def split: option.split)
  from parse_float_decimal [OF d this] show "parse_float (literal ip fp e) = fl (literal_value ip fp e)"
    "parse_float (CHR ''-'' # literal ip fp e) = fl (- literal_value ip fp e)"
    by (simp_all only: lit val)
qed

section \<open>The layouts\<close>

lemma nat_of_digits_append: "nat_of_digits (a @ b) = nat_of_digits a * 10 ^ length b + nat_of_digits b"
proof (induction b rule: rev_induct)
  case Nil
  show ?case by (simp add: nat_of_digits_def)
next
  case (snoc c b)
  then show ?case by (simp add: nat_of_digits_snoc algebra_simps flip: append_assoc)
qed

lemma nat_of_digits_zeros [simp]: "nat_of_digits (replicate j CHR ''0'') = 0"
  by (induction j) (simp_all add: nat_of_digits_def digit_val_def)

lemma length_show_nat: "10 ^ k \<le> n \<Longrightarrow> n < 10 ^ Suc k \<Longrightarrow> length (show_nat n) = Suc k"
proof (induction k arbitrary: n)
  case 0
  then show ?case by (simp add: show_nat.simps [of n])
next
  case (Suc k)
  then have "length (show_nat (n div 10)) = Suc k" by (intro Suc.IH) auto
  moreover have "(10 :: nat) ^ Suc k \<ge> 10" by simp
  then have "\<not> n < 10" using Suc.prems(1) by linarith
  ultimately show ?case by (simp add: show_nat.simps [of n])
qed

lemma show_nat_head: "hd (show_nat n) = CHR ''0'' \<Longrightarrow> n = 0"
proof (induction n rule: show_nat.induct)
  case (1 n)
  show ?case
  proof (cases "n < 10")
    case True
    have z: "(of_char CHR ''0'' :: nat) = 48" by simp
    have "digit_char n = CHR ''0''" using "1.prems" True by (simp add: show_nat.simps [of n])
    then have "(of_char (digit_char n) :: nat) = 48" using z by simp
    then show ?thesis using True by (simp add: digit_char_def)
  next
    case False
    then have "n div 10 = 0" using 1 by (simp add: show_nat.simps [of n])
    then show ?thesis using False by (simp add: div_eq_0_iff)
  qed
qed

lemma digits_take: "digits s \<Longrightarrow> digits (take j s) \<and> digits (drop j s)"
  by (auto simp: digits_def dest: in_set_takeD in_set_dropD)

text \<open>The digits of a positive double, as a text.\<close>

lemma text_digits:
  assumes "is_double x" and "0 < x"
    and "shortest 17 x (dec_exp 700 x 1) 1 = (d, k)"
    and "(d', n) = (if d = 10 ^ k then (10 ^ (k - 1), dec_exp 700 x 1 + 1) else (d, dec_exp 700 x 1))"
    and "s = show_nat (nat d')"
  shows "1 \<le> k" and "length s = k" and "digits s" and "nat_of_digits s = nat d'" and "s \<noteq> []"
    and "hd s \<noteq> CHR ''0''" and "fl (of_nat (nat d') * pow10 (n - int k)) = Fin x"
proof -
  note dig = digits_of_double [OF assms(1-4)]
  show "1 \<le> k" by (rule dig(1))
  have "10 ^ (k - 1) \<le> nat d'" "nat d' < 10 ^ Suc (k - 1)"
    using dig by (simp_all add: le_nat_iff nat_less_iff)
  then show "length s = k" using length_show_nat [of "k - 1" "nat d'"] dig(1) by (simp add: assms(5))
  show "digits s" "nat_of_digits s = nat d'" "s \<noteq> []" by (simp_all add: assms(5))
  have "nat d' \<noteq> 0" using dig(3) by (metis nat_0_iff not_le one_le_power power_le_zero_eq zero_less_one zero_less_numeral zero_less_power order_less_le_trans)
  then show "hd s \<noteq> CHR ''0''" using show_nat_head [of "nat d'"] by (auto simp: assms(5))
  have "0 \<le> d'" using dig(3) by (meson order_trans zero_le_numeral zero_le_power)
  then show "fl (of_nat (nat d') * pow10 (n - int k)) = Fin x" using dig(2) by simp
qed

text \<open>A positive double: its digits, and for each layout the same value.\<close>

lemma pos_text_literal:
  assumes "is_double x" and "0 < x"
  shows "\<exists>ip fp e. pos_text x = literal ip fp e \<and> good_literal ip fp \<and> fl (literal_value ip fp e) = Fin x"
proof -
  obtain d k where dk: "shortest 17 x (dec_exp 700 x 1) 1 = (d, k)" by fastforce
  obtain d' n where dn: "(d', n) = (if d = 10 ^ k then (10 ^ (k - 1), dec_exp 700 x 1 + 1) else (d, dec_exp 700 x 1))"
    by (metis surj_pair)
  define s where "s = show_nat (nat d')"
  note dig = text_digits [OF assms dk dn s_def]
  note len = dig(2) and s = dig(3-5) and hd = dig(6) and val = dig(7)
  define e where "e = n - 1"
  have pt: "pos_text x =
      (if int k \<le> n \<and> n \<le> 21 then s @ replicate (nat n - k) CHR ''0''
       else if 0 < n \<and> n \<le> 21 then take (nat n) s @ ''.'' @ drop (nat n) s
       else if - 6 < n \<and> n \<le> 0 then ''0.'' @ replicate (nat (- n)) CHR ''0'' @ s
       else (take 1 s @ (if k = 1 then [] else CHR ''.'' # drop 1 s)) @ ''e'' @
         (if e < 0 then ''-'' else ''+'') @ show_nat (nat \<bar>e\<bar>))"
    by (simp only: pos_text_def Let_def dk prod.case dn [symmetric] s_def e_def)
  consider (whole) "int k \<le> n" "n \<le> 21" | (point) "n < int k" "0 < n" "n \<le> 21"
    | (small) "- 6 < n" "n \<le> 0" | (exp) "\<not> (0 < n \<and> n \<le> 21)" "\<not> (- 6 < n \<and> n \<le> 0)"
    using dig(1) by linarith
  then show ?thesis
  proof cases
    case whole
    have p: "pow10 (n - int k) = 10 ^ (nat n - k)"
      using whole(1) dig(1) by (simp add: pow10_def nat_diff_distrib)
    have "pow10 0 = 1" by (simp add: pow10_def)
    then have "fl (literal_value (s @ replicate (nat n - k) CHR ''0'') [] None) = Fin x"
      using val by (simp add: literal_value_def nat_of_digits_append s(2) p)
    moreover have "good_literal (s @ replicate (nat n - k) CHR ''0'') []" using s hd by (simp add: good_literal_def)
    moreover have "pos_text x = literal (s @ replicate (nat n - k) CHR ''0'') [] None"
      using whole by (simp add: pt literal_def)
    ultimately show ?thesis by blast
  next
    case point
    let ?i = "take (nat n) s" and ?f = "drop (nat n) s"
    have ne: "?f \<noteq> []" "?i \<noteq> []" using point len s(3) by simp_all
    have "fl (literal_value ?i ?f None) = Fin x"
      using val point by (simp add: literal_value_def s(2) len of_nat_diff)
    moreover have "good_literal ?i ?f" using digits_take [OF s(1)] ne hd point s(3) by (simp add: good_literal_def)
    moreover have "pos_text x = literal ?i ?f None" using point ne by (simp add: pt literal_def)
    ultimately show ?thesis by blast
  next
    case small
    let ?f = "replicate (nat (- n)) CHR ''0'' @ s"
    have "nat_of_digits (''0'' @ ?f) = nat d'"
      using nat_of_digits_zeros [of 1] by (simp only: nat_of_digits_append nat_of_digits_zeros s(2)) (simp add: nat_of_digits_def digit_val_def)
    then have "fl (literal_value ''0'' ?f None) = Fin x"
      using val small by (simp add: literal_value_def len)
    moreover have "good_literal ''0'' ?f" using s(1) digits_simps(4) [of 1] by (simp add: good_literal_def)
    moreover have "pos_text x = literal ''0'' ?f None" using small dig(1) s(3) by (simp add: pt literal_def)
    ultimately show ?thesis by blast
  next
    case exp
    let ?i = "take 1 s" and ?f = "drop 1 s"
    have "nat_of_digits (?i @ ?f) = nat d'" using s(2) by (simp only: append_take_drop_id)
    moreover have "e - int (length ?f) = n - int k" using dig(1) len by (simp add: e_def of_nat_diff)
    ultimately have "fl (literal_value ?i ?f (Some e)) = Fin x" using val by (simp only: literal_value_def option.case)
    moreover have "good_literal ?i ?f" using s(1,3) hd by (cases s) (simp_all add: good_literal_def)
    moreover have "pos_text x = literal ?i ?f (Some e)"
      using exp dig(1) len by (auto simp: pt literal_def)
    ultimately show ?thesis by blast
  qed
qed

section \<open>Any double\<close>

text \<open>Whole numbers print in full; the sign is put in front.\<close>

definition text_of :: "number \<Rightarrow> bool \<Rightarrow> string \<Rightarrow> string \<Rightarrow> int option \<Rightarrow> bool" where
  "text_of n neg ip fp e \<longleftrightarrow>
     num_text n = (if neg then CHR ''-'' # literal ip fp e else literal ip fp e) \<and> good_literal ip fp \<and>
     fl (if neg then - literal_value ip fp e else literal_value ip fp e) = n"

lemma num_text_literal:
  assumes "is_double x"
  shows "\<exists>neg ip fp e. text_of (Fin x) neg ip fp e"
proof (cases "x = of_int \<lfloor>x\<rfloor> \<and> \<bar>x\<bar> \<le> 2 ^ 53")
  case True
  define i where "i = \<lfloor>x\<rfloor>"
  have x: "x = of_int i" "num_text (Fin x) = show_int i" using True by (simp_all add: i_def)
  have sg: "literal_value (show_nat m) [] None = of_nat m" "literal (show_nat m) [] None = show_nat m"
    "good_literal (show_nat m) []" for m
    using show_nat_head [of m] by (auto simp: literal_value_def literal_def good_literal_def pow10_def show_nat.simps [of 0])
  have "text_of (Fin x) (i < 0) (show_nat (nat \<bar>i\<bar>)) [] None"
    using assms by (simp add: text_of_def x(2) sg show_int_def is_double_def del: num_text.simps) (simp add: x(1))
  then show ?thesis by blast
next
  case False
  have neg: "is_double (- x)" using assms by (simp add: is_double_def fl_neg)
  have "x \<noteq> 0" using False by auto
  then consider "0 < x" | "0 < - x" by linarith
  then show ?thesis
  proof cases
    case 1
    then obtain ip fp e where "pos_text x = literal ip fp e" "good_literal ip fp" "fl (literal_value ip fp e) = Fin x"
      using pos_text_literal [OF assms] by blast
    moreover have "num_text (Fin x) = pos_text x" using False 1 by auto
    ultimately have "text_of (Fin x) False ip fp e" by (simp only: text_of_def if_False simp_thms)
    then show ?thesis by blast
  next
    case 2
    then obtain ip fp e where "pos_text (- x) = literal ip fp e" "good_literal ip fp" "fl (literal_value ip fp e) = Fin (- x)"
      using pos_text_literal [OF neg] by blast
    moreover have "num_text (Fin x) = CHR ''-'' # pos_text (- x)" using False 2 by auto
    ultimately have "text_of (Fin x) True ip fp e"
      by (simp only: text_of_def if_True simp_thms fl_neg js_neg.simps minus_minus)
    then show ?thesis by blast
  qed
qed

text \<open>Rounding gives doubles.\<close>

lemma pow2_double: "- 1074 \<le> e \<Longrightarrow> fl_pos (pow2 e) = pow2 e"
proof -
  assume e: "- 1074 \<le> e"
  have "pow2 (expo (pow2 e)) \<le> pow2 e" using expo_bounds(1) [of "pow2 e"] by simp
  then have "expo (pow2 e) \<le> e" using pow2_mono [of "e + 1" "expo (pow2 e)"] pow2_add [of e 1]
      pow2_pos [of e] by (cases "expo (pow2 e) \<le> e") (auto simp: pow2_def [of 1] not_le)
  then have "ulp_exp (pow2 e) \<le> e" using e by (simp add: ulp_exp_def)
  from pow2_multiple [OF this] show ?thesis by (rule fl_pos_exact)
qed

lemma fl_pos_idem:
  assumes "0 < x" and "0 < fl_pos x"
  shows "fl_pos (fl_pos x) = fl_pos x"
proof -
  let ?u = "ulp_exp x"
  define K where "K = rne (x / pow2 ?u)"
  have y: "fl_pos x = of_int K * pow2 ?u" by (simp add: fl_pos_def K_def)
  have u: "- 1074 \<le> ?u" by (simp add: ulp_exp_def)
  have "pow2 (expo x + 1) \<le> 2 ^ 53 * pow2 ?u"
    using pow2_mono [of "expo x - 52" ?u] by (simp add: pow2_52 ulp_exp_def)
  then have "x < 2 ^ 53 * pow2 ?u" using expo_bounds(2) [OF assms(1)] by linarith
  then have "x / pow2 ?u \<le> of_int (2 ^ 53)" by (simp add: pos_divide_le_eq)
  then have K: "K \<le> 2 ^ 53" using rne_mono [of "x / pow2 ?u" "of_int (2 ^ 53)"] by (simp only: K_def rne_of_int)
  have "0 < (of_int K :: rat)" by (rule zero_less_mult_pos2 [of _ "pow2 ?u"]) (use assms(2) y in simp_all)
  then have K1: "0 < K" by simp
  show ?thesis
  proof (cases "K = 2 ^ 53")
    case True
    then have "fl_pos x = pow2 (53 + ?u)" unfolding y by (simp add: True pow2_add pow2_def [of 53])
    then show ?thesis using pow2_double u by simp
  next
    case False
    then have "of_int K < (of_int (2 ^ 53) :: rat)" using K by (simp only: of_int_less_iff)
    then have "fl_pos x < pow2 (53 + ?u)" unfolding y by (simp add: pow2_add pow2_def [of 53])
    then have "pow2 (expo (fl_pos x)) < pow2 (53 + ?u)" using expo_bounds(1) [OF assms(2)] by linarith
    then have "expo (fl_pos x) < 53 + ?u" using pow2_mono [of "53 + ?u" "expo (fl_pos x)"] by (meson linorder_not_le)
    then have "ulp_exp (fl_pos x) \<le> ?u" using u by (simp add: ulp_exp_def)
    from pow2_multiple [OF this] have "fl_pos x = of_int (K * 2 ^ nat (?u - ulp_exp (fl_pos x))) * pow2 (ulp_exp (fl_pos x))"
      using y by simp
    then show ?thesis by (rule fl_pos_exact)
  qed
qed

lemma fl_pos_double:
  assumes "0 < x" and "fl_pos x < 2 ^ 1024"
  shows "is_double (fl_pos x)"
proof (cases "fl_pos x = 0")
  case False
  then have p: "0 < fl_pos x" using fl_pos_nonneg [of x] assms(1) by simp
  show ?thesis using p assms(2) fl_pos_idem [OF assms(1) p] by (simp add: is_double_def fl_def Let_def)
qed (simp add: is_double_def)

lemma fl_double: "fl q = Fin y \<Longrightarrow> is_double y"
proof -
  assume a: "fl q = Fin y"
  have neg: "is_double z \<Longrightarrow> is_double (- z)" for z by (simp add: is_double_def fl_neg)
  consider "q = 0" | "0 < q" | "0 < - q" by linarith
  then show ?thesis
  proof cases
    case 1
    then show ?thesis using a by (auto simp: is_double_def)
  next
    case 2
    then have "y = fl_pos q" "fl_pos q < 2 ^ 1024" using a by (auto simp: fl_def Let_def split: if_splits)
    then show ?thesis using fl_pos_double [OF 2] by simp
  next
    case 3
    then have "y = - fl_pos (- q)" "fl_pos (- q) < 2 ^ 1024" using a by (auto simp: fl_def Let_def split: if_splits)
    then show ?thesis using neg [OF fl_pos_double [OF 3]] by simp
  qed
qed

text \<open>A finite number of the program.\<close>

definition double_number :: "number \<Rightarrow> bool" where
  "double_number n \<longleftrightarrow> (case n of Fin x \<Rightarrow> is_double x | _ \<Rightarrow> False)"

lemma double_number_fl: "0 \<le> q \<Longrightarrow> q \<le> of_nat n \<Longrightarrow> n \<le> 2 ^ 53 \<Longrightarrow> double_number (fl q)"
  using b64.bounded [of q n] fl_double [of q] by (auto simp: double_number_def)

lemma double_number_nat: "n \<le> 2 ^ 53 \<Longrightarrow> double_number (Fin (of_nat n))"
  by (simp add: double_number_def is_double_def)

lemma double_number_numeral: "numeral k \<le> (2 :: nat) ^ 53 \<Longrightarrow> double_number (Fin (numeral k))"
  using double_number_nat [of "numeral k"] by simp

lemma double_number_small [simp]: "double_number (Fin 0)" "double_number (Fin 1)"
  using double_number_nat [of 0] double_number_nat [of 1] by simp_all

section \<open>Properties\<close>

text \<open>
  The text of a number reads back. For every double the text a template literal gives it is read
  by \<^verbatim>\<open>parseFloat\<close> as that double.
\<close>

theorem number_text_reads_back:
  assumes "is_double x"
  shows "parse_float (num_text (Fin x)) = Fin x"
proof -
  obtain neg ip fp e where "text_of (Fin x) neg ip fp e" using num_text_literal [OF assms] by blast
  then show ?thesis using parse_float_signed [of ip fp e] by (cases neg) (simp_all add: text_of_def)
qed

lemma double_text_reads_back: "double_number v \<Longrightarrow> parse_float (num_text v) = v"
  using number_text_reads_back by (cases v) (simp_all add: double_number_def)

text \<open>The characters of such a text: digits, a point, an exponent mark and signs.\<close>

lemma literal_chars:
  assumes "good_literal ip fp" and "c \<in> set (literal ip fp e)"
  shows "is_digit c \<or> c \<in> set ''.e+-''"
  using assms show_nat_digits by (auto simp: literal_def good_literal_def digits_def split: option.splits if_splits)

lemma double_text_chars:
  assumes "double_number v"
  shows "num_text v \<noteq> []" and "c \<in> set (num_text v) \<Longrightarrow> is_digit c \<or> c \<in> set ''.e+-''"
proof -
  obtain x where x: "v = Fin x" "is_double x" using assms by (cases v) (simp_all add: double_number_def)
  obtain neg ip fp e where t: "text_of v neg ip fp e" using num_text_literal [OF x(2)] x(1) by blast
  then show "num_text v \<noteq> []" by (auto simp: text_of_def good_literal_def literal_def split: if_splits)
  show "is_digit c \<or> c \<in> set ''.e+-''" if "c \<in> set (num_text v)"
    using that t literal_chars [of ip fp c e] by (auto simp: text_of_def split: if_splits)
qed

lemma eighth_double: "is_double (of_nat k / 8)" if "k < 2 ^ 53"
  using fl_eighth [OF that] by (simp add: is_double_def)

lemma double_number_eighths: "numeral k < (2 :: nat) ^ 53 \<Longrightarrow> double_number (Fin (numeral k / 8))"
  using eighth_double [of "numeral k"] by (simp add: double_number_def)

theorem number_text_reads_back_witness:
  "parse_float (num_text (Fin (- 5 / 8))) = Fin (- 5 / 8)"
proof -
  have "is_double (- 5 / 8)" using fl_neg [of "5 / 8"] fl_eighth [of 5] by (simp add: is_double_def)
  then show ?thesis by (rule number_text_reads_back)
qed

end
