(* ===== verification/Json.thy ===== *)
theory Json
  imports NumText
begin

text \<open>
  \<^verbatim>\<open>JSON.parse\<close> and \<^verbatim>\<open>JSON.stringify(value, null, 2)\<close>, which the pages use for plans given as text
  (\<^verbatim>\<open>pages/NewPlan.tsx\<close>, \<^verbatim>\<open>pages/DriftScanPage.tsx\<close>), for the token's payload (\<^verbatim>\<open>App.tsx\<close>) and to show
  a plan. As everywhere a character is a code unit below 256; an escape for a larger one is not
  covered and reads as a syntax error. The reader takes fuel, one unit per value or list position;
  more fuel than characters is always enough and never changes the answer.
\<close>

section \<open>Values\<close>

text \<open>An object is the list of its members in the order of creation, keys distinct.\<close>

datatype json =
    JNull
  | JBool bool
  | JNum number
  | JStr string
  | JArr "json list"
  | JObj "(string \<times> json) list"

section \<open>Reading\<close>

definition json_ws :: "char \<Rightarrow> bool" where
  "json_ws c \<longleftrightarrow> c \<in> {CHR 0x20, CHR 0x09, CHR 0x0A, CHR 0x0D}"

definition skip :: "string \<Rightarrow> string" where
  "skip s = dropWhile json_ws s"

fun hex4 :: "char \<Rightarrow> char \<Rightarrow> char \<Rightarrow> char \<Rightarrow> char option" where
  "hex4 a b c d =
     (case (hex_val a, hex_val b, hex_val c, hex_val d) of
        (Some p, Some q, Some m, Some n) \<Rightarrow>
          (let v = ((p * 16 + q) * 16 + m) * 16 + n in if v < 256 then Some (char_of v) else None)
      | _ \<Rightarrow> None)"

definition escapes :: "(char \<times> char) list" where
  "escapes =
     [(CHR 0x22, CHR 0x22), (CHR 0x5C, CHR 0x5C), (CHR ''/'', CHR ''/''), (CHR ''b'', CHR 0x08),
      (CHR ''f'', CHR 0x0C), (CHR ''n'', CHR 0x0A), (CHR ''r'', CHR 0x0D), (CHR ''t'', CHR 0x09)]"

definition put_char :: "char \<Rightarrow> (string \<times> 'a) option \<Rightarrow> (string \<times> 'a) option" where
  "put_char c r = map_option (\<lambda>(w, s). (c # w, s)) r"

text \<open>The rest of a string after its opening quote.\<close>

fun read_string :: "string \<Rightarrow> (string \<times> string) option" where
  "read_string [] = None"
| "read_string (c # cs) =
     (if c = CHR 0x22 then Some ([], cs)
      else if (of_char c :: nat) < 32 then None
      else if c = CHR 0x5C then
        (case cs of
           [] \<Rightarrow> None
         | e # r \<Rightarrow>
             if e = CHR ''u'' then
               (case r of
                  h1 # h2 # h3 # h4 # t \<Rightarrow>
                    (case hex4 h1 h2 h3 h4 of Some d \<Rightarrow> put_char d (read_string t) | None \<Rightarrow> None)
                | _ \<Rightarrow> None)
             else (case map_of escapes e of Some d \<Rightarrow> put_char d (read_string r) | None \<Rightarrow> None))
      else put_char c (read_string cs))"

text \<open>
  A number: minus, whole part without leading zero, fraction, exponent. The digits after a point or
  an exponent sign are mandatory.
\<close>

definition read_frac :: "string \<Rightarrow> (string \<times> string) option" where
  "read_frac s =
     (case s of
        c # cs \<Rightarrow>
          if c = CHR ''.'' then
            (if takeWhile is_digit cs = [] then None
             else Some (c # takeWhile is_digit cs, dropWhile is_digit cs))
          else Some ([], s)
      | [] \<Rightarrow> Some ([], []))"

definition exp_sign :: "string \<Rightarrow> string \<times> string" where
  "exp_sign s = (case s of c # cs \<Rightarrow> if c = CHR ''+'' \<or> c = CHR ''-'' then ([c], cs) else ([], s) | [] \<Rightarrow> ([], []))"

definition read_exp :: "string \<Rightarrow> (string \<times> string) option" where
  "read_exp s =
     (case s of
        c # cs \<Rightarrow>
          if c = CHR ''e'' \<or> c = CHR ''E'' then
            (let (sg, ds) = exp_sign cs
             in if takeWhile is_digit ds = [] then None
                else Some (c # sg @ takeWhile is_digit ds, dropWhile is_digit ds))
          else Some ([], s)
      | [] \<Rightarrow> Some ([], []))"

definition read_unsigned :: "string \<Rightarrow> (string \<times> string) option" where
  "read_unsigned s =
     (let ds = takeWhile is_digit s
      in if ds = [] \<or> hd ds = CHR ''0'' \<and> length ds > 1 then None
         else case read_frac (dropWhile is_digit s) of
             None \<Rightarrow> None
           | Some (f, s1) \<Rightarrow>
               (case read_exp s1 of None \<Rightarrow> None | Some (e, s2) \<Rightarrow> Some (ds @ f @ e, s2)))"

definition read_number :: "string \<Rightarrow> (number \<times> string) option" where
  "read_number s =
     (case s of
        c # cs \<Rightarrow>
          if c = CHR ''-'' then map_option (\<lambda>(l, r). (parse_float (c # l), r)) (read_unsigned cs)
          else map_option (\<lambda>(l, r). (parse_float l, r)) (read_unsigned s)
      | [] \<Rightarrow> None)"

definition read_word :: "string \<Rightarrow> json \<Rightarrow> string \<Rightarrow> (json \<times> string) option" where
  "read_word w v s = (if starts_with w s then Some (v, drop (length w) s) else None)"

text \<open>
  A value, the elements of an array after the first bracket or comma, and the members of an object
  after the first brace or comma. A repeated key overwrites the value of the first one in place.
\<close>

fun read_value :: "nat \<Rightarrow> string \<Rightarrow> (json \<times> string) option"
  and read_elements :: "nat \<Rightarrow> string \<Rightarrow> (json list \<times> string) option"
  and read_members :: "nat \<Rightarrow> (string \<times> json) list \<Rightarrow> string \<Rightarrow> ((string \<times> json) list \<times> string) option" where
  "read_value 0 s = None"
| "read_value (Suc f) s =
     (case skip s of
        [] \<Rightarrow> None
      | c # cs \<Rightarrow>
          if c = CHR ''{'' then
            (if starts_with ''}'' (skip cs) then Some (JObj [], tl (skip cs))
             else map_option (\<lambda>(m, r). (JObj m, r)) (read_members f [] cs))
          else if c = CHR ''['' then
            (if starts_with '']'' (skip cs) then Some (JArr [], tl (skip cs))
             else map_option (\<lambda>(vs, r). (JArr vs, r)) (read_elements f cs))
          else if c = CHR 0x22 then map_option (\<lambda>(w, r). (JStr w, r)) (read_string cs)
          else if c = CHR ''t'' then read_word ''true'' (JBool True) (c # cs)
          else if c = CHR ''f'' then read_word ''false'' (JBool False) (c # cs)
          else if c = CHR ''n'' then read_word ''null'' JNull (c # cs)
          else map_option (\<lambda>(n, r). (JNum n, r)) (read_number (c # cs)))"
| "read_elements 0 s = None"
| "read_elements (Suc f) s =
     (case read_value f s of
        None \<Rightarrow> None
      | Some (v, r) \<Rightarrow>
          (case skip r of
             [] \<Rightarrow> None
           | c # cs \<Rightarrow>
               if c = CHR '','' then map_option (\<lambda>(vs, t). (v # vs, t)) (read_elements f cs)
               else if c = CHR '']'' then Some ([v], cs)
               else None))"
| "read_members 0 m s = None"
| "read_members (Suc f) m s =
     (case skip s of
        [] \<Rightarrow> None
      | q # qs \<Rightarrow>
          if q \<noteq> CHR 0x22 then None
          else case read_string qs of
            None \<Rightarrow> None
          | Some (k, r) \<Rightarrow>
              (case skip r of
                 [] \<Rightarrow> None
               | d # ds \<Rightarrow>
                   if d \<noteq> CHR '':'' then None
                   else case read_value f ds of
                     None \<Rightarrow> None
                   | Some (v, t) \<Rightarrow>
                       (case skip t of
                          [] \<Rightarrow> None
                        | c # cs \<Rightarrow>
                            if c = CHR '','' then read_members f (om_set k v m) cs
                            else if c = CHR ''}'' then Some (om_set k v m, cs)
                            else None)))"

text \<open>The whole text is one value with white space around it.\<close>

definition json_read :: "string \<Rightarrow> json option" where
  "json_read s =
     (case read_value (2 * length s + 1) s of
        Some (v, r) \<Rightarrow> if skip r = [] then Some v else None
      | None \<Rightarrow> None)"

text \<open>The message of the \<^verbatim>\<open>SyntaxError\<close> is the browser's: a parameter.\<close>

definition json_parse :: "(string \<Rightarrow> string) \<Rightarrow> string \<Rightarrow> json result" where
  "json_parse msg s = (case json_read s of Some v \<Rightarrow> Inr v | None \<Rightarrow> Inl (msg s))"

section \<open>Writing\<close>

definition hex_low :: "nat \<Rightarrow> char" where
  "hex_low d = (if d < 10 then char_of (48 + d) else char_of (87 + d))"

definition quote_char :: "char \<Rightarrow> string" where
  "quote_char c =
     (let n = (of_char c :: nat)
      in if c = CHR 0x22 \<or> c = CHR 0x5C then [CHR 0x5C, c]
         else if n = 8 then [CHR 0x5C, CHR ''b''] else if n = 9 then [CHR 0x5C, CHR ''t'']
         else if n = 10 then [CHR 0x5C, CHR ''n''] else if n = 12 then [CHR 0x5C, CHR ''f'']
         else if n = 13 then [CHR 0x5C, CHR ''r'']
         else if n < 32 then CHR 0x5C # ''u00'' @ [hex_low (n div 16), hex_low (n mod 16)]
         else [c])"

definition quote :: "string \<Rightarrow> string" where
  "quote s = CHR 0x22 # concat (map quote_char s) @ [CHR 0x22]"

fun number_json :: "number \<Rightarrow> string" where
  "number_json (Fin x) = num_text (Fin x)"
| "number_json n = ''null''"

definition indent :: "nat \<Rightarrow> string" where
  "indent i = CHR 0x0A # replicate i CHR '' ''"

text \<open>Members are written in the order of \<^verbatim>\<open>Object.keys\<close>.\<close>

fun write_at :: "nat \<Rightarrow> json \<Rightarrow> string" where
  "write_at i JNull = ''null''"
| "write_at i (JBool b) = (if b then ''true'' else ''false'')"
| "write_at i (JNum n) = number_json n"
| "write_at i (JStr s) = quote s"
| "write_at i (JArr vs) =
     (if vs = [] then ''[]''
      else CHR ''['' # join '','' (map (\<lambda>v. indent (i + 2) @ write_at (i + 2) v) vs) @ indent i @ '']'')"
| "write_at i (JObj m) =
     (if m = [] then ''{}''
      else CHR ''{'' # join '','' (map (\<lambda>(k, t). indent (i + 2) @ quote k @ '': '' @ t)
          (obj_entries (map (\<lambda>(k, v). (k, write_at (i + 2) v)) m))) @ indent i @ ''}'')"

definition json_write :: "json \<Rightarrow> string" where
  "json_write v = write_at 0 v"

section \<open>The reader shortens the text, and enough fuel decides\<close>


lemma length_skip: "length (skip s) \<le> length s"
  by (simp add: skip_def length_dropWhile_le)

lemma skip_Cons: "skip s = c # cs \<Longrightarrow> length cs < length s"
  using length_skip [of s] by simp

lemma put_char_Some: "put_char c x = Some (w, r) \<longleftrightarrow> (\<exists>w'. x = Some (w', r) \<and> w = c # w')"
  by (auto simp: put_char_def)

lemma read_string_shorter: "read_string s = Some (w, r) \<Longrightarrow> length r < length s"
  by (induction s arbitrary: w r rule: read_string.induct)
    (fastforce simp: put_char_Some split: if_splits list.splits option.splits)+

lemma length_drop_digits: "length (dropWhile is_digit s) \<le> length s"
  by (rule length_dropWhile_le)

lemma read_frac_shorter: "read_frac s = Some (f, r) \<Longrightarrow> length r \<le> length s"
  using length_drop_digits by (fastforce simp: read_frac_def split: list.splits if_splits intro: le_SucI)

lemma read_exp_shorter: "read_exp s = Some (e, r) \<Longrightarrow> length r \<le> length s"
proof -
  assume a: "read_exp s = Some (e, r)"
  show ?thesis
  proof (cases s)
    case (Cons c cs)
    have "length (snd (exp_sign cs)) \<le> length cs" by (auto simp: exp_sign_def split: list.split)
    then have "length (dropWhile is_digit (snd (exp_sign cs))) \<le> length cs"
      using length_drop_digits order_trans by blast
    with a Cons show ?thesis
      by (cases "c = CHR ''e'' \<or> c = CHR ''E''") (auto simp: read_exp_def case_prod_beta Let_def split: if_splits)
  qed (use a in \<open>simp add: read_exp_def\<close>)
qed

lemma read_unsigned_shorter: "read_unsigned s = Some (l, r) \<Longrightarrow> length r < length s"
proof -
  assume a: "read_unsigned s = Some (l, r)"
  then have "takeWhile is_digit s \<noteq> []" by (auto simp: read_unsigned_def Let_def)
  then have "length (dropWhile is_digit s) < length s"
    by (cases s) (auto split: if_splits simp: length_drop_digits le_imp_less_Suc)
  moreover obtain f s1 e where "read_frac (dropWhile is_digit s) = Some (f, s1)" "read_exp s1 = Some (e, r)"
    using a by (auto simp: read_unsigned_def Let_def split: if_splits option.splits)
  ultimately show ?thesis using read_frac_shorter read_exp_shorter by fastforce
qed

lemma read_number_shorter: "read_number s = Some (n, r) \<Longrightarrow> length r < length s"
  by (auto simp: read_number_def split: list.splits if_splits dest!: read_unsigned_shorter)

lemma read_word_shorter: "w \<noteq> [] \<Longrightarrow> read_word w v s = Some (v', r) \<Longrightarrow> length r < length s"
  by (cases s) (auto simp: read_word_def starts_with_def split: if_splits)

lemma reads_shorter:
  "read_value f s = Some (v, r) \<Longrightarrow> length r < length s"
  "read_elements f s = Some (vs, r) \<Longrightarrow> length r < length s"
  "read_members f m s = Some (m', r) \<Longrightarrow> length r < length s"
proof (induction f s and f s and f m s arbitrary: v r and vs r and m' r
    rule: read_value_read_elements_read_members.induct)
  case (2 f s)
  obtain c cs where s: "skip s = c # cs" using "2.prems" by (auto split: list.splits)
  note l = skip_Cons [OF s]
  have t: "length (tl (skip cs)) \<le> length cs" using length_skip [of cs] by simp
  have close: "length (tl (skip cs)) < length s" using t l by simp
  consider (brace) "c = CHR ''{''" | (bracket) "c = CHR ''[''" | (quote) "c = CHR 0x22"
    | (t) "c = CHR ''t''" | (f) "c = CHR ''f''" | (n) "c = CHR ''n''"
    | (num) "c \<notin> {CHR ''{'', CHR ''['', CHR 0x22, CHR ''t'', CHR ''f'', CHR ''n''}" by blast
  then show ?case
  proof cases
    case brace
    show ?thesis
    proof (cases "starts_with ''}'' (skip cs)")
      case False
      then obtain m where "read_members f [] cs = Some (m, r)"
        using "2.prems" by (auto simp: s brace)
      with "2.IH"(1) [OF s brace False] l show ?thesis by fastforce
    qed (use "2.prems" close in \<open>simp add: s brace\<close>)
  next
    case bracket
    show ?thesis
    proof (cases "starts_with '']'' (skip cs)")
      case False
      then obtain m where "read_elements f cs = Some (m, r)"
        using "2.prems" by (auto simp: s bracket)
      with "2.IH"(2) [OF s _ bracket False] bracket l show ?thesis by fastforce
    qed (use "2.prems" close in \<open>simp add: s bracket\<close>)
  next
    case quote
    then obtain w where "read_string cs = Some (w, r)" using "2.prems" by (auto simp: s)
    then show ?thesis using read_string_shorter l by fastforce
  next
    case t
    then show ?thesis using "2.prems" l read_word_shorter [of "''true''"] by (fastforce simp: s)
  next
    case f
    then show ?thesis using "2.prems" l read_word_shorter [of "''false''"] by (fastforce simp: s)
  next
    case n
    then show ?thesis using "2.prems" l read_word_shorter [of "''null''"] by (fastforce simp: s)
  next
    case num
    then obtain x where "read_number (c # cs) = Some (x, r)" using "2.prems" by (auto simp: s)
    then show ?thesis using read_number_shorter l by fastforce
  qed
next
  case (4 f s)
  then show ?case
    using skip_Cons by (fastforce split: option.splits list.splits if_splits)
next
  case (6 f m s)
  obtain qs where q: "skip s = CHR 0x22 # qs"
    using "6.prems" by (simp split: list.splits if_splits)
  obtain k x where k: "read_string qs = Some (k, x)"
    using "6.prems" by (simp add: q split: option.splits prod.splits)
  obtain ds where d: "skip x = CHR '':'' # ds"
    using "6.prems" by (simp add: q k split: list.splits if_splits)
  obtain w t where v: "read_value f ds = Some (w, t)"
    using "6.prems" by (simp add: q k d split: option.splits prod.splits)
  obtain c cs where c: "skip t = c # cs"
    using "6.prems" by (simp add: q k d v split: list.splits)
  have lt: "length cs < length s"
    using skip_Cons [OF q] read_string_shorter [OF k] skip_Cons [OF d] skip_Cons [OF c]
      "6.IH"(1) [OF q _ k _ d _ v] by simp
  show ?case
  proof (cases "c = CHR '',''")
    case True
    then have "read_members f (om_set k w m) cs = Some (m', r)" using "6.prems" by (simp add: q k d v c)
    with "6.IH"(2) [OF q _ k _ d _ v _ c True] lt show ?thesis by fastforce
  next
    case False
    then show ?thesis using "6.prems" lt by (simp add: q k d v c split: if_splits)
  qed
qed auto

lemma fuel_enough:
  "2 * length s + 1 \<le> f \<Longrightarrow> 2 * length s + 1 \<le> f' \<Longrightarrow> read_value f s = read_value f' s"
  "2 * length s + 2 \<le> f \<Longrightarrow> 2 * length s + 2 \<le> f' \<Longrightarrow> read_elements f s = read_elements f' s"
  "2 * length s + 2 \<le> f \<Longrightarrow> 2 * length s + 2 \<le> f' \<Longrightarrow> read_members f m s = read_members f' m s"
proof (induction f s and f s and f m s arbitrary: f' and f' and f'
    rule: read_value_read_elements_read_members.induct)
  case (2 f s)
  obtain g where g: "f' = Suc g" using "2.prems"(2) by (cases f') auto
  show ?case
  proof (cases "skip s")
    case (Cons c cs)
    have "2 * length cs + 2 \<le> f" "2 * length cs + 2 \<le> g"
      using skip_Cons [OF Cons] "2.prems" g by simp_all
    note n = this
    consider (brace) "c = CHR ''{''" | (bracket) "c = CHR ''[''" | (other) "c \<noteq> CHR ''{''" "c \<noteq> CHR ''[''"
      by blast
    then show ?thesis
    proof cases
      case brace
      show ?thesis
      proof (cases "starts_with ''}'' (skip cs)")
        case False
        from "2.IH"(1) [OF Cons brace False n] show ?thesis by (simp add: g Cons brace)
      qed (simp add: g Cons brace)
    next
      case bracket
      show ?thesis
      proof (cases "starts_with '']'' (skip cs)")
        case False
        from "2.IH"(2) [OF Cons _ bracket False n] bracket show ?thesis by (simp add: g Cons)
      qed (simp add: g Cons bracket)
    qed (simp add: g Cons)
  qed (simp add: g)
next
  case (4 f s)
  obtain g where g: "f' = Suc g" using "4.prems"(2) by (cases f') auto
  have v: "read_value f s = read_value g s" using "4.prems" g by (intro "4.IH"(1)) simp_all
  show ?case
  proof (cases "read_value g s")
    case (Some vr)
    obtain v r where vr: "vr = (v, r)" by fastforce
    note some = Some [unfolded vr]
    show ?thesis
    proof (cases "skip r")
      case (Cons c cs)
      have "2 * length cs + 2 \<le> f" "2 * length cs + 2 \<le> g"
        using skip_Cons [OF Cons] reads_shorter(1) [OF some] "4.prems" g by simp_all
      then have "read_elements f cs = read_elements g cs" if "c = CHR '',''"
        using "4.IH"(2) [OF v [unfolded some] _ Cons that] by blast
      then show ?thesis by (simp add: g v some Cons)
    qed (simp add: g v some)
  qed (simp add: g v)
next
  case (6 f m s)
  obtain g where g: "f' = Suc g" using "6.prems"(2) by (cases f') auto
  have "read_members (Suc f) m s = read_members (Suc g) m s"
  proof (cases "\<exists>qs k x ds. skip s = CHR 0x22 # qs \<and> read_string qs = Some (k, x) \<and> skip x = CHR '':'' # ds")
    case True
    then obtain qs k x ds where q: "skip s = CHR 0x22 # qs" and k: "read_string qs = Some (k, x)"
      and d: "skip x = CHR '':'' # ds" by blast
    have l: "length ds < length s"
      using skip_Cons [OF q] read_string_shorter [OF k] skip_Cons [OF d] by simp
    have v: "read_value f ds = read_value g ds"
      using l "6.prems" g by (intro "6.IH"(1) [OF q _ k _ d]) simp_all
    show ?thesis
    proof (cases "read_value g ds")
      case (Some wt)
      obtain w t where wt: "wt = (w, t)" by fastforce
      note some = Some [unfolded wt]
      show ?thesis
      proof (cases "skip t")
        case (Cons c cs)
        have "2 * length cs + 2 \<le> f" "2 * length cs + 2 \<le> g"
          using skip_Cons [OF Cons] reads_shorter(1) [OF some] l "6.prems" g by simp_all
        then have "read_members f (om_set k w m) cs = read_members g (om_set k w m) cs" if "c = CHR '',''"
          using "6.IH"(2) [OF q _ k _ d _ v [unfolded some] _ Cons that] by blast
        then show ?thesis by (simp add: q k d v some Cons)
      qed (simp add: q k d v some)
    qed (simp add: q k d v)
  next
    case False
    then show ?thesis by (auto split: list.split option.split)
  qed
  then show ?case by (simp only: g)
qed simp_all

section \<open>Reading what was written\<close>

text \<open>
  Values with finite numbers, whose objects have distinct keys and none that is an array index (such
  keys are written first).
\<close>

fun plain_json :: "json \<Rightarrow> bool" where
  "plain_json (JNum n) = double_number n"
| "plain_json (JArr vs) = (\<forall>v \<in> set vs. plain_json v)"
| "plain_json (JObj m) = (om_ok m \<and> (\<forall>kv \<in> set m. array_index (fst kv) = None \<and> plain_json (snd kv)))"
| "plain_json _ = True"

lemma hex_val_low: "d < 16 \<Longrightarrow> hex_val (hex_low d) = Some d"
  by (simp add: hex_val_def hex_low_def)

lemma hex_roundtrip:
  "n < 32 \<Longrightarrow> hex4 CHR ''0'' CHR ''0'' (hex_low (n div 16)) (hex_low (n mod 16)) = Some (char_of n)"
proof -
  assume n: "n < 32"
  have z: "hex_val CHR ''0'' = Some 0" by (simp add: hex_val_def)
  have "hex_val (hex_low (n div 16)) = Some (n div 16)" "hex_val (hex_low (n mod 16)) = Some (n mod 16)"
    using n by (simp_all add: hex_val_low)
  then show ?thesis using n by (simp add: z)
qed

lemma char_eqI: "(of_char c :: nat) = of_char d \<Longrightarrow> c = d"
  by simp

lemma read_quote_char: "read_string (quote_char c @ t) = put_char c (read_string t)"
proof -
  let ?n = "of_char c :: nat"
  have c: "c = char_of ?n" by simp
  consider (q) "c = CHR 0x22 \<or> c = CHR 0x5C" | (named) "?n \<in> {8, 9, 10, 12, 13}"
    | (ctrl) "?n < 32" "?n \<notin> {8, 9, 10, 12, 13}"
    | (plain) "\<not> ?n < 32" "c \<noteq> CHR 0x22" "c \<noteq> CHR 0x5C" by blast
  then show ?thesis
  proof cases
    case q
    then show ?thesis by (auto simp: quote_char_def escapes_def)
  next
    case named
    then have "c \<in> {CHR 0x08, CHR 0x09, CHR 0x0A, CHR 0x0C, CHR 0x0D}"
      using char_eqI [of c "CHR 0x08"] char_eqI [of c "CHR 0x09"] char_eqI [of c "CHR 0x0A"]
        char_eqI [of c "CHR 0x0C"] char_eqI [of c "CHR 0x0D"] by auto
    then show ?thesis by (auto simp: quote_char_def escapes_def)
  next
    case ctrl
    have h: "hex4 CHR ''0'' CHR ''0'' (hex_low (?n div 16)) (hex_low (?n mod 16)) = Some c"
      using hex_roundtrip [OF ctrl(1)] by simp
    have "c \<noteq> CHR 0x22" "c \<noteq> CHR 0x5C" using ctrl(1) by auto
    then have "quote_char c = CHR 0x5C # ''u00'' @ [hex_low (?n div 16), hex_low (?n mod 16)]"
      using ctrl by (simp add: quote_char_def Let_def)
    then show ?thesis using h by (simp del: hex4.simps)
  next
    case plain
    then have "quote_char c = [c]" by (simp add: quote_char_def Let_def)
    with plain show ?thesis by simp
  qed
qed

lemma read_quoted: "read_string (concat (map quote_char s) @ CHR 0x22 # r) = Some (s, r)"
proof (induction s)
  case (Cons c s)
  then show ?case using read_quote_char [of c "concat (map quote_char s) @ CHR 0x22 # r"]
    by (simp add: put_char_def)
qed simp

text \<open>A text that does not go on with a number.\<close>

definition ends_number :: "string \<Rightarrow> bool" where
  "ends_number r \<longleftrightarrow> (case r of [] \<Rightarrow> True
     | c # _ \<Rightarrow> \<not> is_digit c \<and> c \<noteq> CHR ''.'' \<and> c \<noteq> CHR ''e'' \<and> c \<noteq> CHR ''E'')"

lemma ends_number_cases:
  assumes "ends_number r"
  shows "r = [] \<or> \<not> is_digit (hd r)" and "read_frac r = Some ([], r)" and "read_exp r = Some ([], r)"
  using assms by (cases r; simp add: ends_number_def read_frac_def read_exp_def)+

lemma read_exp_literal:
  assumes "ends_number r"
    and "ex = (case e of None \<Rightarrow> [] | Some i \<Rightarrow>
      CHR ''e'' # (if i < 0 then CHR ''-'' else CHR ''+'') # show_nat (nat \<bar>i\<bar>))"
  shows "read_exp (ex @ r) = Some (ex, r)" and "ex @ r = [] \<or> \<not> is_digit (hd (ex @ r)) \<and> hd (ex @ r) \<noteq> CHR ''.''"
proof -
  have "takeWhile is_digit (show_nat m @ r) = show_nat m \<and> dropWhile is_digit (show_nat m @ r) = r" for m
    by (rule digits_span [OF _ ends_number_cases(1) [OF assms(1)]]) simp
  then show "read_exp (ex @ r) = Some (ex, r)"
    using ends_number_cases(3) [OF assms(1)]
    by (cases e) (simp_all add: assms(2) read_exp_def exp_sign_def Let_def)
  show "ex @ r = [] \<or> \<not> is_digit (hd (ex @ r)) \<and> hd (ex @ r) \<noteq> CHR ''.''"
    using assms(1) by (cases e; cases r) (auto simp: assms(2) ends_number_def)
qed

lemma read_unsigned_literal:
  assumes "good_literal ip fp" and "ends_number r"
  shows "read_unsigned (literal ip fp e @ r) = Some (literal ip fp e, r)"
proof -
  define ex where "ex = (case e of None \<Rightarrow> [] | Some i \<Rightarrow>
      CHR ''e'' # (if i < 0 then CHR ''-'' else CHR ''+'') # show_nat (nat \<bar>i\<bar>))"
  note ex = read_exp_literal [OF assms(2) ex_def]
  have d: "digits ip" "digits fp" "ip \<noteq> []" "\<not> (hd ip = CHR ''0'' \<and> length ip > 1)"
    using assms(1) by (auto simp: good_literal_def)
  let ?f = "if fp = [] then [] else CHR ''.'' # fp"
  have lit: "literal ip fp e @ r = ip @ ?f @ ex @ r" "literal ip fp e = ip @ ?f @ ex"
    by (simp_all add: literal_def ex_def)
  have "?f @ ex @ r = [] \<or> \<not> is_digit (hd (?f @ ex @ r))" using ex(2) by auto
  note ip = digits_span [OF d(1) this]
  have "ex @ r = [] \<or> \<not> is_digit (hd (ex @ r))" using ex(2) by auto
  note fp = digits_span [OF d(2) this]
  have frac: "read_frac (?f @ ex @ r) = Some (?f, ex @ r)"
  proof (cases "fp = []")
    case True
    then show ?thesis using ex(2) by (cases "ex @ r") (auto simp: read_frac_def)
  qed (use fp in \<open>simp add: read_frac_def\<close>)
  define f T where "f = ?f" and "T = ?f @ ex @ r"
  have "read_unsigned (ip @ T) = Some (ip @ f @ ex, r)"
    using ip [folded T_def] frac [folded T_def f_def] d(3,4) ex(1) by (simp add: read_unsigned_def Let_def)
  then show ?thesis by (simp only: lit append_assoc f_def T_def)
qed

lemma literal_head: "good_literal ip fp \<Longrightarrow> \<exists>c cs. literal ip fp e = c # cs \<and> is_digit c"
  by (cases ip) (simp_all add: good_literal_def literal_def)

lemma read_number_text:
  assumes "ends_number r" and "is_double x"
  shows "read_number (num_text (Fin x) @ r) = Some (Fin x, r)"
proof -
  obtain neg ip fp e where t: "text_of (Fin x) neg ip fp e" using num_text_literal [OF assms(2)] by blast
  then have g: "good_literal ip fp" by (simp add: text_of_def)
  obtain c cs where c: "literal ip fp e = c # cs" "is_digit c" using literal_head [OF g] by blast
  note u = read_unsigned_literal [OF g assms(1), of e]
  have "num_text (Fin x) = (if neg then CHR ''-'' # literal ip fp e else literal ip fp e)"
    using t by (simp only: text_of_def)
  moreover have "read_number (CHR ''-'' # literal ip fp e @ r) = Some (fl (- literal_value ip fp e), r)"
    by (simp add: read_number_def u parse_float_signed [OF g])
  moreover have "read_number (literal ip fp e @ r) = Some (fl (literal_value ip fp e), r)"
    using u is_digit_not [OF c(2)] by (simp add: read_number_def parse_float_signed [OF g] c(1))
       (simp add: parse_float_signed [OF g] flip: c(1))
  ultimately show ?thesis using t by (cases neg) (simp_all add: text_of_def del: num_text.simps)
qed

lemma num_text_head:
  assumes "is_double x"
  obtains c cs where "num_text (Fin x) = c # cs" "is_digit c \<or> c = CHR ''-''"
proof -
  obtain neg ip fp e where t: "text_of (Fin x) neg ip fp e" using num_text_literal [OF assms] by blast
  then have "\<exists>c cs. literal ip fp e = c # cs \<and> is_digit c" by (intro literal_head) (simp add: text_of_def)
  then show ?thesis using t that by (cases neg) (auto simp: text_of_def simp del: num_text.simps)
qed

definition reads :: "json \<Rightarrow> string \<Rightarrow> string \<Rightarrow> bool" where
  "reads v s r \<longleftrightarrow> (\<exists>f0. \<forall>f \<ge> f0. read_value f s = Some (v, r))"

lemma readsI: "(\<And>f. f0 \<le> f \<Longrightarrow> read_value (Suc f) s = Some (v, r)) \<Longrightarrow> reads v s r"
  unfolding reads_def by (metis Suc_le_D Suc_le_mono)

lemma all_Suc_le: "(\<forall>f \<ge> Suc n. P f) \<longleftrightarrow> (\<forall>f \<ge> n. P (Suc f))"
  by (metis Suc_le_D Suc_le_mono)

lemma om_set_fresh: "k \<notin> fst ` set m \<Longrightarrow> om_set k v m = m @ [(k, v)]"
  by (induction m) auto

lemma read_value_skip: "skip s = skip t \<Longrightarrow> read_value f s = read_value f t"
  by (cases f) simp_all

lemma skip_indent [simp]: "skip (indent j @ t) = skip t"
proof -
  have "skip (replicate j CHR '' '' @ t) = skip t" by (induction j) (simp_all add: skip_def json_ws_def)
  then show ?thesis by (simp add: indent_def skip_def json_ws_def)
qed

lemma reads_indent: "reads v t r \<Longrightarrow> reads v (indent j @ t) r"
  by (simp add: reads_def read_value_skip [of "indent j @ t" t])

lemma ends_number_simps [simp]:
  "ends_number []" "ends_number (CHR '','' # r)" "ends_number (indent i @ r)"
  by (simp_all add: ends_number_def indent_def is_digit_def)

definition opens :: "string \<Rightarrow> bool" where
  "opens s \<longleftrightarrow> (case s of [] \<Rightarrow> False | c # _ \<Rightarrow> \<not> json_ws c \<and> c \<noteq> CHR '']'' \<and> c \<noteq> CHR ''}'')"

lemma opens_skip: "opens s \<Longrightarrow> skip (s @ r) = s @ r"
  by (cases s) (simp_all add: opens_def skip_def)

lemma skip_close [simp]: "skip (CHR '']'' # r) = CHR '']'' # r" "skip (CHR ''}'' # r) = CHR ''}'' # r"
    "skip (CHR '','' # r) = CHR '','' # r" "skip (CHR 0x22 # r) = CHR 0x22 # r" "skip (CHR '':'' # r) = CHR '':'' # r"
  by (simp_all add: skip_def json_ws_def)

lemma elements_read:
  assumes "vs \<noteq> []" and "\<forall>v \<in> set vs. \<forall>r. ends_number r \<longrightarrow> reads v (w v @ r) r"
  shows "\<exists>f0. \<forall>f \<ge> f0. read_elements f (join '','' (map (\<lambda>v. indent j @ w v) vs) @ indent i @ CHR '']'' # r)
    = Some (vs, r)"
  using assms
proof (induction vs rule: list_nonempty_induct)
  case (single v)
  have "reads v (indent j @ w v @ indent i @ CHR '']'' # r) (indent i @ CHR '']'' # r)"
    using single by (intro reads_indent) simp
  then obtain f0 where "\<forall>f \<ge> f0. read_value f (indent j @ w v @ indent i @ CHR '']'' # r)
      = Some (v, indent i @ CHR '']'' # r)" unfolding reads_def by blast
  then have "\<forall>f \<ge> Suc f0. read_elements f (indent j @ w v @ indent i @ CHR '']'' # r) = Some ([v], r)"
    by (simp add: all_Suc_le)
  then show ?case by auto
next
  case (cons v vs)
  let ?t = "join '','' (map (\<lambda>v. indent j @ w v) vs) @ indent i @ CHR '']'' # r"
  obtain u us where u: "vs = u # us" using cons.hyps by (cases vs) auto
  obtain f1 where f1: "\<forall>f \<ge> f1. read_elements f ?t = Some (vs, r)" using cons by auto
  have "reads v (indent j @ w v @ CHR '','' # ?t) (CHR '','' # ?t)"
    using cons.prems by (intro reads_indent) simp
  then obtain f0 where f0: "\<forall>f \<ge> f0. read_value f (indent j @ w v @ CHR '','' # ?t) = Some (v, CHR '','' # ?t)"
    unfolding reads_def by blast
  have "\<forall>f \<ge> Suc (max f0 f1). read_elements f (indent j @ w v @ CHR '','' # ?t) = Some (v # vs, r)"
    using f0 f1 by (simp add: all_Suc_le)
  then show ?case by (auto simp: u)
qed

lemma members_read:
  assumes "m \<noteq> []" and "om_ok (acc @ m)" and "\<forall>kv \<in> set m. \<forall>r. ends_number r \<longrightarrow> reads (snd kv) (w (snd kv) @ r) r"
  shows "\<exists>f0. \<forall>f \<ge> f0. read_members f acc
      (join '','' (map (\<lambda>(k, v). indent j @ quote k @ '': '' @ w v) m) @ indent i @ CHR ''}'' # r) = Some (acc @ m, r)"
  using assms
proof (induction m arbitrary: acc rule: list_nonempty_induct)
  case (single kv)
  obtain k v where kv: "kv = (k, v)" by fastforce
  have "reads v (CHR '' '' # w v @ indent i @ CHR ''}'' # r) (indent i @ CHR ''}'' # r)"
    using single read_value_skip [of "CHR '' '' # w v @ indent i @ CHR ''}'' # r"]
    by (simp add: kv reads_def skip_def json_ws_def)
  then obtain f0 where "\<forall>f \<ge> f0. read_value f (CHR '' '' # w v @ indent i @ CHR ''}'' # r)
      = Some (v, indent i @ CHR ''}'' # r)" unfolding reads_def by blast
  then have "\<forall>f \<ge> Suc f0. read_members f acc (indent j @ quote k @ '': '' @ w v @ indent i @ CHR ''}'' # r)
      = Some (om_set k v acc, r)"
    by (simp add: all_Suc_le quote_def read_quoted)
  moreover have "om_set k v acc = acc @ [(k, v)]"
    using single by (intro om_set_fresh) (simp add: om_ok_def kv)
  ultimately show ?case by (auto simp: kv)
next
  case (cons kv m)
  obtain k v where kv: "kv = (k, v)" by fastforce
  let ?t = "join '','' (map (\<lambda>(k, v). indent j @ quote k @ '': '' @ w v) m) @ indent i @ CHR ''}'' # r"
  obtain u us where u: "m = u # us" using cons.hyps by (cases m) auto
  have set: "om_set k v acc = acc @ [(k, v)]"
    using cons.prems(1) by (intro om_set_fresh) (auto simp: om_ok_def kv)
  obtain f1 where f1: "\<forall>f \<ge> f1. read_members f (om_set k v acc) ?t = Some (acc @ kv # m, r)"
    using cons.IH [of "acc @ [kv]"] cons.prems by (auto simp: set kv)
  have "reads v (CHR '' '' # w v @ CHR '','' # ?t) (CHR '','' # ?t)"
    using cons.prems read_value_skip [of "CHR '' '' # w v @ CHR '','' # ?t"]
    by (simp add: kv reads_def skip_def json_ws_def)
  then obtain f0 where f0: "\<forall>f \<ge> f0. read_value f (CHR '' '' # w v @ CHR '','' # ?t) = Some (v, CHR '','' # ?t)"
    unfolding reads_def by blast
  have "\<forall>f \<ge> Suc (max f0 f1). read_members f acc (indent j @ quote k @ '': '' @ w v @ CHR '','' # ?t)
      = Some (acc @ kv # m, r)"
    using f0 f1 by (simp add: all_Suc_le quote_def read_quoted)
  then show ?case by (auto simp: u kv)
qed

lemma quote_head: "quote s = CHR 0x22 # concat (map quote_char s) @ [CHR 0x22]"
  by (simp add: quote_def)

lemma digit_opens: "is_digit c \<or> c = CHR ''-'' \<Longrightarrow> \<not> json_ws c \<and> c \<notin> {CHR ''{'', CHR ''['', CHR '']'', CHR ''}'', CHR 0x22, CHR ''t'', CHR ''f'', CHR ''n''}"
  by (auto simp: is_digit_def json_ws_def)

lemma write_opens: "plain_json v \<Longrightarrow> opens (write_at i v)"
proof (cases v)
  case (JNum n)
  assume "plain_json v"
  then obtain x where x: "n = Fin x" "is_double x" by (cases n) (auto simp: JNum double_number_def)
  obtain c cs where "num_text (Fin x) = c # cs" "is_digit c \<or> c = CHR ''-''" by (rule num_text_head [OF x(2)])
  then show ?thesis using digit_opens [of c] by (simp add: JNum x(1) opens_def del: num_text.simps)
qed (simp_all add: opens_def quote_def json_ws_def)

lemma sort_none: "\<forall>kv \<in> set m. array_index (fst kv) = None \<Longrightarrow> obj_entries m = m"
  by (simp add: obj_entries_def filter_id_conv)

lemma write_reads:
  "plain_json v \<Longrightarrow> ends_number r \<Longrightarrow> reads v (write_at i v @ r) r"
proof (induction i v arbitrary: r rule: write_at.induct)
  case (3 i n)
  then obtain x where x: "n = Fin x" "is_double x" by (cases n) (auto simp: double_number_def)
  obtain c cs where s: "num_text (Fin x) = c # cs" "is_digit c \<or> c = CHR ''-''" by (rule num_text_head [OF x(2)])
  have "read_value (Suc f) (num_text (Fin x) @ r) = Some (JNum n, r)" for f
    using digit_opens [OF s(2)] read_number_text [OF 3(2) x(2)] x(1) s(1) by (simp add: skip_def del: num_text.simps)
  then show ?case using x(1) by (intro readsI) (simp del: num_text.simps)
next
  case (5 i vs)
  show ?case
  proof (cases "vs = []")
    case True
    then show ?thesis by (intro readsI) (simp add: skip_def json_ws_def starts_with_def)
  next
    case False
    let ?t = "join '','' (map (\<lambda>v. indent (i + 2) @ write_at (i + 2) v) vs) @ indent i @ CHR '']'' # r"
    have el: "\<forall>v \<in> set vs. \<forall>r. ends_number r \<longrightarrow> reads v (write_at (i + 2) v @ r) r"
      using 5 False by auto
    obtain f0 where f0: "\<forall>f \<ge> f0. read_elements f ?t = Some (vs, r)"
      using elements_read [OF False el, of "i + 2" i r] by blast
    obtain u us where u: "vs = u # us" using False by (cases vs) auto
    have "opens (write_at (i + 2) u)" using 5(2) u by (intro write_opens) simp
    then have "\<not> starts_with '']'' (skip ?t)"
      by (cases us) (auto simp: u opens_skip starts_with_def, auto simp: opens_def split: list.splits)
    then have "read_value (Suc f) (CHR ''['' # ?t) = Some (JArr vs, r)" if "f0 \<le> f" for f
      using f0 that by (simp add: skip_def [of "CHR ''['' # _"] json_ws_def)
    then show ?thesis using False by (intro readsI) simp
  qed
next
  case (6 i m)
  show ?case
  proof (cases "m = []")
    case True
    then show ?thesis by (intro readsI) (simp add: skip_def json_ws_def starts_with_def)
  next
    case False
    let ?t = "join '','' (map (\<lambda>(k, v). indent (i + 2) @ quote k @ '': '' @ write_at (i + 2) v) m) @ indent i @ CHR ''}'' # r"
    have ok: "om_ok ([] @ m)" using 6(2) by simp
    have el: "\<forall>kv \<in> set m. \<forall>r. ends_number r \<longrightarrow> reads (snd kv) (write_at (i + 2) (snd kv) @ r) r"
      using 6 False by fastforce
    obtain f0 where f0: "\<forall>f \<ge> f0. read_members f [] ?t = Some (m, r)"
      using members_read [OF False ok el, of "i + 2" i r] by auto
    obtain k v us where u: "m = (k, v) # us" using False by (cases m) auto
    have "\<not> starts_with ''}'' (skip ?t)"
      by (cases us) (auto simp: u quote_def starts_with_def)
    then have rd: "read_value (Suc f) (CHR ''{'' # ?t) = Some (JObj m, r)" if "f0 \<le> f" for f
      using f0 that by (simp add: skip_def [of "CHR ''{'' # _"] json_ws_def)
    have "obj_entries (map (\<lambda>(k, v). (k, write_at (i + 2) v)) m) = map (\<lambda>(k, v). (k, write_at (i + 2) v)) m"
      using 6(2) by (intro sort_none) auto
    then have "write_at i (JObj m) @ r = CHR ''{'' # ?t"
      using False by (simp add: comp_def case_prod_unfold)
    then show ?thesis using rd by (intro readsI) simp
  qed
qed (auto intro!: readsI simp: skip_def json_ws_def read_word_def starts_with_def quote_def read_quoted)

lemma write_read_value:
  assumes "plain_json v" and "ends_number r" and "2 * length (write_at i v @ r) + 1 \<le> f"
  shows "read_value f (write_at i v @ r) = Some (v, r)"
proof -
  obtain f0 where "\<forall>g \<ge> f0. read_value g (write_at i v @ r) = Some (v, r)"
    using write_reads [OF assms(1,2)] unfolding reads_def by blast
  then have "read_value (max f0 f) (write_at i v @ r) = Some (v, r)" by simp
  moreover have "read_value f (write_at i v @ r) = read_value (max f0 f) (write_at i v @ r)"
    using assms(3) by (intro fuel_enough(1)) simp_all
  ultimately show ?thesis by simp
qed

text \<open>A key that does not begin with a digit is no array index.\<close>

lemma letter_key: "\<not> is_digit c \<Longrightarrow> array_index (c # cs) = None"
proof -
  assume "\<not> is_digit c"
  then have "c # cs \<noteq> show_nat n" for n using show_nat_digits [of c n] by (metis list.set_intros(1))
  then show ?thesis by (simp only: array_index_def Let_def simp_thms if_False)
qed

lemma ws_ends_number: "json_ws c \<Longrightarrow> \<not> is_digit c \<and> c \<noteq> CHR ''.'' \<and> c \<noteq> CHR ''e'' \<and> c \<noteq> CHR ''E''"
  by (auto simp: json_ws_def is_digit_def)

lemma read_written: "plain_json v \<Longrightarrow> json_read (json_write v) = Some v"
  using write_read_value [of v "[]" 0 "2 * length (json_write v) + 1"]
  by (simp add: json_read_def json_write_def skip_def)

section \<open>Properties\<close>

text \<open>
  A value written with \<^verbatim>\<open>JSON.stringify(v, null, 2)\<close> reads back as itself with \<^verbatim>\<open>JSON.parse\<close>, with
  any white space around it: for values of finite numbers, texts with any characters
  (quotes, backslashes and control characters included), arrays, and objects with distinct keys none
  of which is an array index.
\<close>

theorem json_roundtrip:
  assumes "plain_json v" and "\<forall>c \<in> set before. json_ws c" and "\<forall>c \<in> set after. json_ws c"
  shows "json_read (before @ json_write v @ after) = Some v"
proof -
  have "skip (before @ json_write v @ after) = skip (json_write v @ after)"
    using assms(2) by (simp add: skip_def dropWhile_append2)
  then have eq: "read_value f (before @ json_write v @ after) = read_value f (json_write v @ after)" for f
    by (rule read_value_skip)
  have "ends_number after"
    using assms(3) ws_ends_number by (cases after) (simp_all add: ends_number_def)
  then have "read_value (2 * length (before @ json_write v @ after) + 1) (json_write v @ after) = Some (v, after)"
    unfolding json_write_def by (intro write_read_value [OF assms(1)]) simp_all
  moreover have "skip after = []" using assms(3) by (simp add: skip_def dropWhile_eq_Nil_conv)
  ultimately show ?thesis unfolding json_read_def eq by simp
qed

lemma sample_plain:
  "plain_json (JObj [(''id'', JStr ''a\"b''), (''steps'', JArr [JNum (Fin 1), JNull])])"
  by (simp add: om_ok_def letter_key is_digit_def)

theorem json_roundtrip_witness:
  "json_read ('' '' @ json_write (JObj [(''id'', JStr ''a\"b''), (''steps'', JArr [JNum (Fin 1), JNull])]) @ ''  '') =
     Some (JObj [(''id'', JStr ''a\"b''), (''steps'', JArr [JNum (Fin 1), JNull])])"
  by (rule json_roundtrip [OF sample_plain]) (simp_all add: json_ws_def)

text \<open>
  Reading ends. Of any text, a number of steps bounded by its length decides whether it is JSON
  and which value it has; a longer bound changes nothing.
\<close>

theorem json_parse_ends:
  assumes "2 * length s + 1 \<le> f"
  shows "json_parse msg s =
    (case read_value f s of Some (v, r) \<Rightarrow> if skip r = [] then Inr v else Inl (msg s) | None \<Rightarrow> Inl (msg s))"
proof -
  have "read_value (2 * length s + 1) s = read_value f s"
    by (rule fuel_enough(1) [OF order_refl assms])
  then show ?thesis by (simp add: json_parse_def json_read_def split: option.split)
qed

theorem json_parse_ends_witness:
  "json_parse id ''[]'' =
    (case read_value 9 ''[]'' of Some (v, r) \<Rightarrow> if skip r = [] then Inr v else Inl (id ''[]'') | None \<Rightarrow> Inl (id ''[]''))"
  by (rule json_parse_ends) simp

end
