(* ===== verification/Http.thy ===== *)
theory Http
  imports Json Constants
begin

text \<open>
  The boundary to the network: what a call of \<^verbatim>\<open>fetch\<close> receives and what it settles to. The
  network and the engine behind it are not part of the front end, so \<^verbatim>\<open>fetch\<close> is a
  parameter of every definition that calls it. It either rejects with an error message, or
  resolves to a response whose body can be read as text or as JSON; both reads may reject.
  The decoded payload has the type the caller expects of the endpoint.
\<close>

datatype http_method = GET | POST | DELETE

text \<open>
  The value handed to \<^verbatim>\<open>JSON.stringify\<close> for the request body. A plan is built by the program, or it is
  any value that the user wrote as JSON.
\<close>

datatype plan_body = Built migration_plan | Raw json

datatype body =
    NoBody
  | Credentials string string
  | PlanBody plan_body
  | IdsBody "string list"

record request =
  rq_method :: http_method
  rq_url :: string
  rq_headers :: "(string \<times> string) list"
  rq_body :: body

record 'j response =
  rs_status :: nat
  rs_text :: "string result"
  rs_json :: "'j result"

type_synonym 'j fetch = "request \<Rightarrow> 'j response result"

text \<open>\<^verbatim>\<open>res.ok\<close>: the status is in the range 200 to 299.\<close>

definition rs_ok :: "'j response \<Rightarrow> bool" where
  "rs_ok r \<longleftrightarrow> 200 \<le> rs_status r \<and> rs_status r \<le> 299"

text \<open>
  The two ways the source checks a response. The short one throws the status; the long one
  reads the body text first and throws both (and if that read rejects, its error).
\<close>

definition check_status :: "string \<Rightarrow> 'j response \<Rightarrow> unit result" where
  "check_status what r =
     (if rs_ok r then Inr () else Inl (what @ '': '' @ show_nat (rs_status r)))"

definition check_status_text :: "string \<Rightarrow> 'j response \<Rightarrow> unit result" where
  "check_status_text what r =
     (if rs_ok r then Inr ()
      else bind_result (rs_text r)
             (\<lambda>t. Inl (what @ '': '' @ show_nat (rs_status r) @ '' '' @ t)))"

lemma check_status_Inr [simp]: "check_status what r = Inr u \<longleftrightarrow> rs_ok r"
  by (simp add: check_status_def)

lemma check_status_text_Inr [simp]: "check_status_text what r = Inr u \<longleftrightarrow> rs_ok r"
  by (cases "rs_text r") (simp_all add: check_status_text_def)

end
