(* ===== verification/GoText.thy ===== *)
theory GoText
  imports NumText
begin

text \<open>
  Numbers as the exposition of the metrics shows them. The engine's metrics library is not part of the
  repository; of its number format only what is documented is used, as the predicate
  \<open>number_printer\<close>: a finite number is a decimal that denotes it, the others are \<^verbatim>\<open>+Inf\<close>, \<^verbatim>\<open>-Inf\<close> and
  \<^verbatim>\<open>NaN\<close>. \<open>go_text\<close> is one printer of that kind, in the shortest notation of Go, with which the
  predicate is shown to be satisfiable; every printer of the kind is read back by \<^verbatim>\<open>parseFloat\<close>.
\<close>

section \<open>Printers of numbers\<close>

text \<open>The text of an exponent, and the number it denotes.\<close>

definition exponent_text :: "string \<Rightarrow> int \<Rightarrow> bool" where
  "exponent_text ex i \<longleftrightarrow>
     ex = [] \<and> i = 0 \<or>
     (\<exists>sg ds. ex = CHR ''e'' # sg # ds \<and> ds \<noteq> [] \<and> digits ds \<and>
        (sg = CHR ''+'' \<and> i = int (nat_of_digits ds) \<or> sg = CHR ''-'' \<and> i = - int (nat_of_digits ds)))"

definition denotes :: "string \<Rightarrow> rat \<Rightarrow> bool" where
  "denotes t x \<longleftrightarrow>
     (\<exists>neg ip fp ex i. t = (if neg then CHR ''-'' # decimal ip fp ex else decimal ip fp ex) \<and>
        ip \<noteq> [] \<and> digits ip \<and> digits fp \<and> exponent_text ex i \<and>
        fl (if neg then - decimal_value ip fp i else decimal_value ip fp i) = Fin x)"

definition number_printer :: "(number \<Rightarrow> string) \<Rightarrow> bool" where
  "number_printer pr \<longleftrightarrow>
     (\<forall>x. is_double x \<longrightarrow> denotes (pr (Fin x)) x) \<and>
     pr PInf = ''+Inf'' \<and> pr NInf = ''-Inf'' \<and> pr NaN = ''NaN''"

lemma read_exponent_text: "exponent_text ex i \<Longrightarrow> read_exponent ex = i"
proof -
  have tw: "takeWhile is_digit ds = ds" if "digits ds" for ds using that by (simp add: digits_def)
  assume "exponent_text ex i"
  then consider "ex = []" "i = 0" | ds where "ex = CHR ''e'' # CHR ''+'' # ds" "digits ds" "i = int (nat_of_digits ds)"
    | ds where "ex = CHR ''e'' # CHR ''-'' # ds" "digits ds" "i = - int (nat_of_digits ds)"
    by (auto simp: exponent_text_def)
  then show ?thesis by cases (simp_all add: read_exponent_def take_sign_def tw)
qed

lemma denotes_read: "denotes t x \<Longrightarrow> parse_float t = Fin x"
proof -
  assume "denotes t x"
  then obtain neg ip fp ex i where t: "t = (if neg then CHR ''-'' # decimal ip fp ex else decimal ip fp ex)"
    and d: "digits ip" "digits fp" "ip \<noteq> []" and e: "exponent_text ex i"
    and v: "fl (if neg then - decimal_value ip fp i else decimal_value ip fp i) = Fin x"
    by (auto simp: denotes_def)
  have ex: "ex = [] \<or> \<not> is_digit (hd ex) \<and> hd ex \<noteq> CHR ''.''" using e by (auto simp: exponent_text_def)
  show ?thesis
    using parse_float_decimal [OF d ex] v by (cases neg) (simp_all add: t read_exponent_text [OF e])
qed

lemma denotes_chars:
  assumes "denotes t x"
  shows "t \<noteq> []" and "c \<in> set t \<Longrightarrow> is_digit c \<or> c \<in> set ''.e+-''"
  using assms by (auto simp: denotes_def decimal_def digits_def exponent_text_def split: if_splits)

text \<open>What the program reads of a printed number: the number, or nothing of a number that is not finite.\<close>

lemma printed_number_read:
  assumes "number_printer pr" and "case v of Fin x \<Rightarrow> is_double x | _ \<Rightarrow> True"
  shows "parse_float (pr v) = (case v of Fin x \<Rightarrow> Fin x | _ \<Rightarrow> NaN)"
proof (cases v)
  case (Fin x)
  then show ?thesis using assms denotes_read by (simp add: number_printer_def)
next
  case NaN
  have "parse_float ''NaN'' = NaN" by code_simp
  then show ?thesis using assms(1) NaN by (simp add: number_printer_def)
next
  case PInf
  have "parse_float ''+Inf'' = NaN" by code_simp
  then show ?thesis using assms(1) PInf by (simp add: number_printer_def)
next
  case NInf
  have "parse_float ''-Inf'' = NaN" by code_simp
  then show ?thesis using assms(1) NInf by (simp add: number_printer_def)
qed

lemma printed_number_plain:
  assumes "number_printer pr" and "case v of Fin x \<Rightarrow> is_double x | _ \<Rightarrow> True"
  shows "pr v \<noteq> []" and "c \<in> set (pr v) \<Longrightarrow> \<not> is_ws c" and "CHR ''{'' \<notin> set (pr v)"
proof -
  have pr: "pr PInf = ''+Inf''" "pr NInf = ''-Inf''" "pr NaN = ''NaN''"
    using assms(1) by (simp_all only: number_printer_def)
  have "pr v \<noteq> [] \<and> (\<forall>c \<in> set (pr v). \<not> is_ws c \<and> c \<noteq> CHR ''{'')"
  proof (cases v)
    case (Fin x)
    then have d: "denotes (pr v) x" using assms by (simp add: number_printer_def)
    have "\<not> is_ws c \<and> c \<noteq> CHR ''{''" if "c \<in> set (pr v)" for c
      using denotes_chars(2) [OF d that]
    proof
      assume "is_digit c"
      then show ?thesis using is_digit_not by blast
    next
      assume "c \<in> set ''.e+-''"
      then show ?thesis by (auto simp: is_ws_def)
    qed
    then show ?thesis using denotes_chars(1) [OF d] by blast
  qed (simp_all add: pr is_ws_def)
  then show "pr v \<noteq> []" "c \<in> set (pr v) \<Longrightarrow> \<not> is_ws c" "CHR ''{'' \<notin> set (pr v)" by blast+
qed

section \<open>Go's shortest notation\<close>

definition go_exponent :: "int \<Rightarrow> string" where
  "go_exponent e =
     CHR ''e'' # (if e < 0 then CHR ''-'' else CHR ''+'') #
       (if \<bar>e\<bar> < 10 then CHR ''0'' # show_nat (nat \<bar>e\<bar>) else show_nat (nat \<bar>e\<bar>))"

text \<open>An exponent below -4 or from 6 on is written as one, with at least two digits.\<close>

definition go_pos_text :: "rat \<Rightarrow> string" where
  "go_pos_text x =
     (let m = dec_exp 700 x 1; (d, k) = shortest 17 x m 1;
          (d', n) = (if d = 10 ^ k then (10 ^ (k - 1), m + 1) else (d, m));
          s = show_nat (nat d'); e = n - 1
      in if e < - 4 \<or> 6 \<le> e then decimal (take 1 s) (drop 1 s) (go_exponent e)
         else if int k \<le> n then s @ replicate (nat n - k) CHR ''0''
         else if 0 < n then decimal (take (nat n) s) (drop (nat n) s) []
         else decimal ''0'' (replicate (nat (- n)) CHR ''0'' @ s) [])"

fun go_text :: "number \<Rightarrow> string" where
  "go_text NaN = ''NaN''"
| "go_text PInf = ''+Inf''"
| "go_text NInf = ''-Inf''"
| "go_text (Fin x) =
     (if x = 1 then ''1'' else if x = 0 then ''0'' else if x = - 1 then ''-1''
      else if x < 0 then CHR ''-'' # go_pos_text (- x) else go_pos_text x)"

lemma zero_digits: "nat_of_digits (CHR ''0'' # ds) = nat_of_digits ds"
  by (simp add: nat_of_digits_def digit_val_def)

lemma go_exponent_text: "exponent_text (go_exponent e) e"
proof -
  define ds where "ds = (if \<bar>e\<bar> < 10 then CHR ''0'' # show_nat (nat \<bar>e\<bar>) else show_nat (nat \<bar>e\<bar>))"
  have "ds \<noteq> []" "digits ds" "nat_of_digits ds = nat \<bar>e\<bar>"
    by (simp_all add: ds_def zero_digits is_digit_def)
  moreover have "go_exponent e = CHR ''e'' # (if e < 0 then CHR ''-'' else CHR ''+'') # ds"
    by (simp add: go_exponent_def ds_def)
  ultimately show ?thesis by (cases "e < 0") (simp_all add: exponent_text_def)
qed

lemma go_pos_text_decimal:
  assumes "is_double x" and "0 < x"
  shows "\<exists>ip fp ex i. go_pos_text x = decimal ip fp ex \<and> ip \<noteq> [] \<and> digits ip \<and> digits fp \<and>
    exponent_text ex i \<and> fl (decimal_value ip fp i) = Fin x"
proof -
  obtain d k where dk: "shortest 17 x (dec_exp 700 x 1) 1 = (d, k)" by fastforce
  obtain d' n where dn: "(d', n) = (if d = 10 ^ k then (10 ^ (k - 1), dec_exp 700 x 1 + 1) else (d, dec_exp 700 x 1))"
    by (metis surj_pair)
  define s where "s = show_nat (nat d')"
  note dig = text_digits [OF assms dk dn s_def]
  define e where "e = n - 1"
  have gt: "go_pos_text x =
      (if e < - 4 \<or> 6 \<le> e then decimal (take 1 s) (drop 1 s) (go_exponent e)
       else if int k \<le> n then s @ replicate (nat n - k) CHR ''0''
       else if 0 < n then decimal (take (nat n) s) (drop (nat n) s) []
       else decimal ''0'' (replicate (nat (- n)) CHR ''0'' @ s) [])"
    by (simp only: go_pos_text_def Let_def dk prod.case dn [symmetric] s_def e_def)
  have none: "exponent_text [] 0" by (simp add: exponent_text_def)
  consider (exp) "e < - 4 \<or> 6 \<le> e" | (whole) "\<not> (e < - 4 \<or> 6 \<le> e)" "int k \<le> n"
    | (point) "\<not> (e < - 4 \<or> 6 \<le> e)" "n < int k" "0 < n" | (small) "\<not> (e < - 4 \<or> 6 \<le> e)" "n \<le> 0"
    using dig(1) by linarith
  then show ?thesis
  proof cases
    case exp
    have "nat_of_digits (take 1 s @ drop 1 s) = nat d'" using dig(4) by (simp only: append_take_drop_id)
    moreover have "e - int (length (drop 1 s)) = n - int k" using dig(1,2) by (simp add: e_def of_nat_diff)
    ultimately have "fl (decimal_value (take 1 s) (drop 1 s) e) = Fin x"
      using dig(7) by (simp only: decimal_value_def)
    moreover have "take 1 s \<noteq> []" using dig(5) by simp
    ultimately show ?thesis
      using exp gt digits_take [OF dig(3)] go_exponent_text [of e] by (simp only: if_True) blast
  next
    case whole
    let ?i = "s @ replicate (nat n - k) CHR ''0''"
    have "pow10 (n - int k) = 10 ^ (nat n - k)" "pow10 0 = 1"
      using whole(2) dig(1) by (simp_all add: pow10_def nat_diff_distrib)
    then have "fl (decimal_value ?i [] 0) = Fin x"
      using dig(7) by (simp add: decimal_value_def nat_of_digits_append dig(4))
    moreover have "go_pos_text x = decimal ?i [] []" using whole by (simp add: gt decimal_def)
    moreover have "?i \<noteq> []" "digits ?i" "digits []" using dig(3,5) by simp_all
    ultimately show ?thesis using none by blast
  next
    case point
    let ?i = "take (nat n) s" and ?f = "drop (nat n) s"
    have "?i \<noteq> []" using point dig(5) by simp
    moreover have "fl (decimal_value ?i ?f 0) = Fin x"
      using dig(7) point by (simp add: decimal_value_def dig(4) dig(2) of_nat_diff)
    moreover have "go_pos_text x = decimal ?i ?f []" using point by (simp add: gt)
    ultimately show ?thesis using none digits_take [OF dig(3)] by blast
  next
    case small
    let ?f = "replicate (nat (- n)) CHR ''0'' @ s"
    have "nat_of_digits (''0'' @ ?f) = nat d'"
      using nat_of_digits_zeros [of 1] by (simp only: nat_of_digits_append nat_of_digits_zeros dig(4)) (simp add: nat_of_digits_def digit_val_def)
    then have "fl (decimal_value ''0'' ?f 0) = Fin x" using dig(7) small by (simp add: decimal_value_def dig(2))
    moreover have "go_pos_text x = decimal ''0'' ?f []" using small dig(1) by (simp add: gt)
    moreover have "digits ?f" "digits ''0''" using dig(3) by (simp_all add: is_digit_def)
    ultimately show ?thesis using none by blast
  qed
qed

lemma denotes_pos: "is_double x \<Longrightarrow> 0 < x \<Longrightarrow> denotes (go_pos_text x) x"
  using go_pos_text_decimal [of x] by (auto simp: denotes_def intro!: exI [of _ False])

lemma denotes_neg: "is_double x \<Longrightarrow> x < 0 \<Longrightarrow> denotes (CHR ''-'' # go_pos_text (- x)) x"
proof -
  assume x: "is_double x" "x < 0"
  then have "is_double (- x)" "0 < - x" by (simp_all add: is_double_def fl_neg)
  then obtain ip fp ex i where t: "go_pos_text (- x) = decimal ip fp ex" "ip \<noteq> []" "digits ip" "digits fp"
    "exponent_text ex i" "fl (decimal_value ip fp i) = Fin (- x)" using go_pos_text_decimal by blast
  then have "fl (- decimal_value ip fp i) = Fin x" by (simp add: fl_neg)
  then show ?thesis using t unfolding denotes_def by (intro exI [of _ True]) auto
qed

lemma denotes_digit: "denotes ''1'' 1" "denotes ''0'' 0" "denotes ''-1'' (- 1)"
proof -
  have v: "decimal ''1'' [] [] = ''1''" "decimal ''0'' [] [] = ''0''" "digits ''1''" "digits ''0''"
    "decimal_value ''1'' [] 0 = 1" "decimal_value ''0'' [] 0 = 0" "exponent_text [] 0"
    by (simp_all add: decimal_def is_digit_def decimal_value_def nat_of_digits_def digit_val_def pow10_def exponent_text_def)
  have d: "is_digit CHR ''1''" "is_digit CHR ''0''" by (simp_all add: is_digit_def)
  have f: "fl 1 = Fin 1" "fl 0 = Fin 0" "fl (- 1) = Fin (- 1)"
    using fl_neg [of 1] double_number_small by (simp_all add: double_number_def is_double_def)
  show "denotes ''1'' 1" unfolding denotes_def
    by (rule exI [of _ False], rule exI [of _ "''1''"], rule exI [of _ "[]"], rule exI [of _ "[]"], rule exI [of _ 0]) (simp add: v f d)
  show "denotes ''0'' 0" unfolding denotes_def
    by (rule exI [of _ False], rule exI [of _ "''0''"], rule exI [of _ "[]"], rule exI [of _ "[]"], rule exI [of _ 0]) (simp add: v f d)
  show "denotes ''-1'' (- 1)" unfolding denotes_def
    by (rule exI [of _ True], rule exI [of _ "''1''"], rule exI [of _ "[]"], rule exI [of _ "[]"], rule exI [of _ 0]) (simp add: v f d)
qed

lemma go_text_printer: "number_printer go_text"
  using denotes_digit denotes_pos denotes_neg by (auto simp: number_printer_def not_less)

end
