(* ===== verification/Prometheus.thy ===== *)
theory Prometheus
  imports Http GoText
begin

text \<open>
  \<^verbatim>\<open>frontend/src/lib/prometheus.ts\<close>: the reader of the Prometheus text exposition and the
  figures the metrics panel takes from it. The file's functions are the definitions of the
  first sections, in its order; then come the documented exposition format, as a printer
  over any text of numbers the format allows, the laws of the reader against it (plain labels are read
  back, the escapes of others are kept) and those of the extraction.
\<close>

section \<open>Reading the exposition\<close>

record metric_sample =
  ms_labels :: "(string \<times> string) list"
  ms_value :: number
  ms_timestamp :: "number option"

type_synonym metric_map = "(string \<times> metric_sample list) list"

definition strip_quotes :: "string \<Rightarrow> string" where
  "strip_quotes s = strip_last CHR 0x22 (strip_first CHR 0x22 s)"

definition parse_label_pair :: "(string \<times> string) list \<Rightarrow> string \<Rightarrow> (string \<times> string) list" where
  "parse_label_pair labels pair =
     (case index_of CHR ''='' pair of
        None \<Rightarrow> labels
      | Some eqIdx \<Rightarrow>
          let key = trim (take eqIdx pair);
              val = trim (strip_quotes (drop (eqIdx + 1) pair))
          in obj_set key val labels)"

definition parseLabels :: "string \<Rightarrow> (string \<times> string) list" where
  "parseLabels labelStr =
     (if labelStr = [] then []
      else let cleaned = strip_last CHR ''}'' (strip_first CHR ''{'' labelStr);
               pairs = split_on CHR '','' cleaned
           in foldl parse_label_pair [] pairs)"

definition push_sample :: "string \<Rightarrow> metric_sample \<Rightarrow> metric_map \<Rightarrow> metric_map" where
  "push_sample name s metrics =
     om_set name ((case om_get metrics name of None \<Rightarrow> [] | Some existing \<Rightarrow> existing) @ [s]) metrics"

definition sample :: "(string \<times> string) list \<Rightarrow> number \<Rightarrow> metric_sample" where
  "sample labels value = \<lparr> ms_labels = labels, ms_value = value, ms_timestamp = None \<rparr>"

text \<open>One line of the loop of \<^verbatim>\<open>parsePrometheusText\<close>: the sample it adds, if it adds one.\<close>

definition read_line :: "string \<Rightarrow> (string \<times> metric_sample) option" where
  "read_line line =
     (if starts_with ''#'' line \<or> trim line = [] then None
      else case index_of CHR ''{'' line of
        None \<Rightarrow>
          let parts = split_on CHR '' '' line in
          if 2 \<le> length parts then
            let name = parts ! 0; value = parse_float (parts ! 1) in
            if value \<noteq> NaN then Some (name, sample [] value) else None
          else None
      | Some spaceIdx \<Rightarrow>
          let name = take spaceIdx line; rest = drop spaceIdx line in
          (case index_of CHR ''}'' rest of
             None \<Rightarrow> None
           | Some closeIdx \<Rightarrow>
               let labelStr = take (closeIdx + 1) rest;
                   afterLabels = trim (drop (closeIdx + 1) rest);
                   parts = split_on CHR '' '' afterLabels;
                   value = parse_float (parts ! 0)
               in if value = NaN then None
                  else Some (name, sample (parseLabels labelStr) value)))"

definition parse_line :: "metric_map \<Rightarrow> string \<Rightarrow> metric_map" where
  "parse_line metrics line =
     (case read_line line of None \<Rightarrow> metrics | Some (name, s) \<Rightarrow> push_sample name s metrics)"

definition parsePrometheusText :: "string \<Rightarrow> metric_map" where
  "parsePrometheusText text = foldl parse_line [] (split_on CHR 0x0A text)"

section \<open>Selecting samples\<close>

definition samples_of :: "metric_map \<Rightarrow> string \<Rightarrow> metric_sample list" where
  "samples_of metrics name = (case om_get metrics name of None \<Rightarrow> [] | Some ss \<Rightarrow> ss)"

fun matches :: "(string \<times> string) list \<Rightarrow> metric_sample \<Rightarrow> bool" where
  "matches [] s = True"
| "matches ((k, v) # fs) s = (if om_get (ms_labels s) k \<noteq> Some v then False else matches fs s)"

text \<open>The loop of \<^verbatim>\<open>getLatest\<close> runs over the samples from the last to the first.\<close>

fun latest_loop :: "(string \<times> string) list \<Rightarrow> metric_sample list \<Rightarrow> number" where
  "latest_loop flt [] = Fin 0"
| "latest_loop flt (s # ss) = (if matches flt s then ms_value s else latest_loop flt ss)"

definition getLatest :: "metric_map \<Rightarrow> string \<Rightarrow> (string \<times> string) list \<Rightarrow> number" where
  "getLatest metrics name flt = latest_loop flt (rev (samples_of metrics name))"

definition getSum :: "metric_map \<Rightarrow> string \<Rightarrow> (string \<times> string) list \<Rightarrow> number" where
  "getSum metrics name flt =
     foldl (\<lambda>total s. if matches flt s then js_add total (ms_value s) else total)
       (Fin 0) (samples_of metrics name)"

fun states_loop :: "string \<Rightarrow> metric_sample list \<Rightarrow> string" where
  "states_loop migrationId [] = []"
| "states_loop migrationId (s # ss) =
     (if om_get (ms_labels s) ''migration_id'' = Some migrationId \<and> js_eq (ms_value s) (Fin 1)
      then (case om_get (ms_labels s) ''state'' of None \<Rightarrow> [] | Some st \<Rightarrow> st)
      else states_loop migrationId ss)"

definition getStates :: "metric_map \<Rightarrow> string \<Rightarrow> string" where
  "getStates metrics migrationId = states_loop migrationId (samples_of metrics ''migrate_state_info'')"

text \<open>
  A count of \<^verbatim>\<open>getTransitions\<close>. \<^verbatim>\<open>result[state] || 0\<close> reads an inherited member of the plain
  object when the state has the name of one (say \<^verbatim>\<open>constructor\<close>); the addition then makes a
  string, which begins with the text of that function and grows with every further sample.
\<close>

datatype count = Count number | Text string "number list"

definition old_count :: "string \<Rightarrow> count option \<Rightarrow> count" where
  "old_count k c = (case c of
       Some (Count n) \<Rightarrow> Count (if js_truthy n then n else Fin 0)
     | Some (Text f ns) \<Rightarrow> Text f ns
     | None \<Rightarrow> if k \<in> set inherited_names then Text k [] else Count (Fin 0))"

fun count_plus :: "count \<Rightarrow> number \<Rightarrow> count" where
  "count_plus (Count n) v = Count (js_add n v)"
| "count_plus (Text f ns) v = Text f (ns @ [v])"

definition to_state_of :: "metric_sample \<Rightarrow> string" where
  "to_state_of s = (case om_get (ms_labels s) ''to_state'' of None \<Rightarrow> [] | Some st \<Rightarrow> st)"

definition add_transition :: "string \<Rightarrow> (string \<times> count) list \<Rightarrow> metric_sample \<Rightarrow> (string \<times> count) list" where
  "add_transition planId res s =
     (if om_get (ms_labels s) ''plan_id'' = Some planId
      then obj_set (to_state_of s)
             (count_plus (old_count (to_state_of s) (om_get res (to_state_of s))) (ms_value s)) res
      else res)"

definition getTransitions :: "metric_map \<Rightarrow> string \<Rightarrow> (string \<times> count) list" where
  "getTransitions metrics planId =
     obj_entries (foldl (add_transition planId) [] (samples_of metrics ''migrate_state_transitions_total''))"

section \<open>The figures of one migration\<close>

record migration_metrics =
  mm_backfillTotal :: number
  mm_backfillDone :: number
  mm_backfillPct :: number
  mm_parity :: number
  mm_canaryPct :: number
  mm_rollbacks :: number
  mm_cutoverParity :: number
  mm_currentState :: string
  mm_transitions :: "(string \<times> count) list"

definition extractMigrationMetrics :: "metric_map \<Rightarrow> string \<Rightarrow> string \<Rightarrow> migration_metrics" where
  "extractMigrationMetrics metrics migrationId planId =
     (let flt = [(''migration_id'', migrationId), (''plan_id'', planId)];
          backfillTotal = getLatest metrics ''migrate_backfill_rows_total'' flt;
          backfillDone = getLatest metrics ''migrate_backfill_rows_done'' flt
      in \<lparr> mm_backfillTotal = backfillTotal,
           mm_backfillDone = backfillDone,
           mm_backfillPct =
             (if js_lt (Fin 0) backfillTotal then js_percent backfillDone backfillTotal else Fin 0),
           mm_parity = getLatest metrics ''migrate_verify_parity'' flt,
           mm_canaryPct = getLatest metrics ''migrate_canary_step_pct'' flt,
           mm_rollbacks = getSum metrics ''migrate_rollbacks_total'' [(''plan_id'', planId)],
           mm_cutoverParity = getLatest metrics ''migrate_cutover_parity'' flt,
           mm_currentState = getStates metrics migrationId,
           mm_transitions = getTransitions metrics planId \<rparr>)"

definition fetchPrometheusMetrics :: "'j fetch \<Rightarrow> metric_map result" where
  "fetchPrometheusMetrics fetch =
     bind_result (fetch \<lparr> rq_method = GET, rq_url = ''/metrics'', rq_headers = [], rq_body = NoBody \<rparr>)
       (\<lambda>res. bind_result (check_status ''fetch metrics'' res)
         (\<lambda>_. bind_result (rs_text res) (\<lambda>text. Inr (parsePrometheusText text))))"

section \<open>The exposition format\<close>

text \<open>
  What the reader is given: the text exposition of samples, as its format is documented. Each line ends
  in a line break; it is a comment or a sample, whose label values stand in quotes with every backslash,
  quote and line break escaped by a backslash. How the engine's library writes a number is the parameter
  \<open>pr\<close>, of which \<open>number_printer\<close> (theory \<open>GoText\<close>) says what is documented.
\<close>

datatype line =
    Comment string
  | Sample string "(string \<times> string) list" number

definition escape_char :: "char \<Rightarrow> string" where
  "escape_char c =
     (if c = CHR 0x5C then [CHR 0x5C, CHR 0x5C]
      else if c = CHR 0x22 then [CHR 0x5C, CHR 0x22]
      else if c = CHR 0x0A then [CHR 0x5C, CHR ''n'']
      else [c])"

definition escape_value :: "string \<Rightarrow> string" where
  "escape_value v = concat (map escape_char v)"

definition label_text :: "string \<times> string \<Rightarrow> string" where
  "label_text kv = fst kv @ CHR ''='' # CHR 0x22 # escape_value (snd kv) @ [CHR 0x22]"

fun expose_line :: "(number \<Rightarrow> string) \<Rightarrow> line \<Rightarrow> string" where
  "expose_line pr (Comment c) = CHR ''#'' # c"
| "expose_line pr (Sample name ls v) =
     name @ (if ls = [] then [] else CHR ''{'' # join '','' (map label_text ls) @ ''}'') @
     CHR '' '' # pr v"

definition expose :: "(number \<Rightarrow> string) \<Rightarrow> line list \<Rightarrow> string" where
  "expose pr ls = concat (map (\<lambda>l. expose_line pr l @ [CHR 0x0A]) ls)"

text \<open>
  Which names and label values the reader can take: a name has no brace or white space; a label value has
  no comma or closing brace (it splits at them), none of the three characters that are escaped (it does
  not undo the escapes), and no white space at its ends (it trims). The number is any double, an
  infinity or NaN.
\<close>

definition name_ok :: "string \<Rightarrow> bool" where
  "name_ok s \<longleftrightarrow> s \<noteq> [] \<and> hd s \<noteq> CHR ''#'' \<and> (\<forall>c \<in> set s. \<not> is_ws c \<and> c \<noteq> CHR ''{'')"

definition key_ok :: "string \<Rightarrow> bool" where
  "key_ok k \<longleftrightarrow> k \<noteq> [] \<and> k \<noteq> ''__proto__'' \<and>
     (\<forall>c \<in> set k. \<not> is_ws c \<and> c \<noteq> CHR ''='' \<and> c \<noteq> CHR '','' \<and> c \<noteq> CHR ''}'')"

definition val_ok :: "string \<Rightarrow> bool" where
  "val_ok v \<longleftrightarrow> trim v = v \<and>
     (\<forall>c \<in> set v. c \<noteq> CHR '','' \<and> c \<noteq> CHR ''}'' \<and> c \<noteq> CHR 0x22 \<and> c \<noteq> CHR 0x0A \<and> c \<noteq> CHR 0x5C)"

definition labels_ok :: "(string \<times> string) list \<Rightarrow> bool" where
  "labels_ok ls \<longleftrightarrow> om_ok ls \<and> (\<forall>kv \<in> set ls. key_ok (fst kv) \<and> val_ok (snd kv))"

definition number_ok :: "number \<Rightarrow> bool" where
  "number_ok v \<longleftrightarrow> (case v of Fin x \<Rightarrow> is_double x | _ \<Rightarrow> True)"

fun line_ok :: "line \<Rightarrow> bool" where
  "line_ok (Comment c) = (CHR 0x0A \<notin> set c)"
| "line_ok (Sample name ls v) = (name_ok name \<and> labels_ok ls \<and> number_ok v)"

text \<open>The sample a line stands for; the reader has none for a number that is not finite.\<close>

fun line_sample :: "line \<Rightarrow> (string \<times> metric_sample) option" where
  "line_sample (Sample name ls (Fin x)) = Some (name, sample ls (Fin x))"
| "line_sample _ = None"

section \<open>The reader inverts the printer\<close>

lemma ws_facts [simp]:
  "is_ws CHR '' ''" "is_ws CHR 0x0A" "\<not> is_ws CHR ''{''" "\<not> is_ws CHR ''#''" "\<not> is_ws CHR ''}''"
  by (simp_all add: is_ws_def)

lemma strip_quotes_quoted: "strip_quotes (CHR 0x22 # v @ [CHR 0x22]) = v"
  by (simp add: strip_quotes_def strip_first_def strip_last_def)

lemma trim_key: "key_ok k \<Longrightarrow> trim k = k"
  by (rule trim_no_ws) (auto simp: key_ok_def)

lemma escape_value_simps [simp]:
  "escape_value [] = []" "escape_value (c # v) = escape_char c @ escape_value v"
  by (simp_all add: escape_value_def)

lemma escape_value_plain:
  "\<forall>c \<in> set v. c \<noteq> CHR 0x22 \<and> c \<noteq> CHR 0x0A \<and> c \<noteq> CHR 0x5C \<Longrightarrow> escape_value v = v"
  by (induction v) (simp_all add: escape_char_def)

lemma escape_val_ok: "val_ok v \<Longrightarrow> escape_value v = v"
  by (rule escape_value_plain) (simp add: val_ok_def)

lemma escape_value_chars: "c \<in> set (escape_value v) \<Longrightarrow> c \<in> set v \<or> c = CHR 0x5C \<or> c = CHR ''n''"
  by (induction v) (auto simp: escape_char_def split: if_splits)

text \<open>Reading one printed label: its escaped value, trimmed.\<close>

lemma parse_label_escaped:
  assumes "key_ok k"
  shows "parse_label_pair labels (label_text (k, v)) = om_set k (trim (escape_value v)) labels"
proof -
  have "CHR ''='' \<notin> set k" using assms(1) by (auto simp: key_ok_def)
  then have "index_of CHR ''='' (label_text (k, v)) = Some (length k)"
    by (simp add: label_text_def index_of_append)
  moreover have "take (length k) (label_text (k, v)) = k"
    and "drop (length k + 1) (label_text (k, v)) = CHR 0x22 # escape_value v @ [CHR 0x22]"
    by (simp_all add: label_text_def)
  moreover have "k \<noteq> ''__proto__''" using assms by (simp add: key_ok_def)
  ultimately show ?thesis
    using trim_key [OF assms]
    by (simp add: parse_label_pair_def strip_quotes_quoted obj_set_def)
qed

lemma parse_label_text:
  "key_ok k \<Longrightarrow> val_ok v \<Longrightarrow> parse_label_pair labels (label_text (k, v)) = om_set k v labels"
  by (simp add: parse_label_escaped escape_val_ok) (simp add: val_ok_def)

lemma fold_om_set_fresh:
  assumes "distinct (map fst (acc @ ls))"
  shows "foldl (\<lambda>m kv. om_set (fst kv) (snd kv) m) acc ls = acc @ ls"
  using assms
proof (induction ls arbitrary: acc)
  case (Cons kv ls)
  then have "fst kv \<notin> fst ` set acc" by auto
  then have "om_set (fst kv) (snd kv) acc = acc @ [kv]"
    by (induction acc) auto
  moreover have "distinct (map fst ((acc @ [kv]) @ ls))" using Cons.prems by simp
  ultimately show ?case using Cons.IH [of "acc @ [kv]"] by simp
qed simp

lemma fold_parse_labels:
  assumes "\<forall>kv \<in> set ls. key_ok (fst kv) \<and> val_ok (snd kv)"
  shows "foldl parse_label_pair acc (map label_text ls) =
    foldl (\<lambda>m kv. om_set (fst kv) (snd kv) m) acc ls"
  using assms
proof (induction ls arbitrary: acc)
  case (Cons kv ls)
  then show ?case by (cases kv) (simp add: parse_label_text)
qed simp

lemma label_text_chars:
  assumes "key_ok (fst kv)" and "val_ok (snd kv)"
  shows "CHR '','' \<notin> set (label_text kv)" and "CHR ''}'' \<notin> set (label_text kv)"
  using assms escape_val_ok [OF assms(2)] by (auto simp: label_text_def key_ok_def val_ok_def)

lemma set_join: "set (join sep ws) \<subseteq> set sep \<union> (\<Union>w \<in> set ws. set w)"
  by (induction sep ws rule: join.induct) auto

lemma parseLabels_printed:
  assumes "labels_ok ls" and "ls \<noteq> []"
  shows "parseLabels (CHR ''{'' # join '','' (map label_text ls) @ ''}'') = ls"
proof -
  have ok: "\<forall>kv \<in> set ls. key_ok (fst kv) \<and> val_ok (snd kv)"
    using assms(1) by (simp add: labels_ok_def)
  then have "\<forall>w \<in> set (map label_text ls). CHR '','' \<notin> set w"
    using label_text_chars(1) by auto
  then have "split_on CHR '','' (join '','' (map label_text ls)) = map label_text ls"
    using assms(2) by (intro split_join) simp_all
  then show ?thesis
    using fold_parse_labels [OF ok, of "[]"] fold_om_set_fresh [of "[]" ls] assms(1)
    by (simp add: parseLabels_def strip_first_def strip_last_def labels_ok_def om_ok_def)
qed

text \<open>A printed number has no white space: it is the only part of its text.\<close>

lemma pr_facts:
  assumes "number_printer pr" and "number_ok v"
  shows "split_on CHR '' '' (pr v) = [pr v]" and "trim (CHR '' '' # pr v) = pr v" and "CHR 0x0A \<notin> set (pr v)"
    and "CHR ''{'' \<notin> set (pr v)" and "parse_float (pr v) = (case v of Fin x \<Rightarrow> Fin x | _ \<Rightarrow> NaN)"
proof -
  have v: "case v of Fin x \<Rightarrow> is_double x | _ \<Rightarrow> True" using assms(2) by (simp add: number_ok_def)
  note plain = printed_number_plain [OF assms(1) v]
  show "CHR 0x0A \<notin> set (pr v)" using plain(2) ws_facts(2) by blast
  have "CHR '' '' \<notin> set (pr v)" using plain(2) ws_facts(1) by blast
  then show "split_on CHR '' '' (pr v) = [pr v]" by simp
  have "trim (pr v) = pr v" using plain(1,2) by (intro trim_no_ws) simp_all
  then show "trim (CHR '' '' # pr v) = pr v" by (simp add: trim_def trim_start_def)
  show "CHR ''{'' \<notin> set (pr v)" by (rule plain(3))
  show "parse_float (pr v) = (case v of Fin x \<Rightarrow> Fin x | _ \<Rightarrow> NaN)" by (rule printed_number_read [OF assms(1) v])
qed

lemma read_sample_line:
  assumes "number_printer pr" and "line_ok (Sample name ls v)"
  shows "read_line (expose_line pr (Sample name ls v)) = line_sample (Sample name ls v)"
proof -
  let ?line = "expose_line pr (Sample name ls v)"
  have ok: "name_ok name" using assms(2) by simp
  then obtain c cs where name: "name = c # cs" by (cases name) (simp_all add: name_ok_def)
  have chars: "\<forall>c \<in> set name. \<not> is_ws c \<and> c \<noteq> CHR ''{''"
    using ok by (simp add: name_ok_def)
  then have nm: "CHR ''{'' \<notin> set name" "CHR '' '' \<notin> set name"
    using ws_facts(1) by blast+
  have c: "c \<noteq> CHR ''#''" "\<not> is_ws c"
    using ok by (simp_all add: name name_ok_def)
  have start: "\<not> starts_with ''#'' ?line" and ne: "trim ?line \<noteq> []"
    using c by (simp_all add: name starts_with_def trim_eq_Nil_iff)
  have "number_ok v" using assms(2) by simp
  note printed = pr_facts [OF assms(1) this]
  have out: "line_sample (Sample name ls v) =
      (if parse_float (pr v) = NaN then None else Some (name, sample ls (parse_float (pr v))))"
    using printed(5) by (cases v) simp_all
  show ?thesis
  proof (cases "ls = []")
    case True
    have "index_of CHR ''{'' ?line = None" using nm True printed(4) by simp
    moreover have "split_on CHR '' '' ?line = [name, pr v]"
      using nm True by (simp add: split_on_append printed(1))
    ultimately show ?thesis
      using start ne True out by (simp add: read_line_def Let_def)
  next
    case False
    let ?J = "join '','' (map label_text ls)"
    have L: "labels_ok ls" using assms by simp
    have line: "?line = name @ CHR ''{'' # ?J @ CHR ''}'' # CHR '' '' # pr v"
      using False by simp
    have idx: "index_of CHR ''{'' ?line = Some (length name)"
      unfolding line by (rule index_of_append [OF nm(1)])
    have "CHR ''}'' \<notin> set ?J"
      using set_join [of "'',''" "map label_text ls"] label_text_chars(2) L
      by (fastforce simp: labels_ok_def)
    then have cl: "index_of CHR ''}'' (CHR ''{'' # ?J @ CHR ''}'' # CHR '' '' # pr v) = Some (length ?J + 1)"
      by (simp add: index_of_append)
    show ?thesis
      using start ne printed(1,2) idx cl parseLabels_printed [OF L False] False
      by (simp add: read_line_def out)
  qed
qed

lemma read_printed_line: "number_printer pr \<Longrightarrow> line_ok l \<Longrightarrow> read_line (expose_line pr l) = line_sample l"
proof (cases l)
  case (Sample name ls v)
  assume "number_printer pr" "line_ok l"
  then show ?thesis
    unfolding Sample by (rule read_sample_line)
qed (simp add: read_line_def starts_with_def)

definition append_to :: "string \<Rightarrow> metric_sample list option \<Rightarrow> metric_sample \<Rightarrow> metric_sample list" where
  "append_to name old s = (case old of None \<Rightarrow> [] | Some existing \<Rightarrow> existing) @ [s]"

lemma push_sample_bump: "push_sample name s m = om.bump append_to m (name, s)"
  by (simp add: push_sample_def om.bump_def append_to_def)

lemma fold_printed_lines:
  assumes "number_printer pr" and "\<forall>l \<in> set ls. line_ok l"
  shows "foldl parse_line m (map (expose_line pr) ls) = foldl (om.bump append_to) m (List.map_filter line_sample ls)"
  using assms(2)
proof (induction ls arbitrary: m)
  case (Cons l ls)
  then show ?case
    by (cases "line_sample l")
      (auto simp: parse_line_def read_printed_line [OF assms(1)] push_sample_bump map_filter_simps)
qed (simp add: map_filter_simps)

lemma foldl_append_to:
  "foldl (\<lambda>old ka. Some (append_to k old (snd ka))) (Some ss) kas = Some (ss @ map snd kas)"
  by (induction kas arbitrary: ss) (simp_all add: append_to_def)

lemma samples_of_fold:
  "samples_of (foldl (om.bump append_to) [] kas) name = map snd (filter (\<lambda>ka. fst ka = name) kas)"
proof (cases "filter (\<lambda>ka. fst ka = name) kas")
  case Nil
  then show ?thesis by (simp add: samples_of_def om.look_fold_bump)
next
  case (Cons a as)
  then show ?thesis
    by (simp add: samples_of_def om.look_fold_bump append_to_def foldl_append_to [unfolded append_to_def])
qed

lemma printed_line_no_newline:
  assumes "number_printer pr" and "line_ok l"
  shows "CHR 0x0A \<notin> set (expose_line pr l)"
proof (cases l)
  case (Sample name ls v)
  have n: "name_ok name" and L: "labels_ok ls" and v: "number_ok v" using assms(2) by (simp_all add: Sample)
  have "\<forall>c \<in> set name. \<not> is_ws c" using n by (simp add: name_ok_def)
  then have "CHR 0x0A \<notin> set name" using ws_facts(2) by blast
  moreover have "CHR 0x0A \<notin> set (label_text kv)" if kv: "kv \<in> set ls" for kv
  proof -
    have "key_ok (fst kv)" and v: "val_ok (snd kv)" using L kv by (simp_all add: labels_ok_def)
    then have "\<forall>c \<in> set (fst kv). \<not> is_ws c" by (simp add: key_ok_def)
    then have "CHR 0x0A \<notin> set (fst kv)" using ws_facts(2) by blast
    moreover have "CHR 0x0A \<notin> set (snd kv)" using v by (auto simp: val_ok_def)
    ultimately show ?thesis using escape_val_ok [OF v] by (simp add: label_text_def)
  qed
  then have "CHR 0x0A \<notin> set (join '','' (map label_text ls))"
    using set_join [of "'',''" "map label_text ls"] by auto
  ultimately show ?thesis using pr_facts(3) [OF assms(1) v] by (simp add: Sample)
qed (use assms in simp_all)

text \<open>The samples of a name, in the order of their lines.\<close>

definition printed_samples :: "line list \<Rightarrow> string \<Rightarrow> metric_sample list" where
  "printed_samples ls name = map snd (filter (\<lambda>ka. fst ka = name) (List.map_filter line_sample ls))"

lemma split_lines:
  "\<forall>w \<in> set ws. c \<notin> set w \<Longrightarrow> split_on c (concat (map (\<lambda>w. w @ [c]) ws)) = ws @ [[]]"
  by (induction ws) (simp_all add: split_on_append)

lemma samples_of_printed:
  assumes "number_printer pr" and "\<forall>l \<in> set ls. line_ok l"
  shows "samples_of (parsePrometheusText (expose pr ls)) name = printed_samples ls name"
proof -
  have "\<forall>w \<in> set (map (expose_line pr) ls). CHR 0x0A \<notin> set w"
    using assms printed_line_no_newline by auto
  from split_lines [OF this] have "split_on CHR 0x0A (expose pr ls) = map (expose_line pr) ls @ [[]]"
    by (simp add: expose_def o_def)
  moreover have "parse_line m [] = m" for m by (simp add: parse_line_def read_line_def)
  ultimately show ?thesis
    by (simp add: parsePrometheusText_def fold_printed_lines [OF assms] samples_of_fold printed_samples_def)
qed

section \<open>Selection\<close>

lemma matches_iff: "matches flt s \<longleftrightarrow> (\<forall>kv \<in> set flt. om_get (ms_labels s) (fst kv) = Some (snd kv))"
  by (induction flt s rule: matches.induct) auto

lemma matches_fun:
  "matches flt = (\<lambda>s. \<forall>kv \<in> set flt. om_get (ms_labels s) (fst kv) = Some (snd kv))"
  by (simp add: fun_eq_iff matches_iff)

lemma latest_loop_rev:
  "latest_loop flt (rev ss) =
     (case filter (matches flt) ss of [] \<Rightarrow> Fin 0 | _ \<Rightarrow> ms_value (last (filter (matches flt) ss)))"
proof (induction ss rule: rev_induct)
  case (snoc s ss)
  then show ?case by (cases "filter (matches flt) ss") auto
qed simp

lemma om_ok_transitions: "om_ok res \<Longrightarrow> om_ok (foldl (add_transition p) res ss)"
  by (induction ss arbitrary: res) (auto simp: add_transition_def obj_set_ok)

definition value_nat :: "metric_sample \<Rightarrow> nat" where
  "value_nat s = (case ms_value s of Fin q \<Rightarrow> nat \<lfloor>q\<rfloor> | _ \<Rightarrow> 0)"

definition transitions_to :: "string \<Rightarrow> string \<Rightarrow> metric_sample list \<Rightarrow> metric_sample list" where
  "transitions_to p st ss =
     filter (\<lambda>s. om_get (ms_labels s) ''plan_id'' = Some p \<and> to_state_of s = st) ss"

lemma old_count_plus:
  assumes "a + b \<le> 2 ^ 53"
  shows "count_plus (old_count k (Some (Count (Fin (of_nat a))))) (Fin (of_nat b)) =
    Count (Fin (of_nat (a + b)))"
proof -
  have "js_add (Fin (of_nat a)) (Fin (of_nat b)) = Fin (of_nat (a + b))"
    using fl_of_nat [OF assms] by simp
  then show ?thesis by (cases "a = 0") (simp_all add: old_count_def js_truthy_def)
qed

lemma old_count_first:
  "b \<le> 2 ^ 53 \<Longrightarrow> k \<notin> set inherited_names \<Longrightarrow>
     count_plus (old_count k None) (Fin (of_nat b)) = Count (Fin (of_nat b))"
  by (simp add: old_count_def)

lemma transitions_fold_Some:
  assumes "\<forall>s \<in> set ss. ms_value s = Fin (of_nat (value_nat s))"
    and "st \<notin> set inherited_names"
    and "om_get res st = Some (Count (Fin (of_nat a)))"
    and "a + sum_list (map value_nat (transitions_to p st ss)) \<le> 2 ^ 53"
  shows "om_get (foldl (add_transition p) res ss) st =
    Some (Count (Fin (of_nat (a + sum_list (map value_nat (transitions_to p st ss))))))"
  using assms
proof (induction ss arbitrary: res a)
  case (Cons s ss)
  have proto: "st \<noteq> ''__proto__''" using Cons.prems(2) by (auto simp: inherited_names_def)
  show ?case
  proof (cases "om_get (ms_labels s) ''plan_id'' = Some p \<and> to_state_of s = st")
    case True
    let ?b = "value_nat s"
    have "a + ?b \<le> 2 ^ 53" using Cons.prems(4) True by (simp add: transitions_to_def)
    then have "om_get (add_transition p res s) st = Some (Count (Fin (of_nat (a + ?b))))"
      using Cons.prems(1,3) True proto old_count_plus [of a ?b st]
      by (simp add: add_transition_def obj_get_set)
    then show ?thesis
      using Cons.IH [of "add_transition p res s" "a + ?b"] Cons.prems True
      by (simp add: transitions_to_def add.assoc)
  next
    case False
    then have "om_get (add_transition p res s) st = om_get res st"
      by (auto simp: add_transition_def obj_get_set)
    then show ?thesis
      using Cons.IH [of "add_transition p res s" a] Cons.prems False
      by (auto simp: transitions_to_def)
  qed
qed (simp add: transitions_to_def)

lemma transitions_fold_None:
  assumes "\<forall>s \<in> set ss. ms_value s = Fin (of_nat (value_nat s))"
    and "st \<notin> set inherited_names"
    and "om_get res st = None"
    and "sum_list (map value_nat (transitions_to p st ss)) \<le> 2 ^ 53"
  shows "om_get (foldl (add_transition p) res ss) st =
    (if transitions_to p st ss = [] then None
     else Some (Count (Fin (of_nat (sum_list (map value_nat (transitions_to p st ss)))))))"
  using assms
proof (induction ss arbitrary: res)
  case (Cons s ss)
  have proto: "st \<noteq> ''__proto__''" using Cons.prems(2) by (auto simp: inherited_names_def)
  show ?case
  proof (cases "om_get (ms_labels s) ''plan_id'' = Some p \<and> to_state_of s = st")
    case True
    let ?b = "value_nat s"
    have "?b \<le> 2 ^ 53" using Cons.prems(4) True by (simp add: transitions_to_def)
    then have "om_get (add_transition p res s) st = Some (Count (Fin (of_nat ?b)))"
      using Cons.prems True proto old_count_first [of ?b st]
      by (simp add: add_transition_def obj_get_set)
    then show ?thesis
      using transitions_fold_Some [of ss st "add_transition p res s" ?b p] Cons.prems True
      by (simp add: transitions_to_def)
  next
    case False
    then have "om_get (add_transition p res s) st = None"
      using Cons.prems(3) by (auto simp: add_transition_def obj_get_set)
    then show ?thesis
      using Cons.IH [of "add_transition p res s"] Cons.prems False
      by (auto simp: transitions_to_def)
  qed
qed (simp add: transitions_to_def)

section \<open>Properties\<close>



lemma escape_grows:
  "length (filter (\<lambda>c. c = CHR 0x5C) (escape_value v)) =
     length (filter (\<lambda>c. c = CHR 0x5C) v) +
     length (filter (\<lambda>c. c = CHR 0x5C \<or> c = CHR 0x22 \<or> c = CHR 0x0A) v)"
  by (induction v) (auto simp: escape_char_def)

lemma filter_dropWhile_not: "(\<And>x. Q x \<Longrightarrow> \<not> P x) \<Longrightarrow> filter P (dropWhile Q xs) = filter P xs"
  by (induction xs) auto

lemma filter_trim: "(\<And>c. is_ws c \<Longrightarrow> \<not> P c) \<Longrightarrow> filter P (trim s) = filter P s"
  by (simp add: trim_def trim_start_def trim_end_def filter_dropWhile_not flip: rev_filter)

lemma hd_trim_start: "trim_start s \<noteq> [] \<Longrightarrow> \<not> is_ws (hd (trim_start s))"
  by (simp add: trim_start_def hd_dropWhile)

lemma trim_idem: "trim (trim s) = trim s"
proof (cases "trim s = []")
  case False
  have e: "trim_end (trim_start s) \<noteq> []" using False by (simp add: trim_def)
  define r where "r = rev (trim_start s)"
  have r: "dropWhile is_ws r \<noteq> []" using e by (simp add: trim_end_def r_def)
  obtain p where p: "r = p @ dropWhile is_ws r" using takeWhile_dropWhile_id [of is_ws r] by metis
  then have "trim_start s = rev (dropWhile is_ws r) @ rev p" by (metis r_def rev_append rev_rev_ident)
  then have "hd (rev (dropWhile is_ws r)) = hd (trim_start s)" using r by simp
  then have hd: "\<not> is_ws (hd (trim s))"
    using hd_trim_start [of s] r by (cases "trim_start s = []") (simp_all add: trim_def trim_end_def r_def)
  then have "trim_start (trim s) = trim s" using False by (cases "trim s") (simp_all add: trim_start_def)
  then have "trim (trim s) = trim_end (trim_end (trim_start s))" by (simp add: trim_def)
  also have "\<dots> = trim s" by (simp add: trim_end_def trim_def dropWhile_eq_self_iff hd_dropWhile)
  finally show ?thesis .
qed simp

lemma escape_trim_eq: "trim (escape_value v) = v \<longleftrightarrow> trim v = v \<and> (\<forall>c \<in> set v. c \<noteq> CHR 0x22 \<and> c \<noteq> CHR 0x0A \<and> c \<noteq> CHR 0x5C)"
proof
  assume v: "trim (escape_value v) = v"
  have "\<And>c. is_ws c \<Longrightarrow> c \<noteq> CHR 0x5C" by (auto simp: is_ws_def)
  then have "filter (\<lambda>c. c = CHR 0x5C) (trim (escape_value v)) = filter (\<lambda>c. c = CHR 0x5C) (escape_value v)"
    by (rule filter_trim)
  then have "filter (\<lambda>c. c = CHR 0x5C \<or> c = CHR 0x22 \<or> c = CHR 0x0A) v = []" using escape_grows [of v] v by simp
  then have "\<forall>c \<in> set v. c \<noteq> CHR 0x22 \<and> c \<noteq> CHR 0x0A \<and> c \<noteq> CHR 0x5C" by (auto simp: filter_empty_conv)
  moreover have "trim v = v" using trim_idem [of "escape_value v"] v by simp
  ultimately show "trim v = v \<and> (\<forall>c \<in> set v. c \<noteq> CHR 0x22 \<and> c \<noteq> CHR 0x0A \<and> c \<noteq> CHR 0x5C)" by blast
next
  assume "trim v = v \<and> (\<forall>c \<in> set v. c \<noteq> CHR 0x22 \<and> c \<noteq> CHR 0x0A \<and> c \<noteq> CHR 0x5C)"
  then show "trim (escape_value v) = v" by (simp add: escape_value_plain)
qed

text \<open>
  C34: which label values are read back. The exposition of a label whose value has no comma and no closing
  brace is read as its escaped text without the white space at its ends, because the reader does not undo
  the escapes of the format. So it is read as the value it has exactly when the value has no white space
  at its ends and neither a backslash, a quote nor a line break.
\<close>

theorem escapes_are_kept:
  assumes "key_ok k" and "CHR '','' \<notin> set v" and "CHR ''}'' \<notin> set v"
  shows "parseLabels (CHR ''{'' # label_text (k, v) @ ''}'') = [(k, trim (escape_value v))] \<and>
    (trim (escape_value v) = v \<longleftrightarrow>
       trim v = v \<and> CHR 0x5C \<notin> set v \<and> CHR 0x22 \<notin> set v \<and> CHR 0x0A \<notin> set v)"
proof -
  have "CHR '','' \<notin> set (label_text (k, v))"
    using assms escape_value_chars [of "CHR '',''" v] by (auto simp: label_text_def key_ok_def)
  then have "parseLabels (CHR ''{'' # label_text (k, v) @ ''}'') = [(k, trim (escape_value v))]"
    by (simp add: parseLabels_def strip_first_def strip_last_def parse_label_escaped [OF assms(1)])
  then show ?thesis using escape_trim_eq [of v] by blast
qed

theorem escapes_are_kept_witness:
  "parseLabels (CHR ''{'' # label_text (''plan_id'', [CHR ''a'', CHR 0x5C, CHR ''b'']) @ ''}'') =
     [(''plan_id'', [CHR ''a'', CHR 0x5C, CHR 0x5C, CHR ''b''])]"
proof -
  have "key_ok ''plan_id''" by (simp add: key_ok_def is_ws_def)
  moreover have "trim [CHR ''a'', CHR 0x5C, CHR 0x5C, CHR ''b''] = [CHR ''a'', CHR 0x5C, CHR 0x5C, CHR ''b'']"
    by (simp add: is_ws_def trim_def trim_start_def trim_end_def)
  ultimately show ?thesis
    using escapes_are_kept [of "''plan_id''" "[CHR ''a'', CHR 0x5C, CHR ''b'']"] by (simp add: escape_char_def)
qed

text \<open>
  On exposed text, \<^verbatim>\<open>getLatest\<close> is the value of the last finite sample of the metric that carries every
  label of the filter, and zero when no sample does.
\<close>

theorem latest_is_last_match:
  assumes "number_printer pr" and "\<forall>l \<in> set ls. line_ok l"
  shows "getLatest (parsePrometheusText (expose pr ls)) name flt =
    (let hits = filter (\<lambda>s. \<forall>kv \<in> set flt. om_get (ms_labels s) (fst kv) = Some (snd kv))
                  (printed_samples ls name)
     in if hits = [] then Fin 0 else ms_value (last hits))"
  by (simp add: getLatest_def samples_of_printed [OF assms] latest_loop_rev matches_fun Let_def
      split: list.split)

theorem latest_is_last_match_witness:
  "getLatest (parsePrometheusText (expose go_text
      [Sample ''m'' [(''k'', ''a'')] (Fin 1), Sample ''m'' [(''k'', ''a'')] (Fin 2), Sample ''m'' [(''k'', ''b'')] (Fin 3)]))
      ''m'' [(''k'', ''a'')] = Fin 2"
  using double_number_numeral [of "num.Bit0 num.One"] double_number_numeral [of "num.Bit1 num.One"] double_number_small
  by (subst latest_is_last_match [OF go_text_printer])
    (simp_all add: printed_samples_def name_ok_def labels_ok_def om_ok_def key_ok_def val_ok_def number_ok_def
      is_ws_def trim_def trim_start_def trim_end_def map_filter_simps sample_def om_get_def double_number_def)

text \<open>
  The backfill percentage lies between 0 and 100 whenever the gauges read
  \<open>0 \<le> done \<le> total\<close>, rounding included; it is exactly 100 when a non-empty backfill is done,
  and 0 when the total is 0.
\<close>

theorem backfill_pct_range:
  assumes "getLatest m ''migrate_backfill_rows_done'' [(''migration_id'', i), (''plan_id'', p)] = Fin d"
    and "getLatest m ''migrate_backfill_rows_total'' [(''migration_id'', i), (''plan_id'', p)] = Fin t"
    and "0 \<le> d" and "d \<le> t"
  shows "\<exists>q. mm_backfillPct (extractMigrationMetrics m i p) = Fin q \<and> 0 \<le> q \<and> q \<le> 100 \<and>
    (t = 0 \<longrightarrow> q = 0) \<and> (0 < t \<and> d = t \<longrightarrow> q = 100)"
proof (cases "t = 0")
  case True
  then show ?thesis using assms by (simp add: extractMigrationMetrics_def Let_def)
next
  case False
  then have "0 < t" using assms by simp
  then show ?thesis
    using assms js_percent_range [of d t] js_percent_full [of t]
    by (auto simp: extractMigrationMetrics_def Let_def)
qed

theorem backfill_pct_range_witness:
  "\<exists>q. mm_backfillPct (extractMigrationMetrics
       [(''migrate_backfill_rows_done'', [sample [(''migration_id'', ''i''), (''plan_id'', ''p'')] (Fin 3)]),
        (''migrate_backfill_rows_total'', [sample [(''migration_id'', ''i''), (''plan_id'', ''p'')] (Fin 7)])]
       ''i'' ''p'') = Fin q \<and> 0 \<le> q \<and> q \<le> 100"
  using backfill_pct_range [of
      "[(''migrate_backfill_rows_done'', [sample [(''migration_id'', ''i''), (''plan_id'', ''p'')] (Fin 3)]),
        (''migrate_backfill_rows_total'', [sample [(''migration_id'', ''i''), (''plan_id'', ''p'')] (Fin 7)])]"
      "''i''" "''p''" 3 7]
  by (simp add: getLatest_def samples_of_def om_get_def sample_def)

text \<open>
  C33: for a state whose name is not that of a member every object inherits, the transition
  count is exactly the sum of the plan's samples into that state (counters are whole numbers;
  the sum must stay within the \<open>2^53\<close> that a number represents exactly), and the state is
  absent when there is no such sample.
\<close>

theorem transition_counts_exact:
  assumes "\<forall>s \<in> set (samples_of m ''migrate_state_transitions_total'').
      ms_value s = Fin (of_nat (value_nat s))"
    and "st \<notin> set inherited_names"
    and "sum_list (map value_nat (transitions_to p st (samples_of m ''migrate_state_transitions_total''))) \<le> 2 ^ 53"
  shows "om_get (getTransitions m p) st =
    (let hits = transitions_to p st (samples_of m ''migrate_state_transitions_total'')
     in if hits = [] then None else Some (Count (Fin (of_nat (sum_list (map value_nat hits))))))"
  using transitions_fold_None [OF assms(1,2) _ assms(3), of "[]"]
  by (simp add: getTransitions_def om_get_obj_entries om_ok_transitions om.ok_emp Let_def)

theorem transition_counts_exact_witness:
  "om_get (getTransitions [(''migrate_state_transitions_total'',
      [sample [(''plan_id'', ''p''), (''to_state'', ''Done'')] (Fin 2),
       sample [(''plan_id'', ''q''), (''to_state'', ''Done'')] (Fin 9),
       sample [(''plan_id'', ''p''), (''to_state'', ''Done'')] (Fin 3)])] ''p'') ''Done'' = Some (Count (Fin 5))"
  by (subst transition_counts_exact)
    (simp_all add: samples_of_def om_get_def sample_def value_nat_def inherited_names_def
      transitions_to_def to_state_of_def)

text \<open>
  A label value with a comma is cut at the comma. However its value goes on (without
  further commas), and whatever key it has, the label is stored with the part before the
  comma only; the rest is dropped, unless it contains an equals sign.
\<close>

theorem label_value_cut_at_comma:
  assumes "key_ok k" and "val_ok a" and "a \<noteq> []"
    and "CHR '','' \<notin> set b" and "CHR ''='' \<notin> set b"
  shows "parseLabels (CHR ''{'' # k @ CHR ''='' # CHR 0x22 # a @ CHR '','' # b @ [CHR 0x22, CHR ''}'']) = [(k, a)]"
proof -
  have notin: "CHR '','' \<notin> set (k @ CHR ''='' # CHR 0x22 # a)"
    using assms by (auto simp: key_ok_def val_ok_def)
  have "split_on CHR '','' ((k @ CHR ''='' # CHR 0x22 # a) @ CHR '','' # b @ [CHR 0x22]) =
      [k @ CHR ''='' # CHR 0x22 # a, b @ [CHR 0x22]]"
    using assms(4) by (simp only: split_on_append [OF notin]) simp
  then have parts: "split_on CHR '','' (k @ CHR ''='' # CHR 0x22 # a @ CHR '','' # b @ [CHR 0x22]) =
      [k @ CHR ''='' # CHR 0x22 # a, b @ [CHR 0x22]]" by simp
  have "CHR ''='' \<notin> set k" and "k \<noteq> ''__proto__''" using assms(1) by (auto simp: key_ok_def)
  moreover have "strip_quotes (CHR 0x22 # a) = a"
    using assms(2,3) last_in_set [of a] by (auto simp: strip_quotes_def strip_first_def strip_last_def val_ok_def)
  ultimately have "parse_label_pair [] (k @ CHR ''='' # CHR 0x22 # a) = [(k, a)]"
    using trim_key [OF assms(1)] assms(2)
    by (simp add: parse_label_pair_def index_of_append obj_set_def val_ok_def)
  then show ?thesis
    using assms(5)
    by (simp add: parseLabels_def strip_first_def strip_last_def parts parse_label_pair_def butlast_append)
qed

theorem label_value_cut_at_comma_witness:
  "parseLabels (CHR ''{'' # ''plan_id'' @ CHR ''='' # CHR 0x22 # ''a'' @ CHR '','' # ''b'' @ [CHR 0x22, CHR ''}'']) =
     [(''plan_id'', ''a'')]"
  by (rule label_value_cut_at_comma)
    (simp_all add: key_ok_def val_ok_def is_ws_def trim_def trim_start_def trim_end_def)

end
