(* ===== verification/Api.thy ===== *)
theory Api
  imports Http
begin

text \<open>
  \<^verbatim>\<open>frontend/src/lib/api.ts\<close>: the client of the engine's HTTP interface. Its state is the
  cached token and the browser's local storage, which it shares with later page loads; every
  method is a definition that takes \<^verbatim>\<open>fetch\<close> and the client, and returns the settled result
  with the client afterwards (reading the token may fill the cache).
\<close>

section \<open>The client and its token\<close>

record api_client =
  ac_base :: string
  ac_token :: "string option"
  ac_storage :: "string \<Rightarrow> string option"

definition TOKEN_KEY :: string where
  "TOKEN_KEY = ''mse_token''"

text \<open>A string that is null, undefined or empty is false.\<close>

definition truthy_str :: "string option \<Rightarrow> bool" where
  "truthy_str t \<longleftrightarrow> t \<noteq> None \<and> t \<noteq> Some []"

definition fresh_client :: "(string \<Rightarrow> string option) \<Rightarrow> api_client" where
  "fresh_client storage = \<lparr> ac_base = [], ac_token = None, ac_storage = storage \<rparr>"

definition setToken :: "string option \<Rightarrow> api_client \<Rightarrow> api_client" where
  "setToken tok c =
     c\<lparr> ac_token := tok,
        ac_storage := (ac_storage c)(TOKEN_KEY := (if truthy_str tok then tok else None)) \<rparr>"

definition getToken :: "api_client \<Rightarrow> string option \<times> api_client" where
  "getToken c =
     (let c' = (if truthy_str (ac_token c) then c else c\<lparr> ac_token := ac_storage c TOKEN_KEY \<rparr>)
      in (ac_token c', c'))"

definition headers :: "(string \<times> string) list \<Rightarrow> api_client \<Rightarrow> (string \<times> string) list \<times> api_client" where
  "headers extra c =
     (let (tok, c') = getToken c in
      (if truthy_str tok then obj_set ''Authorization'' (''Bearer '' @ the tok) extra else extra, c'))"

section \<open>Calls\<close>

definition XHR :: "(string \<times> string) list" where
  "XHR = [(''X-Requested-With'', ''XMLHttpRequest'')]"

definition JSON_TYPE :: "(string \<times> string) list" where
  "JSON_TYPE = [(''Content-Type'', ''application/json'')]"

text \<open>The request of a method that sends \<^verbatim>\<open>this.headers(extra)\<close>, and its \<^verbatim>\<open>fetch\<close> call.\<close>

definition prepare ::
  "http_method \<Rightarrow> string \<Rightarrow> (string \<times> string) list \<Rightarrow> body \<Rightarrow> api_client \<Rightarrow> request \<times> api_client" where
  "prepare m path extra b c =
     (let (hs, c') = headers extra c
      in (\<lparr> rq_method = m, rq_url = ac_base c @ path, rq_headers = hs, rq_body = b \<rparr>, c'))"

definition send ::
  "'j fetch \<Rightarrow> http_method \<Rightarrow> string \<Rightarrow> (string \<times> string) list \<Rightarrow> body \<Rightarrow> api_client \<Rightarrow>
     'j response result \<times> api_client" where
  "send fetch m path extra b c =
     (let (rq, c') = prepare m path extra b c in (fetch rq, c'))"

text \<open>The two ways a method ends: returning the decoded body, or nothing.\<close>

definition json_or :: "('j response \<Rightarrow> unit result) \<Rightarrow> 'j response result \<Rightarrow> 'j result" where
  "json_or check r = bind_result r (\<lambda>res. bind_result (check res) (\<lambda>_. rs_json res))"

definition unit_or :: "('j response \<Rightarrow> unit result) \<Rightarrow> 'j response result \<Rightarrow> unit result" where
  "unit_or check r = bind_result r check"

definition health :: "'j fetch \<Rightarrow> api_client \<Rightarrow> string result" where
  "health fetch c =
     bind_result (fetch \<lparr> rq_method = GET, rq_url = ac_base c @ ''/healthz'', rq_headers = [], rq_body = NoBody \<rparr>)
       (\<lambda>res. bind_result (check_status ''health check failed'' res) (\<lambda>_. rs_text res))"

record login_reply =
  lr_token :: "string option"
  lr_role :: "string option"

definition login :: "login_reply fetch \<Rightarrow> string \<Rightarrow> string \<Rightarrow> api_client \<Rightarrow> login_reply result \<times> api_client" where
  "login fetch username password c =
     (let r = fetch \<lparr> rq_method = POST, rq_url = ac_base c @ ''/auth/login'',
                       rq_headers = JSON_TYPE, rq_body = Credentials username password \<rparr>
      in case json_or (check_status_text ''login failed'') r of
           Inl e \<Rightarrow> (Inl e, c)
         | Inr data \<Rightarrow> (Inr data, setToken (lr_token data) c))"

definition logout :: "api_client \<Rightarrow> api_client" where
  "logout c = setToken None c"

definition getMigration :: "migration_record fetch \<Rightarrow> string \<Rightarrow> api_client \<Rightarrow> migration_record result \<times> api_client" where
  "getMigration fetch i c =
     (let (r, c') = send fetch GET (''/migrations/'' @ i) XHR NoBody c
      in (json_or (check_status ''get migration'') r, c'))"

definition submitPlan :: "plan_submission fetch \<Rightarrow> plan_body \<Rightarrow> api_client \<Rightarrow> plan_submission result \<times> api_client" where
  "submitPlan fetch p c =
     (let (r, c') = send fetch POST ''/plans'' JSON_TYPE (PlanBody p) c
      in (json_or (check_status_text ''submit plan'') r, c'))"

definition driftScan :: "drift_report fetch \<Rightarrow> plan_body \<Rightarrow> api_client \<Rightarrow> drift_report result \<times> api_client" where
  "driftScan fetch p c =
     (let (r, c') = send fetch POST ''/drift-scan'' JSON_TYPE (PlanBody p) c
      in (json_or (check_status_text ''drift scan'') r, c'))"

text \<open>The engine encodes an empty list as \<^verbatim>\<open>null\<close>: the decoded body is optional.\<close>

definition listMigrations ::
  "migration_record list option fetch \<Rightarrow> api_client \<Rightarrow> migration_record list option result \<times> api_client" where
  "listMigrations fetch c =
     (let (r, c') = send fetch GET ''/migrations'' [] NoBody c
      in (json_or (check_status ''list migrations'') r, c'))"

definition resetDemo :: "unit fetch \<Rightarrow> api_client \<Rightarrow> unit result \<times> api_client" where
  "resetDemo fetch c =
     (let (r, c') = send fetch POST ''/reset-demo'' [] NoBody c
      in (unit_or (check_status ''reset demo'') r, c'))"

definition abortMigration :: "unit fetch \<Rightarrow> string \<Rightarrow> api_client \<Rightarrow> unit result \<times> api_client" where
  "abortMigration fetch i c =
     (let (r, c') = send fetch POST (''/migrations/'' @ i @ ''/abort'') [] NoBody c
      in (unit_or (check_status ''abort migration'') r, c'))"

definition deleteMigrations :: "unit fetch \<Rightarrow> string list \<Rightarrow> api_client \<Rightarrow> unit result \<times> api_client" where
  "deleteMigrations fetch ids c =
     (let (r, c') = send fetch DELETE ''/migrations'' JSON_TYPE (IdsBody ids) c
      in (unit_or (check_status_text ''delete migrations'') r, c'))"

text \<open>
  \<^verbatim>\<open>encodeURIComponent\<close> on Latin-1: letters, digits and \<^verbatim>\<open>-_.!~*'()\<close> stay, any other
  character becomes the percent-encoding of its one or two UTF-8 bytes.
\<close>

definition hex_digit :: "nat \<Rightarrow> char" where
  "hex_digit d = (if d < 10 then char_of (48 + d) else char_of (55 + d))"

definition percent_byte :: "nat \<Rightarrow> string" where
  "percent_byte b = [CHR ''%'', hex_digit (b div 16), hex_digit (b mod 16)]"

definition is_unreserved :: "char \<Rightarrow> bool" where
  "is_unreserved c \<longleftrightarrow>
     (let n = (of_char c :: nat) in
      (48 \<le> n \<and> n \<le> 57) \<or> (65 \<le> n \<and> n \<le> 90) \<or> (97 \<le> n \<and> n \<le> 122)) \<or>
     c \<in> set ''-_.!~*()'' \<or> c = CHR 0x27"

definition encode_char :: "char \<Rightarrow> string" where
  "encode_char c =
     (let n = (of_char c :: nat) in
      if is_unreserved c then [c]
      else if n < 128 then percent_byte n
      else percent_byte (192 + n div 64) @ percent_byte (128 + n mod 64))"

definition encodeURIComponent :: "string \<Rightarrow> string" where
  "encodeURIComponent s = concat (map encode_char s)"

definition fetchSchema :: "schema_response fetch \<Rightarrow> string \<Rightarrow> api_client \<Rightarrow> schema_response result \<times> api_client" where
  "fetchSchema fetch tbl c =
     (let (r, c') = send fetch GET (''/schema/'' @ encodeURIComponent tbl) [] NoBody c
      in (json_or (check_status_text ''fetch schema'') r, c'))"

definition getSafetyMetrics :: "safety_metrics fetch \<Rightarrow> string \<Rightarrow> api_client \<Rightarrow> safety_metrics result \<times> api_client" where
  "getSafetyMetrics fetch i c =
     (let (r, c') = send fetch GET (''/migrations/'' @ i @ ''/safety'') XHR NoBody c
      in (json_or (check_status ''get safety metrics'') r, c'))"

definition getBackfillProgress ::
  "backfill_progress_response fetch \<Rightarrow> string \<Rightarrow> api_client \<Rightarrow> backfill_progress_response result \<times> api_client" where
  "getBackfillProgress fetch i c =
     (let (r, c') = send fetch GET (''/migrations/'' @ i @ ''/backfill'') XHR NoBody c
      in (json_or (check_status ''get backfill progress'') r, c'))"

definition getCanaryObservations ::
  "canary_observations_response fetch \<Rightarrow> string \<Rightarrow> api_client \<Rightarrow> canary_observations_response result \<times> api_client" where
  "getCanaryObservations fetch i c =
     (let (r, c') = send fetch GET (''/migrations/'' @ i @ ''/canary'') XHR NoBody c
      in (json_or (check_status ''get canary observations'') r, c'))"

section \<open>The contract of a token store\<close>

text \<open>
  What the pages rely on: a token that was set is read back, also by the client of a later
  page load over the same storage, until it is cleared. The laws are stated for any
  operations with this shape; the client's lemmas are proved from them alone.
\<close>

locale token_store =
  fixes put :: "string \<Rightarrow> 's \<Rightarrow> 's"
    and clear :: "'s \<Rightarrow> 's"
    and get :: "'s \<Rightarrow> string option \<times> 's"
    and reload :: "'s \<Rightarrow> 's"
    and coherent :: "'s \<Rightarrow> bool"
  assumes put_coherent: "t \<noteq> [] \<Longrightarrow> coherent s \<Longrightarrow> coherent (put t s)"
    and clear_coherent: "coherent s \<Longrightarrow> coherent (clear s)"
    and get_coherent: "coherent s \<Longrightarrow> coherent (snd (get s))"
    and reload_coherent: "coherent s \<Longrightarrow> coherent (reload s)"
    and get_put: "t \<noteq> [] \<Longrightarrow> fst (get (put t s)) = Some t"
    and get_clear: "fst (get (clear s)) = None"
    and get_get: "coherent s \<Longrightarrow> fst (get (snd (get s))) = fst (get s)"
    and get_reload: "coherent s \<Longrightarrow> fst (get (reload s)) = fst (get s)"
begin

text \<open>Reads and page loads, in any number and order, do not change what is read.\<close>

inductive quiet :: "'s \<Rightarrow> 's \<Rightarrow> bool" where
  quiet_refl: "quiet s s"
| quiet_get: "quiet s t \<Longrightarrow> quiet s (snd (get t))"
| quiet_reload: "quiet s t \<Longrightarrow> quiet s (reload t)"

lemma quiet_reads_same: "quiet s t \<Longrightarrow> coherent s \<Longrightarrow> coherent t \<and> fst (get t) = fst (get s)"
  by (induction rule: quiet.induct) (auto simp: get_coherent reload_coherent get_get get_reload)

lemma put_then_quiet:
  assumes "t \<noteq> []" and "coherent s" and "quiet (put t s) s'"
  shows "fst (get s') = Some t"
  using quiet_reads_same [OF assms(3) put_coherent [OF assms(1,2)]] get_put [OF assms(1)] by simp

lemma clear_then_quiet:
  assumes "coherent s" and "quiet (clear s) s'"
  shows "fst (get s') = None"
  using quiet_reads_same [OF assms(2) clear_coherent [OF assms(1)]] get_clear by simp

end

definition reload_client :: "api_client \<Rightarrow> api_client" where
  "reload_client c = (fresh_client (ac_storage c))\<lparr> ac_base := ac_base c \<rparr>"

text \<open>A cached token, where there is one, is the stored one; an empty one is never stored.\<close>

definition coherent :: "api_client \<Rightarrow> bool" where
  "coherent c \<longleftrightarrow>
     (truthy_str (ac_token c) \<longrightarrow> ac_storage c TOKEN_KEY = ac_token c) \<and>
     ac_storage c TOKEN_KEY \<noteq> Some []"

lemma truthy_str_simps [simp]:
  "\<not> truthy_str None" "truthy_str (Some t) \<longleftrightarrow> t \<noteq> []"
  by (simp_all add: truthy_str_def)

lemma coherent_fresh: "storage TOKEN_KEY \<noteq> Some [] \<Longrightarrow> coherent (fresh_client storage)"
  by (simp add: coherent_def fresh_client_def)

lemma coherent_setToken: "coherent (setToken tok c)"
  by (auto simp: coherent_def setToken_def truthy_str_def)

lemma coherent_getToken: "coherent c \<Longrightarrow> coherent (snd (getToken c))"
  by (auto simp: coherent_def getToken_def Let_def)

lemma coherent_headers: "coherent c \<Longrightarrow> coherent (snd (headers extra c))"
  using coherent_getToken [of c] by (simp add: headers_def case_prod_beta Let_def)

lemma coherent_reload: "coherent c \<Longrightarrow> coherent (reload_client c)"
  by (simp add: coherent_def reload_client_def fresh_client_def)

text \<open>On a coherent client, the token read is the stored one.\<close>

lemma fst_getToken: "coherent c \<Longrightarrow> fst (getToken c) = ac_storage c TOKEN_KEY"
  by (auto simp: coherent_def getToken_def Let_def)

lemma storage_getToken [simp]: "ac_storage (snd (getToken c)) = ac_storage c"
  by (simp add: getToken_def Let_def)

interpretation tok: token_store "\<lambda>t. setToken (Some t)" logout getToken reload_client coherent
proof unfold_locales
  show "fst (getToken (setToken (Some t) s)) = Some t" if "t \<noteq> []" for t s
    using that by (simp add: getToken_def setToken_def)
  show "fst (getToken (logout s)) = None" for s
    by (simp add: getToken_def logout_def setToken_def)
  show "fst (getToken (snd (getToken s))) = fst (getToken s)" if "coherent s" for s
    using that by (simp add: fst_getToken coherent_getToken)
  show "fst (getToken (reload_client s)) = fst (getToken s)" if "coherent s" for s
    using that coherent_reload [OF that]
    by (simp add: fst_getToken) (simp add: reload_client_def fresh_client_def)
qed (simp_all add: coherent_setToken coherent_getToken coherent_reload logout_def)

section \<open>URL components\<close>

text \<open>The inverse of the encoding, as \<^verbatim>\<open>decodeURIComponent\<close> computes it on encoded Latin-1.\<close>

definition hex_value :: "char \<Rightarrow> nat" where
  "hex_value c = (let n = of_char c in if n < 58 then n - 48 else n - 55)"

fun decode_uri :: "string \<Rightarrow> string" where
  "decode_uri [] = []"
| "decode_uri [c] = [c]"
| "decode_uri [c, d] = [c, d]"
| "decode_uri (c # h # l # rest) =
     (if c \<noteq> CHR ''%'' then c # decode_uri (h # l # rest)
      else let b = 16 * hex_value h + hex_value l in
        if b < 128 then char_of b # decode_uri rest
        else (case rest of
            _ # h' # l' # rest' \<Rightarrow>
              char_of (64 * (b - 192) + (16 * hex_value h' + hex_value l' - 128)) # decode_uri rest'
          | _ \<Rightarrow> []))"

lemma hex_value_digit: "d < 16 \<Longrightarrow> hex_value (hex_digit d) = d"
  by (simp add: hex_value_def hex_digit_def Let_def)

lemma hex_pair: "b < 256 \<Longrightarrow> 16 * hex_value (hex_digit (b div 16)) + hex_value (hex_digit (b mod 16)) = b"
  by (simp add: hex_value_digit less_mult_imp_div_less)

lemma decode_plain: "c \<noteq> CHR ''%'' \<Longrightarrow> decode_uri (c # s) = c # decode_uri s"
  by (cases "c # s" rule: decode_uri.cases) simp_all

lemma decode_encode_char: "decode_uri (encode_char c @ s) = c # decode_uri s"
proof -
  define n where "n = (of_char c :: nat)"
  have n: "n < 256" "char_of n = c" by (simp_all add: n_def)
  consider "is_unreserved c" | "\<not> is_unreserved c" "n < 128" | "\<not> is_unreserved c" "\<not> n < 128"
    by blast
  then show ?thesis
  proof cases
    case 1
    moreover have "c \<noteq> CHR ''%''" using 1 by (auto simp: is_unreserved_def Let_def)
    ultimately show ?thesis by (simp add: encode_char_def decode_plain Let_def)
  next
    case 2
    then show ?thesis
      using n hex_pair [of n] by (simp add: encode_char_def percent_byte_def Let_def flip: n_def)
  next
    case 3
    have b1: "192 + n div 64 < 256" "\<not> 192 + n div 64 < 128" using n(1) by auto
    have b2: "128 + n mod 64 < (256 :: nat)"
      using mod_less_divisor [of 64 n] by linarith
    show ?thesis
      using 3 n hex_pair [OF b1(1)] hex_pair [OF b2] b1(2)
      by (simp add: encode_char_def percent_byte_def Let_def flip: n_def)
  qed
qed

lemma decode_encode: "decode_uri (encodeURIComponent s) = s"
  by (induction s) (simp_all add: encodeURIComponent_def decode_encode_char)

lemma hex_digit_unreserved: "d < 16 \<Longrightarrow> is_unreserved (hex_digit d)"
  by (simp add: is_unreserved_def hex_digit_def Let_def)

lemma encode_char_chars: "x \<in> set (encode_char c) \<Longrightarrow> is_unreserved x \<or> x = CHR ''%''"
proof -
  have lt: "(of_char c :: nat) < 256" by simp
  then have d: "of_char c div 16 < (16 :: nat)" "(192 + of_char c div 64) div 16 < (16 :: nat)"
    "(128 + of_char c mod 64) div 16 < (16 :: nat)" by linarith+
  assume "x \<in> set (encode_char c)"
  then show ?thesis
    using d by (auto simp: encode_char_def percent_byte_def Let_def hex_digit_unreserved split: if_splits)
qed

lemma encoded_chars: "x \<in> set (encodeURIComponent s) \<Longrightarrow> is_unreserved x \<or> x = CHR ''%''"
  by (induction s) (auto simp: encodeURIComponent_def dest: encode_char_chars)

section \<open>The path of a URL\<close>

text \<open>
  How a browser resolves an absolute path before it is requested (URL standard): the query and the
  fragment are cut off, the rest is split at the slashes, a backslash counting as one, and segments of
  one or two dots, percent-encoded or not, are removed, two dots with the segment before them.
\<close>

definition single_dot :: "string \<Rightarrow> bool" where
  "single_dot s \<longleftrightarrow> s \<in> {''.'', ''%2e'', ''%2E''}"

definition double_dot :: "string \<Rightarrow> bool" where
  "double_dot s \<longleftrightarrow>
     s \<in> {''..'', ''.%2e'', ''.%2E'', ''%2e.'', ''%2E.'', ''%2e%2e'', ''%2e%2E'', ''%2E%2e'', ''%2E%2E''}"

fun remove_dots :: "string list \<Rightarrow> string list \<Rightarrow> string list" where
  "remove_dots acc [] = acc"
| "remove_dots acc (s # r) =
     (if double_dot s then (if r = [] then butlast acc @ [[]] else remove_dots (butlast acc) r)
      else if single_dot s then (if r = [] then acc @ [[]] else remove_dots acc r)
      else remove_dots (acc @ [s]) r)"

definition url_path :: "string \<Rightarrow> string list" where
  "url_path url =
     remove_dots []
       (drop 1 (split_on CHR ''/''
          (map (\<lambda>c. if c = CHR 0x5C then CHR ''/'' else c)
             (takeWhile (\<lambda>c. c \<noteq> CHR ''?'' \<and> c \<noteq> CHR ''#'') url))))"

text \<open>Of these segments the encoding produces only the plain dots: it never escapes a dot.\<close>

lemma escaped_dots:
  "\<forall>x \<in> {''%2e'', ''%2E'', ''.%2e'', ''.%2E'', ''%2e.'', ''%2E.'', ''%2e%2e'', ''%2e%2E'', ''%2E%2e'', ''%2E%2E''}.
     encodeURIComponent (decode_uri x) \<noteq> x"
  by code_simp

lemma plain_dots:
  "encodeURIComponent ''.'' = ''.''" "encodeURIComponent ''..'' = ''..''" "decode_uri ''.'' = ''.''" "decode_uri ''..'' = ''..''"
  by code_simp+

lemma encoded_dots:
  "single_dot (encodeURIComponent t) \<longleftrightarrow> t = ''.''"
  "double_dot (encodeURIComponent t) \<longleftrightarrow> t = ''..''"
proof -
  have enc: "encodeURIComponent (decode_uri (encodeURIComponent t)) = encodeURIComponent t"
    by (simp add: decode_encode)
  then have "encodeURIComponent t \<notin> {''%2e'', ''%2E'', ''.%2e'', ''.%2E'', ''%2e.'', ''%2E.'', ''%2e%2e'', ''%2e%2E'', ''%2E%2e'', ''%2E%2E''}"
    using escaped_dots by blast
  then have "single_dot (encodeURIComponent t) \<longleftrightarrow> encodeURIComponent t = ''.''"
    "double_dot (encodeURIComponent t) \<longleftrightarrow> encodeURIComponent t = ''..''"
    by (simp_all add: single_dot_def double_dot_def)
  then show "single_dot (encodeURIComponent t) \<longleftrightarrow> t = ''.''" "double_dot (encodeURIComponent t) \<longleftrightarrow> t = ''..''"
    using decode_encode [of t] plain_dots by metis+
qed

lemma schema_path:
  "url_path (''/schema/'' @ encodeURIComponent t) =
     (if t = ''..'' then [[]] else if t = ''.'' then [''schema'', []] else [''schema'', encodeURIComponent t])"
proof -
  have x: "x \<noteq> CHR ''/'' \<and> x \<noteq> CHR ''?'' \<and> x \<noteq> CHR ''#'' \<and> x \<noteq> CHR 0x5C" if "x \<in> set (encodeURIComponent t)" for x
    using encoded_chars [OF that] by (auto simp: is_unreserved_def Let_def)
  let ?u = "''/schema/'' @ encodeURIComponent t"
  have tw: "takeWhile (\<lambda>c. c \<noteq> CHR ''?'' \<and> c \<noteq> CHR ''#'') ?u = ?u" using x by (intro takeWhile_eq_all_conv [THEN iffD2]) auto
  have mp: "map (\<lambda>c. if c = CHR 0x5C then CHR ''/'' else c) ?u = ?u" using x by (intro map_idI) auto
  have "CHR ''/'' \<notin> set (encodeURIComponent t)" using x by blast
  then have "split_on CHR ''/'' ?u = [[], ''schema'', encodeURIComponent t]"
    by simp
  then have "url_path ?u = remove_dots [] [''schema'', encodeURIComponent t]"
    unfolding url_path_def tw mp by simp
  moreover have "\<not> single_dot ''schema''" "\<not> double_dot ''schema''" by (simp_all add: single_dot_def double_dot_def)
  ultimately show ?thesis by (simp add: encoded_dots)
qed

section \<open>Properties\<close>

text \<open>
  A token that was set is what every later read returns, through any number of reads and
  page reloads, until it is cleared; and after a logout every read returns null.
\<close>

theorem token_survives_reloads:
  assumes "t \<noteq> []" and "tok.quiet (setToken (Some t) c) c'" and "coherent c"
    and "tok.quiet (logout c) c''"
  shows "fst (getToken c') = Some t \<and> fst (getToken c'') = None"
  using tok.put_then_quiet [OF assms(1,3,2)] tok.clear_then_quiet [OF assms(3,4)] by simp

theorem token_survives_reloads_witness:
  "fst (getToken (reload_client (setToken (Some ''abc'') (fresh_client Map.empty)))) = Some ''abc'' \<and>
   fst (getToken (snd (getToken (logout (fresh_client Map.empty))))) = None"
  by (rule token_survives_reloads [of _ "fresh_client Map.empty"])
    (simp_all add: coherent_fresh tok.quiet_refl tok.quiet_reload tok.quiet_get)

text \<open>
  A method that decodes a body yields a value only from a response of the 2xx range whose
  body decodes, and then yields that body unchanged; in every other case (rejected fetch,
  other status, unreadable body) it rejects.
\<close>

theorem success_needs_2xx:
  "(fst (submitPlan f1 p c) = Inr a \<longleftrightarrow>
     (\<exists>res. fst (send f1 POST ''/plans'' JSON_TYPE (PlanBody p) c) = Inr res \<and>
        200 \<le> rs_status res \<and> rs_status res \<le> 299 \<and> rs_json res = Inr a)) \<and>
   (fst (getMigration f2 i c) = Inr r \<longleftrightarrow>
     (\<exists>res. fst (send f2 GET (''/migrations/'' @ i) XHR NoBody c) = Inr res \<and>
        200 \<le> rs_status res \<and> rs_status res \<le> 299 \<and> rs_json res = Inr r)) \<and>
   (fst (listMigrations f3 c) = Inr l \<longleftrightarrow>
     (\<exists>res. fst (send f3 GET ''/migrations'' [] NoBody c) = Inr res \<and>
        200 \<le> rs_status res \<and> rs_status res \<le> 299 \<and> rs_json res = Inr l))"
  by (auto simp: submitPlan_def getMigration_def listMigrations_def case_prod_beta Let_def json_or_def
      bind_result_Inr_iff rs_ok_def)

text \<open>
  Signing in. A failed login leaves the client as it was. A successful one with a token
  makes every following call send that token; a successful one without a token clears the
  credentials that were there.
\<close>

theorem login_sets_credentials:
  assumes "fst (login fetch u p c) = r" and "snd (login fetch u p c) = c'"
  shows "(\<forall>e. r = Inl e \<longrightarrow> c' = c) \<and>
    (\<forall>d t. r = Inr d \<and> lr_token d = Some t \<and> t \<noteq> [] \<longrightarrow>
       fst (headers extra c') = obj_set ''Authorization'' (''Bearer '' @ t) extra) \<and>
    (\<forall>d. r = Inr d \<and> \<not> truthy_str (lr_token d) \<longrightarrow> fst (headers extra c') = extra)"
  using assms
  by (auto simp: login_def Let_def headers_def getToken_def setToken_def split: sum.splits)

theorem login_sets_credentials_witness:
  "fst (headers [] (snd (login
      (\<lambda>_. Inr \<lparr> rs_status = 200, rs_text = Inr [], rs_json = Inr \<lparr> lr_token = Some ''t'', lr_role = None \<rparr> \<rparr>)
      ''u'' ''p'' (fresh_client Map.empty)))) = [(''Authorization'', ''Bearer t'')]"
  using login_sets_credentials [OF refl refl, of
      "\<lambda>_. Inr \<lparr> rs_status = 200, rs_text = Inr [], rs_json = Inr \<lparr> lr_token = Some ''t'', lr_role = None \<rparr> \<rparr>"
      "''u''" "''p''" "fresh_client Map.empty" "[]"]
  by (simp add: login_def json_or_def check_status_text_def rs_ok_def obj_set_def)

text \<open>
  C37: which path a schema request has. For the client the pages use, \<^verbatim>\<open>fetchSchema\<close> makes one GET request.
  Whatever the table's name contains, the browser resolves its URL to the two segments \<^verbatim>\<open>schema\<close> and one
  that decodes to the name; only the two names the encoding cannot protect are lost: a single dot asks
  for \<^verbatim>\<open>/schema/\<close>, two dots ask for the root \<^verbatim>\<open>/\<close>.
\<close>

theorem schema_url_safe:
  assumes "ac_base c = []"
  shows "\<exists>rq. (\<forall>f. fst (fetchSchema f tbl c) = json_or (check_status_text ''fetch schema'') (f rq)) \<and>
    rq_method rq = GET \<and>
    (tbl \<noteq> ''.'' \<and> tbl \<noteq> ''..'' \<longrightarrow>
       (\<exists>seg. url_path (rq_url rq) = [''schema'', seg] \<and> decode_uri seg = tbl)) \<and>
    (tbl = ''.'' \<longrightarrow> url_path (rq_url rq) = [''schema'', []]) \<and>
    (tbl = ''..'' \<longrightarrow> url_path (rq_url rq) = [[]])"
proof -
  let ?rq = "fst (prepare GET (''/schema/'' @ encodeURIComponent tbl) [] NoBody c)"
  have "rq_method ?rq = GET \<and> rq_url ?rq = ''/schema/'' @ encodeURIComponent tbl"
    using assms by (simp add: prepare_def split: prod.split)
  moreover have "fst (fetchSchema f tbl c) = json_or (check_status_text ''fetch schema'') (f ?rq)" for f
    by (simp add: fetchSchema_def send_def case_prod_beta Let_def)
  ultimately show ?thesis
    using schema_path [of tbl] decode_encode [of tbl] by (intro exI [of _ ?rq]) auto
qed

theorem schema_url_safe_witness:
  "\<exists>rq seg. (\<forall>f. fst (fetchSchema f ''a/b?c'' (fresh_client Map.empty)) = json_or (check_status_text ''fetch schema'') (f rq)) \<and>
    url_path (rq_url rq) = [''schema'', seg] \<and> decode_uri seg = ''a/b?c''"
  using schema_url_safe [of "fresh_client Map.empty" "''a/b?c''"] by (fastforce simp: fresh_client_def)

end
