(* ===== verification/Paging.thy ===== *)
theory Paging
  imports Constants
begin

text \<open>
  Search and paging of the migration list in \<^verbatim>\<open>frontend/src/pages/Dashboard.tsx\<close>: the values
  the page derives from its state with \<^verbatim>\<open>useMemo\<close>. Page numbers count from 0.
\<close>

section \<open>Derived values\<close>

text \<open>\<^verbatim>\<open>migrations ?? []\<close>: the engine answers \<^verbatim>\<open>null\<close> for an empty list.\<close>

definition or_empty :: "'a list option \<Rightarrow> 'a list" where
  "or_empty l = (case l of Some xs \<Rightarrow> xs | None \<Rightarrow> [])"

definition filtered :: "string \<Rightarrow> migration_record list option \<Rightarrow> migration_record list" where
  "filtered search migrations =
     (let ms = or_empty migrations in
      if search = [] then ms
      else let q = to_lower search in
        filter (\<lambda>m. str_includes q (to_lower (mr_plan_id m)) \<or>
                    str_includes q (to_lower (state_str (mr_state m))) \<or>
                    str_includes q (to_lower (mr_migration_id m))) ms)"

definition paged :: "'a list \<Rightarrow> nat \<Rightarrow> 'a list" where
  "paged xs page = (let start = page * PAGE_SIZE in slice start (start + PAGE_SIZE) xs)"

text \<open>\<^verbatim>\<open>Math.ceil(filtered.length / PAGE_SIZE)\<close>, exact for the lengths an array can have.\<close>

definition totalPages :: "'a list \<Rightarrow> nat" where
  "totalPages xs = (length xs + PAGE_SIZE - 1) div PAGE_SIZE"

text \<open>The page buttons: a page or an ellipsis.\<close>

datatype page_item = Page nat | Dots

definition pageNumbers :: "nat \<Rightarrow> nat \<Rightarrow> page_item list" where
  "pageNumbers page tp =
     (if tp \<le> 7 then map Page [0..<tp]
      else [Page 0] @ (if page > 3 then [Dots] else []) @
        map Page [max 1 (page - 1)..<min (tp - 2) (page + 1) + 1] @
        (if int page < int tp - 4 then [Dots] else []) @ [Page (tp - 1)])"

fun button_pages :: "page_item list \<Rightarrow> nat list" where
  "button_pages [] = []"
| "button_pages (Page p # is) = p # button_pages is"
| "button_pages (Dots # is) = button_pages is"

text \<open>Every place where the numbering jumps between two neighbours carries an ellipsis.\<close>

fun gaps_marked :: "page_item list \<Rightarrow> bool" where
  "gaps_marked (Page p # Page q # is) \<longleftrightarrow> q = p + 1 \<and> gaps_marked (Page q # is)"
| "gaps_marked (Dots # is) \<longleftrightarrow> gaps_marked is"
| "gaps_marked (Page p # Dots # is) \<longleftrightarrow> gaps_marked is"
| "gaps_marked _ \<longleftrightarrow> True"

section \<open>Paging\<close>

lemma or_empty_simps [simp]: "or_empty None = []" "or_empty (Some xs) = xs"
  by (simp_all add: or_empty_def)

lemma paged_alt: "paged xs p = take PAGE_SIZE (drop (p * PAGE_SIZE) xs)"
  by (simp add: paged_def slice_def Let_def)

lemma set_paged: "set (paged xs p) \<subseteq> set xs"
  by (metis paged_alt set_drop_subset set_take_subset subset_trans)

lemma set_filtered: "set (filtered q ms) \<subseteq> set (or_empty ms)"
  by (auto simp: filtered_def Let_def)

lemma totalPages_le: "length xs \<le> totalPages xs * PAGE_SIZE"
  by (simp add: totalPages_def PAGE_SIZE_def)

lemma totalPages_gt: "p < totalPages xs \<longleftrightarrow> p * PAGE_SIZE < length xs"
proof -
  have "p < totalPages xs \<longleftrightarrow> Suc p * PAGE_SIZE \<le> length xs + PAGE_SIZE - 1"
    unfolding totalPages_def Suc_le_eq [symmetric] by (rule less_eq_div_iff_mult_less_eq) simp
  then show ?thesis by (auto simp: PAGE_SIZE_def)
qed

lemma paged_ne: "paged xs p \<noteq> [] \<longleftrightarrow> p < totalPages xs"
  by (simp add: paged_alt totalPages_gt not_le)

lemma concat_pages: "concat (map (paged xs) [0..<n]) = take (n * PAGE_SIZE) xs"
proof (induction n)
  case (Suc n)
  have "take (Suc n * PAGE_SIZE) xs = take (n * PAGE_SIZE + PAGE_SIZE) xs"
    by (simp add: add.commute)
  with Suc show ?case by (simp only: take_add) (simp add: paged_alt)
qed simp

lemma button_pages_append [simp]: "button_pages (xs @ ys) = button_pages xs @ button_pages ys"
  by (induction xs rule: button_pages.induct) simp_all

lemma button_pages_map [simp]: "button_pages (map Page ps) = ps"
  by (induction ps) simp_all

lemma gaps_marked_run:
  "a < b \<Longrightarrow> gaps_marked (map Page [a..<b] @ is) \<longleftrightarrow> gaps_marked (Page (b - 1) # is)"
proof (induction "b - a" arbitrary: a)
  case (Suc d)
  show ?case
  proof (cases "a + 1 = b")
    case True
    then show ?thesis by auto
  next
    case False
    then have a: "a + 1 < b" "[a..<b] = a # [a + 1..<b]" "[a + 1..<b] = (a + 1) # [a + 2..<b]"
      using Suc.prems by (simp_all add: upt_rec)
    then show ?thesis using Suc.hyps(1) [of "a + 1"] Suc.hyps(2) by simp
  qed
qed simp

lemma gaps_marked_before:
  "a < b \<Longrightarrow> gaps_marked (Page p # map Page [a..<b] @ is) \<longleftrightarrow>
     a = p + 1 \<and> gaps_marked (map Page [a..<b] @ is)"
  by (simp add: upt_rec)

lemma gaps_marked_run_all: "gaps_marked (map Page [a..<b])"
  using gaps_marked_run [of a b "[]"] by (cases "a < b") simp_all

section \<open>Properties\<close>

text \<open>
  C23: paging loses nothing. The pages from 0 to \<^verbatim>\<open>totalPages - 1\<close>, one after the other, are the
  filtered list; each of them is non-empty and holds at most 20 rows; any later page is empty.
\<close>

theorem pages_partition:
  "concat (map (paged xs) [0..<totalPages xs]) = xs \<and>
   (\<forall>p. (paged xs p \<noteq> []) = (p < totalPages xs) \<and> length (paged xs p) \<le> 20)"
proof -
  have "length (paged xs p) \<le> 20" for p by (simp add: paged_alt PAGE_SIZE_def)
  then show ?thesis using totalPages_le [of xs] by (simp add: concat_pages paged_ne)
qed

text \<open>
  The page buttons. For a page in range they are strictly increasing page numbers in range;
  the first page, the last page, the current page and its neighbours are among them.
\<close>

theorem page_buttons_sound:
  assumes "page < tp"
  shows "sorted_wrt (<) (button_pages (pageNumbers page tp)) \<and>
    (\<forall>p \<in> set (button_pages (pageNumbers page tp)). p < tp) \<and>
    {0, tp - 1, page, page - 1, min (page + 1) (tp - 1)}
      \<subseteq> set (button_pages (pageNumbers page tp))"
proof (cases "tp \<le> 7")
  case True
  then show ?thesis using assms by (auto simp: pageNumbers_def)
next
  case False
  let ?mid = "[max 1 (page - 1)..<min (tp - 2) (page + 1) + 1]"
  have eq: "button_pages (pageNumbers page tp) = 0 # ?mid @ [tp - 1]"
    using False by (simp add: pageNumbers_def)
  have "sorted_wrt (<) (0 # ?mid @ [tp - 1])"
    using False by (auto simp: sorted_wrt_append)
  moreover have "\<forall>p \<in> set (0 # ?mid @ [tp - 1]). p < tp"
    using False by auto
  moreover have "{0, tp - 1, page, page - 1, min (page + 1) (tp - 1)}
      \<subseteq> set (0 # ?mid @ [tp - 1])"
    using False assms by (auto simp: min_def max_def)
  ultimately show ?thesis unfolding eq by blast
qed

theorem page_buttons_sound_witness: "{0, 11, 5, 4, 6} \<subseteq> set (button_pages (pageNumbers 5 12))"
  using page_buttons_sound [of 5 12] by simp

text \<open>
  Where pages are left out, an ellipsis says so, with two exceptions: on the fourth page
  (button 2 is missing after button 1) and on the fourth page from the end (the button before the
  last one is missing) the numbering jumps without one.
\<close>

theorem page_gaps_marked_iff:
  assumes "page < tp"
  shows "gaps_marked (pageNumbers page tp) \<longleftrightarrow>
    tp \<le> 7 \<or> page \<noteq> 3 \<and> page \<noteq> tp - 4"
proof (cases "tp \<le> 7")
  case True
  then show ?thesis by (simp add: pageNumbers_def gaps_marked_run_all)
next
  case False
  let ?a = "max 1 (page - 1)" and ?b = "min (tp - 2) (page + 1) + 1"
  let ?tail = "(if int page < int tp - 4 then [Dots] else []) @ [Page (tp - 1)]"
  have ab: "?a < ?b" using False assms by auto
  have tail: "gaps_marked (map Page [?a..<?b] @ ?tail) \<longleftrightarrow> page \<noteq> tp - 4"
    unfolding gaps_marked_run [OF ab] using False assms by (auto simp: min_def)
  let ?mid = "map Page [?a..<?b] @ ?tail"
  have eq: "pageNumbers page tp = Page 0 # (if page > 3 then Dots # ?mid else ?mid)"
    unfolding pageNumbers_def using False by (cases "page > 3") (simp_all only: if_True if_False append.simps append_assoc)
  have "gaps_marked (pageNumbers page tp) \<longleftrightarrow>
      (if page > 3 then True else ?a = 1) \<and> gaps_marked ?mid"
    unfolding eq using gaps_marked_before [OF ab, of 0 ?tail]
    by (cases "page > 3") (simp_all only: if_True if_False gaps_marked.simps simp_thms add_0)
  moreover have "(if page > 3 then True else ?a = 1) \<longleftrightarrow> page \<noteq> 3" by auto
  ultimately show ?thesis using False tail by blast
qed

theorem page_gaps_marked_iff_witness:
  "\<not> gaps_marked (pageNumbers 3 12) \<and> gaps_marked (pageNumbers 5 12)"
  using page_gaps_marked_iff [of 3 12] page_gaps_marked_iff [of 5 12] by simp

end
