(* ===== verification/Stats.thy ===== *)
theory Stats
  imports JsNumber
begin

text \<open>
  The small displays at the top of \<^verbatim>\<open>frontend/src/pages/Dashboard.tsx\<close>: the sparkline, the
  success gauge and the animated number. Coordinates are numbers of the source (binary64);
  their text form and the fixed SVG attributes are not modelled.
\<close>

section \<open>Sparkline\<close>

record sparkline =
  sp_points :: "(number \<times> number) list"
  sp_area :: "(number \<times> number) list"
  sp_stroke :: string

definition spark_point :: "nat \<Rightarrow> number \<Rightarrow> nat \<times> number \<Rightarrow> number \<times> number" where
  "spark_point n mx iv =
     (js_mul (js_div (num_of_nat (fst iv)) (num_of_nat (n - 1))) (Fin 80),
      js_sub (js_sub (Fin 32) (js_mul (js_div (snd iv) mx) (js_sub (Fin 32) (Fin 4)))) (Fin 2))"

definition Sparkline :: "number list \<Rightarrow> string \<Rightarrow> sparkline option" where
  "Sparkline data color =
     (if length data < 2 then None
      else let mx = js_max_list (data @ [Fin 1]);
               points = map (spark_point (length data) mx) (enumerated data)
           in Some \<lparr> sp_points = points,
                sp_area = (Fin 0, Fin 32) # points @ [(Fin 80, Fin 32)], sp_stroke = color \<rparr>)"

section \<open>Success gauge\<close>

record gauge =
  gg_dash :: number
  gg_offset :: number
  gg_color :: string
  gg_value :: number

definition gauge_circ :: "number \<Rightarrow> number" where
  "gauge_circ r = js_mul (js_mul (Fin 2) JS_PI) r"

definition SuccessGauge :: "number \<Rightarrow> gauge" where
  "SuccessGauge rate =
     (let circ = gauge_circ (Fin 36)
      in \<lparr> gg_dash = circ,
           gg_offset = js_sub circ (js_mul (js_div rate (Fin 100)) circ),
           gg_color = (if js_le (Fin 90) rate then ''var(--success)''
                       else if js_le (Fin 70) rate then ''var(--warning)'' else ''var(--danger)''),
           gg_value = rate \<rparr>)"

section \<open>Animated number\<close>

text \<open>
  An effect starts an animation whenever the value changed; the callback of each animation
  frame reschedules itself until half a second has passed. \<open>sn_frames\<close> holds the scheduled
  callbacks, each with its start time (0 before its first frame) and its target.
\<close>

datatype stat_value = Stat_num number | Stat_str string

record stat_number =
  sn_value :: stat_value
  sn_displayed :: number
  sn_deps :: "number option"
  sn_frames :: "(number \<times> number) list"

definition numeric_val :: "stat_value \<Rightarrow> number" where
  "numeric_val v = (case v of
       Stat_num n \<Rightarrow> n
     | Stat_str s \<Rightarrow> if js_truthy (parse_int s) then parse_int s else Fin 0)"

definition fresh_stat :: stat_number where
  "fresh_stat = \<lparr> sn_value = Stat_num (Fin 0), sn_displayed = Fin 0, sn_deps = None, sn_frames = [] \<rparr>"

definition stat_render :: "stat_value \<Rightarrow> stat_number \<Rightarrow> stat_number" where
  "stat_render v s =
     (let n = numeric_val v; s' = s\<lparr> sn_value := v, sn_deps := Some n \<rparr>
      in if sn_deps s = Some n then s'
         else if js_eq n (Fin 0) then s'\<lparr> sn_displayed := Fin 0 \<rparr>
         else s'\<lparr> sn_frames := sn_frames s @ [(Fin 0, n)] \<rparr>)"

definition stat_step :: "number \<Rightarrow> number \<times> number \<Rightarrow> stat_number \<Rightarrow> stat_number" where
  "stat_step ts frame s =
     (let start = (if js_truthy (fst frame) then fst frame else ts);
          progress = js_min (js_div (js_sub ts start) (Fin 500)) (Fin 1);
          s' = s\<lparr> sn_displayed := js_floor (js_mul progress (snd frame)) \<rparr>
      in if js_lt progress (Fin 1) then s'\<lparr> sn_frames := sn_frames s' @ [(start, snd frame)] \<rparr>
         else s')"

text \<open>An animation frame runs the callbacks scheduled before it.\<close>

definition stat_frame :: "number \<Rightarrow> stat_number \<Rightarrow> stat_number" where
  "stat_frame ts s = foldl (\<lambda>u f. stat_step ts f u) (s\<lparr> sn_frames := [] \<rparr>) (sn_frames s)"

datatype shown = Shown_text string | Shown_number number

definition stat_shown :: "stat_number \<Rightarrow> shown" where
  "stat_shown s = (case sn_value s of
       Stat_str t \<Rightarrow> Shown_text t
     | Stat_num _ \<Rightarrow> Shown_number (sn_displayed s))"

section \<open>Geometry\<close>

lemma fl_numeral [simp]: "numeral k \<le> (2 ^ 53 :: nat) \<Longrightarrow> fl (numeral k) = Fin (numeral k)"
  using fl_of_nat [of "numeral k"] by simp

lemma spark_point_box:
  assumes "i \<le> m" and "0 < m" and "m \<le> 2 ^ 53" and "0 \<le> v" and "v \<le> mx" and "1 \<le> mx"
  shows "\<exists>x y. spark_point (Suc m) (Fin mx) (i, Fin v) = (Fin x, Fin y) \<and>
      0 \<le> x \<and> x \<le> 80 \<and> 2 \<le> y \<and> y \<le> 30"
proof -
  obtain q where q: "fl (of_nat i / of_nat m) = Fin q" "0 \<le> q" "q \<le> 1"
    using b64.ratio_unit [of "of_nat i" "of_nat m"] assms by auto
  obtain x where x: "fl (q * 80) = Fin x" "0 \<le> x" "x \<le> 80"
    using b64.between [of 0 "q * 80" 80] q by auto
  obtain p where p: "fl (v / mx) = Fin p" "0 \<le> p" "p \<le> 1"
    using b64.ratio_unit [of v mx] assms by auto
  obtain t where t: "fl (p * 28) = Fin t" "0 \<le> t" "t \<le> 28"
    using b64.between [of 0 "p * 28" 28] p by auto
  obtain u where u: "fl (32 - t) = Fin u" "4 \<le> u" "u \<le> 32"
    using b64.between [of 4 "32 - t" 32] t by auto
  obtain y where y: "fl (u - 2) = Fin y" "2 \<le> y" "y \<le> 30"
    using b64.between [of 2 "u - 2" 30] u by auto
  have "mx \<noteq> 0" "m \<noteq> 0" "i \<le> 2 ^ 53" using assms by auto
  then show ?thesis
    using x y assms(3) by (simp add: spark_point_def q p t u)
qed

lemma circ36:
  "gauge_circ (Fin 36) = Fin (7958517471031995 / 35184372088832) \<and>
   fl (7958517471031995 / 35184372088832) = Fin (7958517471031995 / 35184372088832)"
proof -
  have e: "pow2 (- 45) = 1 / 35184372088832" and e': "pow2 (- 50) = 1 / 1125899906842624"
    by (simp_all add: pow2_def)
  have "fl (7958517471031995 / 35184372088832) = Fin (7958517471031995 / 35184372088832)"
    using fl_exact [of 7958517471031995 "- 45"] by (simp add: e)
  moreover have "fl (884279719003555 / 140737488355328) = Fin (884279719003555 / 140737488355328)"
    using fl_exact [of 7074237752028440 "- 50"] by (simp add: e')
  ultimately show ?thesis by (simp add: JS_PI_def gauge_circ_def)
qed

section \<open>Properties of the animation\<close>

lemma stat_frame_one:
  "sn_frames s = [f] \<Longrightarrow> stat_frame ts s = stat_step ts f (s\<lparr> sn_frames := [] \<rparr>)"
  by (simp add: stat_frame_def)

lemma progress_unit:
  assumes "s \<le> t"
  shows "\<exists>p. js_min (js_div (js_sub (Fin t) (Fin s)) (Fin 500)) (Fin 1) = Fin p \<and> 0 \<le> p \<and> p \<le> 1"
proof -
  have "js_le (Fin 0) (fl (t - s))" using b64.mono [of 0 "t - s"] assms by simp
  then show ?thesis
  proof (cases "fl (t - s)")
    case (Fin d)
    then have "0 \<le> d" using \<open>js_le (Fin 0) (fl (t - s))\<close> by simp
    then have "js_le (Fin 0) (fl (d / 500))" using b64.mono [of 0 "d / 500"] by simp
    then show ?thesis using Fin by (cases "fl (d / 500)") (auto simp: js_le_def js_min_def)
  qed (auto simp: js_le_def js_min_def)
qed

lemma progress_full:
  assumes "s + 500 \<le> t"
  shows "js_min (js_div (js_sub (Fin t) (Fin s)) (Fin 500)) (Fin 1) = Fin 1"
proof -
  have le: "js_le (Fin 500) (fl (t - s))" using b64.mono [of 500 "t - s"] assms by simp
  show ?thesis
  proof (cases "fl (t - s)")
    case (Fin d)
    then have "1 \<le> d / 500" using le by simp
    then have "js_le (Fin 1) (fl (d / 500))" using b64.mono [of 1 "d / 500"] by simp
    then show ?thesis using Fin by (cases "fl (d / 500)") (auto simp: js_le_def js_min_def)
  qed (use le in \<open>auto simp: js_le_def js_min_def\<close>)
qed

text \<open>A run of one animation: every frame shows a whole number up to the target.\<close>

lemma stat_step_range:
  assumes "0 < s" and "s \<le> t" and "n \<le> 2 ^ 53"
  shows "\<exists>k \<le> n. sn_displayed (stat_step (Fin t) (Fin s, Fin (of_nat n)) u) = Fin (of_nat k)"
proof -
  obtain p where p: "js_min (js_div (js_sub (Fin t) (Fin s)) (Fin 500)) (Fin 1) = Fin p"
      "0 \<le> p" "p \<le> 1"
    using progress_unit [OF assms(2)] by auto
  have "p * of_nat n \<le> 1 * of_nat n" using p by (intro mult_right_mono) auto
  then obtain y where y: "fl (p * of_nat n) = Fin y" "0 \<le> y" "y \<le> of_nat n"
    using b64.bounded [of "p * of_nat n" n] p assms(3) by auto
  then have "0 \<le> \<lfloor>y\<rfloor>" "\<lfloor>y\<rfloor> \<le> int n" by (auto simp: floor_le_iff)
  then have "nat \<lfloor>y\<rfloor> \<le> n" "of_int \<lfloor>y\<rfloor> = (of_nat (nat \<lfloor>y\<rfloor>) :: rat)" by auto
  then show ?thesis
    using assms(1) y p by (auto simp: stat_step_def js_truthy_def Let_def)
qed

lemma stat_step_last:
  assumes "0 < s" and "s + 500 \<le> t" and "n \<le> 2 ^ 53"
  shows "stat_step (Fin t) (Fin s, Fin (of_nat n)) u = u\<lparr> sn_displayed := Fin (of_nat n) \<rparr>"
  using assms by (simp add: stat_step_def progress_full js_truthy_def Let_def del: js_sub_Fin)

lemma stat_render_zero:
  "sn_deps u = Some m \<Longrightarrow> m \<noteq> Fin 0 \<Longrightarrow> stat_render (Stat_num (Fin 0)) u =
     u\<lparr> sn_value := Stat_num (Fin 0), sn_deps := Some (Fin 0), sn_displayed := Fin 0 \<rparr>"
  by (simp add: stat_render_def numeric_val_def Let_def)

definition animating :: "nat \<Rightarrow> rat \<Rightarrow> stat_number \<Rightarrow> bool" where
  "animating n t0 u \<longleftrightarrow>
     (\<exists>k \<le> n. sn_displayed u = Fin (of_nat k)) \<and>
     (sn_frames u = [(Fin t0, Fin (of_nat n))] \<or> sn_frames u = [] \<and> sn_displayed u = Fin (of_nat n))"

lemma animating_first:
  assumes "0 < n" and "0 < t0"
  shows "sn_displayed (stat_frame (Fin t0) (stat_render (Stat_num (Fin (of_nat n))) fresh_stat)) = Fin 0 \<and>
    sn_frames (stat_frame (Fin t0) (stat_render (Stat_num (Fin (of_nat n))) fresh_stat))
      = [(Fin t0, Fin (of_nat n))] \<and>
    sn_deps (stat_frame (Fin t0) (stat_render (Stat_num (Fin (of_nat n))) fresh_stat))
      = Some (Fin (of_nat n))"
  using assms by (simp add: stat_frame_def stat_render_def fresh_stat_def numeric_val_def
      stat_step_def js_truthy_def Let_def)

lemma animating_frame:
  assumes "animating n t0 u" and "0 < t0" and "t0 \<le> t" and "n \<le> 2 ^ 53"
  shows "animating n t0 (stat_frame (Fin t) u)"
proof (cases "sn_frames u = []")
  case True
  then show ?thesis using assms(1) by (simp add: animating_def stat_frame_def)
next
  case False
  then have u: "sn_frames u = [(Fin t0, Fin (of_nat n))]" using assms(1) by (simp add: animating_def)
  let ?u = "stat_step (Fin t) (Fin t0, Fin (of_nat n)) (u\<lparr> sn_frames := [] \<rparr>)"
  obtain p where p: "js_min (js_div (js_sub (Fin t) (Fin t0)) (Fin 500)) (Fin 1) = Fin p"
      "0 \<le> p" "p \<le> 1"
    using progress_unit [OF assms(3)] by auto
  have "\<exists>k \<le> n. sn_displayed ?u = Fin (of_nat k)"
    by (rule stat_step_range [OF assms(2-4)])
  moreover have "sn_frames ?u = [(Fin t0, Fin (of_nat n))] \<or>
      sn_frames ?u = [] \<and> sn_displayed ?u = Fin (of_nat n)"
    using p assms(2,4) by (cases "p < 1") (auto simp: stat_step_def js_truthy_def Let_def)
  ultimately show ?thesis by (simp add: animating_def stat_frame_one [OF u])
qed

lemma animating_run:
  assumes "\<forall>t \<in> set ts. t0 \<le> t" and "animating n t0 u" and "0 < t0" and "n \<le> 2 ^ 53"
  shows "animating n t0 (foldl (\<lambda>u t. stat_frame (Fin t) u) u ts)"
  using assms by (induction ts arbitrary: u) (simp_all add: animating_frame)

lemma animating_last:
  assumes "animating n t0 u" and "n \<le> 2 ^ 53" and "0 < t0" and "t0 + 500 \<le> t"
  shows "sn_displayed (stat_frame (Fin t) u) = Fin (of_nat n) \<and> sn_frames (stat_frame (Fin t) u) = []"
  using assms by (auto simp: animating_def stat_frame_one stat_step_last stat_frame_def)

section \<open>Properties\<close>

text \<open>
  The sparkline stays in its box. For two or more finite non-negative values, every vertex
  of the line lies in the 80 by 32 viewport, two units away from its lower and upper edge,
  rounding of the coordinates included.
\<close>

theorem sparkline_in_box:
  assumes "2 \<le> length qs" and "length qs \<le> 2 ^ 53" and "\<forall>q \<in> set qs. 0 \<le> q"
  shows "\<exists>sp. Sparkline (map Fin qs) color = Some sp \<and> length (sp_points sp) = length qs \<and>
      (\<forall>p \<in> set (sp_points sp). \<exists>x y. p = (Fin x, Fin y) \<and> 0 \<le> x \<and> x \<le> 80 \<and> 2 \<le> y \<and> y \<le> 30)"
proof -
  let ?m = "foldl max 1 qs"
  let ?ps = "map (spark_point (length qs) (Fin ?m)) (enumerated (map Fin qs))"
  have ge: "1 \<le> ?m" "\<forall>q \<in> set qs. q \<le> ?m" using foldl_max_ge by blast+
  have "\<exists>x y. p = (Fin x, Fin y) \<and> 0 \<le> x \<and> x \<le> 80 \<and> 2 \<le> y \<and> y \<le> 30" if p: "p \<in> set ?ps" for p
  proof -
    obtain i where i: "i < length qs" "p = spark_point (length qs) (Fin ?m) (i, Fin (qs ! i))"
      using p by (auto simp: set_enumerated)
    obtain m where m: "length qs = Suc m" using assms(1) by (cases "length qs") auto
    have "i \<le> m" "0 < m" "m \<le> 2 ^ 53" using i(1) assms(1,2) m by simp_all
    moreover have "0 \<le> qs ! i" "qs ! i \<le> ?m" using i(1) ge(2) assms(3) by simp_all
    ultimately show ?thesis using spark_point_box [of i m "qs ! i" ?m] ge(1) i m by simp
  qed
  then show ?thesis
    using assms(1) by (simp add: Sparkline_def js_max_list_snoc Let_def)
qed

theorem sparkline_in_box_witness:
  "\<exists>sp. Sparkline (map Fin [3, 1]) ''#34d399'' = Some sp \<and> length (sp_points sp) = 2"
  using sparkline_in_box [of "[3, 1]" "''#34d399''"] by auto

text \<open>
  The success gauge draws an arc between nothing and the full circle for a rate between
  0 and 100: the dash offset runs from 0 (at 100) to the circumference (at 0).
\<close>

theorem gauge_arc_range:
  assumes "0 \<le> r" and "r \<le> 100"
  shows "\<exists>c d. gg_dash (SuccessGauge (Fin r)) = Fin c \<and> gg_offset (SuccessGauge (Fin r)) = Fin d \<and>
      0 \<le> d \<and> d \<le> c \<and> (r = 0 \<longrightarrow> d = c) \<and> (r = 100 \<longrightarrow> d = 0)"
proof -
  obtain c where c: "gauge_circ (Fin 36) = Fin c" "fl c = Fin c" "0 < c"
    using circ36 by (metis divide_pos_pos zero_less_numeral)
  obtain q where q: "fl (r / 100) = Fin q" "0 \<le> q" "q \<le> 1"
    using b64.ratio_unit [of r 100] assms by auto
  have "js_le (Fin 0) (fl (q * c))" "js_le (fl (q * c)) (Fin c)"
    using b64.mono [of 0 "q * c"] b64.mono [of "q * c" c] q c by simp_all
  then obtain t where t: "fl (q * c) = Fin t" "0 \<le> t" "t \<le> c"
    using js_le_between by blast
  have "js_le (Fin 0) (fl (c - t))" "js_le (fl (c - t)) (Fin c)"
    using b64.mono [of 0 "c - t"] b64.mono [of "c - t" c] t c by simp_all
  then obtain d where d: "fl (c - t) = Fin d" "0 \<le> d" "d \<le> c"
    using js_le_between by blast
  have "d = c" if "r = 0" using that q t d c by simp
  moreover have "d = 0" if "r = 100" using that q t d c by simp
  ultimately show ?thesis
    using d c by (simp add: SuccessGauge_def Let_def q t)
qed

theorem gauge_arc_range_witness: "\<exists>d. gg_offset (SuccessGauge (Fin 100)) = Fin d \<and> d = 0"
  using gauge_arc_range [of 100] by auto

text \<open>
  C40: an animated number arrives. Rendered with a new whole number \<open>n\<close>, whatever frames the
  browser runs from \<open>t0\<close> on, it never shows more than \<open>n\<close>; and from half a second after the first
  frame on it shows \<open>n\<close> and has no frame scheduled.
\<close>

theorem stat_number_settles:
  assumes "0 < n" and "n \<le> 2 ^ 53" and "0 < t0" and "\<forall>t \<in> set ts. t0 \<le> t" and "t0 + 500 \<le> t'"
    and "s = foldl (\<lambda>u t. stat_frame (Fin t) u)
            (stat_render (Stat_num (Fin (of_nat n))) fresh_stat) (t0 # ts)"
  shows "(\<exists>k \<le> n. sn_displayed s = Fin (of_nat k)) \<and>
    sn_displayed (stat_frame (Fin t') s) = Fin (of_nat n) \<and> sn_frames (stat_frame (Fin t') s) = []"
proof -
  let ?u = "stat_frame (Fin t0) (stat_render (Stat_num (Fin (of_nat n))) fresh_stat)"
  have "animating n t0 ?u"
    using animating_first [OF assms(1,3)] by (simp add: animating_def exI [of _ 0])
  then have "animating n t0 s"
    using animating_run [OF assms(4) _ assms(3,2)] by (simp add: assms(6))
  then show ?thesis
    using animating_last assms(2,3,5) by (simp add: animating_def)
qed

theorem stat_number_settles_witness:
  "sn_displayed (stat_frame (Fin 700) (stat_frame (Fin 350) (stat_frame (Fin 100)
      (stat_render (Stat_num (Fin (of_nat 3))) fresh_stat)))) = Fin (of_nat 3)"
  using stat_number_settles [OF _ _ _ _ _ refl, of 3 100 "[350]" 700] by simp

text \<open>
  A count that falls back to zero while its animation still runs is not shown as zero: the
  render resets the display, but the scheduled frame of the old animation is not cancelled, so it
  overwrites the reset, and the old count stays on the screen with nothing left to correct it.
\<close>

theorem stat_number_stale_after_zero:
  assumes "0 < n" and "n \<le> 2 ^ 53" and "0 < t0" and "t0 + 500 \<le> t'"
    and "s = stat_render (Stat_num (Fin 0))
            (stat_frame (Fin t0) (stat_render (Stat_num (Fin (of_nat n))) fresh_stat))"
  shows "sn_displayed s = Fin 0 \<and> stat_shown (stat_frame (Fin t') s) = Shown_number (Fin (of_nat n)) \<and>
    sn_frames (stat_frame (Fin t') s) = []"
proof -
  have "sn_frames s = [(Fin t0, Fin (of_nat n))]" "sn_displayed s = Fin 0" "sn_value s = Stat_num (Fin 0)"
    using animating_first [OF assms(1,3)] assms(1) by (simp_all add: assms(5) stat_render_zero)
  then show ?thesis
    using assms(2-4) by (simp add: stat_frame_one stat_step_last stat_shown_def)
qed

theorem stat_number_stale_after_zero_witness:
  "stat_shown (stat_frame (Fin 600) (stat_render (Stat_num (Fin 0))
      (stat_frame (Fin 100) (stat_render (Stat_num (Fin (of_nat 1))) fresh_stat))))
    = Shown_number (Fin (of_nat 1))"
  using stat_number_stale_after_zero [of 1 100 600] by simp

end
