(* ===== verification/Polling.thy ===== *)
theory Polling
  imports Constants
begin

text \<open>
  Intervals of the browser and the two ways the pages use them: the polling effect that
  \<^verbatim>\<open>pages/Dashboard.tsx\<close>, \<^verbatim>\<open>pages/MigrationDetail.tsx\<close> and \<^verbatim>\<open>components/MetricsPanel.tsx\<close>
  share (a timer kept in a ref, started while something is live), and the plain interval of
  \<^verbatim>\<open>components/SystemStatusPanel.tsx\<close> and of the safety data. An effect runs at mount and
  whenever a dependency changed, its cleanup runs before the next run and at unmount. The
  locale \<open>interval_effect\<close> states what an effect and its cleanup owe the window, and
  derives that no interval leaks; every use in the pages interprets it.
\<close>

section \<open>The timers of the window\<close>

text \<open>
  Timer ids are handed out in increasing order, from 1 (so an id is truthy), and never
  reused. \<open>tm_live\<close> holds the running intervals with their period.
\<close>

record timers =
  tm_next :: nat
  tm_live :: "(nat \<times> nat) list"

definition no_timers :: timers where
  "no_timers = \<lparr> tm_next = 1, tm_live = [] \<rparr>"

definition setInterval :: "nat \<Rightarrow> timers \<Rightarrow> nat \<times> timers" where
  "setInterval ms h =
     (tm_next h, h\<lparr> tm_next := tm_next h + 1, tm_live := tm_live h @ [(tm_next h, ms)] \<rparr>)"

definition clearInterval :: "nat \<Rightarrow> timers \<Rightarrow> timers" where
  "clearInterval i h = h\<lparr> tm_live := filter (\<lambda>e. fst e \<noteq> i) (tm_live h) \<rparr>"

section \<open>The effects\<close>

text \<open>The polling effect: \<open>active\<close> is the condition of its first branch, the ref comes first.\<close>

definition poll_effect :: "bool \<Rightarrow> nat option \<times> timers \<Rightarrow> nat option \<times> timers" where
  "poll_effect active s =
     (if active then let (i, h) = setInterval POLL_INTERVAL_MS (snd s) in (Some i, h)
      else case fst s of
          Some i \<Rightarrow> (None, clearInterval i (snd s))
        | None \<Rightarrow> s)"

definition poll_cleanup :: "nat option \<times> timers \<Rightarrow> nat option \<times> timers" where
  "poll_cleanup s =
     (case fst s of Some i \<Rightarrow> (fst s, clearInterval i (snd s)) | None \<Rightarrow> s)"

text \<open>The plain effect starts an interval in any case, and its cleanup stops that one.\<close>

definition plain_effect :: "nat \<Rightarrow> nat option \<times> timers \<Rightarrow> nat option \<times> timers" where
  "plain_effect ms s = (let (i, h) = setInterval ms (snd s) in (Some i, h))"

section \<open>The life of a component\<close>

text \<open>
  The part of a component's state an interval effect sees: the dependencies of its last
  run (none while it is not mounted), its ref, and the timers of the window, which other
  components use too. \<open>mt_own\<close> records the ids this component was given.
\<close>

record 'd mount =
  mt_deps :: "'d option"
  mt_ref :: "nat option"
  mt_timers :: timers
  mt_own :: "nat list"

definition unmounted :: "timers \<Rightarrow> 'd mount" where
  "unmounted h = \<lparr> mt_deps = None, mt_ref = None, mt_timers = h, mt_own = [] \<rparr>"

text \<open>
  What happens to it: a render with given dependencies, a replay (React's strict mode runs
  cleanup and effect once more, and so does a change of a dependency that the condition does
  not read), unmounting, and other components starting or stopping intervals of their own.
\<close>

datatype 'd life = Render 'd | Replay | Unmount | Other_set nat | Other_clear nat

definition run_effect ::
  "('d \<Rightarrow> nat option \<times> timers \<Rightarrow> nat option \<times> timers) \<Rightarrow> 'd \<Rightarrow> 'd mount \<Rightarrow> 'd mount" where
  "run_effect eff d s =
     (let (r, h) = eff d (mt_ref s, mt_timers s)
      in s\<lparr> mt_deps := Some d, mt_ref := r, mt_timers := h,
            mt_own := mt_own s @ [tm_next (mt_timers s)..<tm_next h] \<rparr>)"

definition run_cleanup ::
  "(nat option \<times> timers \<Rightarrow> nat option \<times> timers) \<Rightarrow> 'd mount \<Rightarrow> 'd mount" where
  "run_cleanup cln s =
     (let (r, h) = cln (mt_ref s, mt_timers s) in s\<lparr> mt_ref := r, mt_timers := h \<rparr>)"

fun life_step ::
  "('d \<Rightarrow> nat option \<times> timers \<Rightarrow> nat option \<times> timers)
    \<Rightarrow> (nat option \<times> timers \<Rightarrow> nat option \<times> timers) \<Rightarrow> 'd mount \<Rightarrow> 'd life \<Rightarrow> 'd mount" where
  "life_step eff cln s (Render d) =
     (case mt_deps s of
        None \<Rightarrow> run_effect eff d s
      | Some d' \<Rightarrow> if d = d' then s else run_effect eff d (run_cleanup cln s))"
| "life_step eff cln s Replay =
     (case mt_deps s of
        None \<Rightarrow> s
      | Some d \<Rightarrow> run_effect eff d (run_cleanup cln s))"
| "life_step eff cln s Unmount =
     (case mt_deps s of
        None \<Rightarrow> s
      | Some d \<Rightarrow> (run_cleanup cln s)\<lparr> mt_deps := None, mt_ref := None \<rparr>)"
| "life_step eff cln s (Other_set ms) =
     s\<lparr> mt_timers := snd (setInterval ms (mt_timers s)) \<rparr>"
| "life_step eff cln s (Other_clear i) =
     (if i \<in> set (mt_own s) then s else s\<lparr> mt_timers := clearInterval i (mt_timers s) \<rparr>)"

definition own_live :: "'d mount \<Rightarrow> (nat \<times> nat) list" where
  "own_live s = filter (\<lambda>e. fst e \<in> set (mt_own s)) (tm_live (mt_timers s))"

definition foreign_live :: "'d mount \<Rightarrow> (nat \<times> nat) list" where
  "foreign_live s = filter (\<lambda>e. fst e \<notin> set (mt_own s)) (tm_live (mt_timers s))"

section \<open>The contract\<close>

text \<open>
  An effect starts one interval when its condition holds and keeps it in the ref; otherwise
  it leaves the running intervals alone but for the one in its ref. Its cleanup stops the
  one in the ref and nothing else.
\<close>

locale interval_effect =
  fixes eff :: "'d \<Rightarrow> nat option \<times> timers \<Rightarrow> nat option \<times> timers"
    and cln :: "nat option \<times> timers \<Rightarrow> nat option \<times> timers"
    and act :: "'d \<Rightarrow> bool"
    and period :: nat
  assumes eff_on: "act d \<Longrightarrow> fst (eff d (r, h)) = Some (tm_next h) \<and>
      tm_next (snd (eff d (r, h))) = tm_next h + 1 \<and>
      tm_live (snd (eff d (r, h))) = tm_live h @ [(tm_next h, period)]"
    and eff_off: "\<not> act d \<Longrightarrow> fst (eff d (r, h)) = None \<and>
      tm_next (snd (eff d (r, h))) = tm_next h \<and>
      tm_live (snd (eff d (r, h))) = filter (\<lambda>e. Some (fst e) \<noteq> r) (tm_live h)"
    and cln_ref: "fst (cln (r, h)) = r"
    and cln_timers: "tm_next (snd (cln (r, h))) = tm_next h \<and>
      tm_live (snd (cln (r, h))) = filter (\<lambda>e. Some (fst e) \<noteq> r) (tm_live h)"
begin

definition wanted :: "'d mount \<Rightarrow> (nat \<times> nat) list" where
  "wanted s = (case (mt_deps s, mt_ref s) of
      (Some d, Some i) \<Rightarrow> if act d then [(i, period)] else []
    | _ \<Rightarrow> [])"

definition good :: "'d mount \<Rightarrow> bool" where
  "good s \<longleftrightarrow>
     (\<forall>e \<in> set (tm_live (mt_timers s)). fst e < tm_next (mt_timers s)) \<and>
     (\<forall>i \<in> set (mt_own s). i < tm_next (mt_timers s)) \<and>
     (\<forall>i. mt_ref s = Some i \<longrightarrow> i \<in> set (mt_own s)) \<and>
     (\<forall>d. mt_deps s = Some d \<and> act d \<longrightarrow> mt_ref s \<noteq> None) \<and>
     own_live s = wanted s"

text \<open>A state whose own intervals are all stopped, which is what an effect starts from.\<close>

definition idle :: "'d mount \<Rightarrow> bool" where
  "idle s \<longleftrightarrow>
     (\<forall>e \<in> set (tm_live (mt_timers s)). fst e < tm_next (mt_timers s)) \<and>
     (\<forall>i \<in> set (mt_own s). i < tm_next (mt_timers s)) \<and>
     (\<forall>i. mt_ref s = Some i \<longrightarrow> i \<in> set (mt_own s)) \<and>
     own_live s = []"

lemma idle_cleanup: "good s \<Longrightarrow> idle (run_cleanup cln s)"
proof -
  assume g: "good s"
  let ?f = "filter (\<lambda>e. Some (fst e) \<noteq> mt_ref s)"
  have "own_live (run_cleanup cln s) = ?f (own_live s)"
    by (simp add: own_live_def run_cleanup_def case_prod_beta Let_def cln_timers)
      (meson filter_cong)
  also have "\<dots> = []"
    using g by (auto simp: good_def wanted_def split: option.splits)
  finally show ?thesis
    using g by (auto simp: idle_def good_def run_cleanup_def case_prod_beta Let_def
        cln_timers cln_ref)
qed

lemma foreign_cleanup:
  "good s \<Longrightarrow> foreign_live (run_cleanup cln s) = foreign_live s"
  by (auto simp: foreign_live_def run_cleanup_def case_prod_beta Let_def cln_timers good_def
      intro!: filter_cong)

lemma good_effect: "idle s \<Longrightarrow> good (run_effect eff d s)"
proof (cases "act d")
  case True
  assume i: "idle s"
  have "own_live (run_effect eff d s) = [(tm_next (mt_timers s), period)]"
    using i eff_on [OF True, of "mt_ref s" "mt_timers s"]
    by (auto simp: own_live_def idle_def run_effect_def case_prod_beta Let_def filter_empty_conv)
  then show ?thesis
    using i True eff_on [OF True, of "mt_ref s" "mt_timers s"]
    by (auto simp: good_def idle_def run_effect_def case_prod_beta Let_def wanted_def)
next
  case False
  assume i: "idle s"
  then show ?thesis
    using False eff_off [OF False, of "mt_ref s" "mt_timers s"]
    by (auto simp: good_def idle_def run_effect_def case_prod_beta Let_def wanted_def
        own_live_def filter_empty_conv split: option.splits)
qed

lemma foreign_effect: "idle s \<Longrightarrow> foreign_live (run_effect eff d s) = foreign_live s"
proof (cases "act d")
  case True
  assume i: "idle s"
  show ?thesis
    using i eff_on [OF True, of "mt_ref s" "mt_timers s"]
    by (auto simp: foreign_live_def idle_def run_effect_def case_prod_beta Let_def
        intro!: filter_cong)
next
  case False
  assume i: "idle s"
  show ?thesis
    using i eff_off [OF False, of "mt_ref s" "mt_timers s"]
    by (auto simp: foreign_live_def idle_def run_effect_def case_prod_beta Let_def
        intro!: filter_cong)
qed

lemma idle_unmounted: "good s \<Longrightarrow> mt_deps s = None \<Longrightarrow> idle s"
  by (auto simp: good_def idle_def wanted_def)

lemma good_step: "good s \<Longrightarrow> good (life_step eff cln s ev)"
proof (cases ev)
  case (Render d)
  assume "good s"
  then show ?thesis
    by (simp add: Render good_effect idle_unmounted idle_cleanup split: option.split)
next
  case Replay
  assume "good s"
  then show ?thesis
    by (simp add: Replay good_effect idle_unmounted idle_cleanup split: option.split)
next
  case Unmount
  assume g: "good s"
  then have "idle (run_cleanup cln s)" by (rule idle_cleanup)
  with g show ?thesis
    by (auto simp: Unmount good_def idle_def wanted_def own_live_def split: option.split)
next
  case (Other_set ms)
  assume g: "good s"
  then have "own_live (life_step eff cln s ev) = own_live s"
    by (auto simp: Other_set own_live_def setInterval_def good_def)
  with g show ?thesis
    by (auto simp: Other_set good_def wanted_def setInterval_def less_Suc_eq)
next
  case (Other_clear i)
  assume g: "good s"
  then have "own_live (life_step eff cln s ev) = own_live s"
    by (auto simp: Other_clear own_live_def clearInterval_def intro!: filter_cong)
  moreover have "wanted (life_step eff cln s ev) = wanted s"
    by (simp add: Other_clear wanted_def split: option.split)
  ultimately show ?thesis
    using g by (simp add: Other_clear good_def clearInterval_def)
qed

lemma good_start: "\<forall>e \<in> set (tm_live h). fst e < tm_next h \<Longrightarrow> good (unmounted h)"
  by (simp add: good_def unmounted_def own_live_def wanted_def)

lemma good_run:
  "\<forall>e \<in> set (tm_live h). fst e < tm_next h \<Longrightarrow> good (foldl (life_step eff cln) (unmounted h) evs)"
  by (induction evs rule: rev_induct) (simp_all add: good_start good_step)

text \<open>The two facts the pages need: exactly the wanted interval runs, and no other is touched.\<close>

lemma intervals_exact:
  "\<forall>e \<in> set (tm_live h). fst e < tm_next h \<Longrightarrow>
   own_live (foldl (life_step eff cln) (unmounted h) evs) =
     wanted (foldl (life_step eff cln) (unmounted h) evs)"
  using good_run good_def by blast

lemma interval_wanted:
  "good s \<Longrightarrow> mt_deps s = Some d \<Longrightarrow>
    map snd (own_live s) = (if act d then [period] else [])"
  by (auto simp: good_def wanted_def split: option.splits)

lemma no_interval_unmounted: "good s \<Longrightarrow> mt_deps s = None \<Longrightarrow> own_live s = []"
  by (simp add: good_def wanted_def)

lemma live_intervals:
  assumes "\<forall>e \<in> set (tm_live h). fst e < tm_next h"
    and "s = foldl (life_step eff cln) (unmounted h) evs"
  shows "map snd (own_live s) =
    (case mt_deps s of None \<Rightarrow> [] | Some d \<Rightarrow> if act d then [period] else [])"
  using good_run [OF assms(1), of evs] interval_wanted no_interval_unmounted
  by (auto simp: assms(2) split: option.split)

lemma foreign_live_deps:
  "foreign_live (s\<lparr> mt_deps := a, mt_ref := b \<rparr>) = foreign_live s"
  by (simp add: foreign_live_def)

lemma render_keeps_foreign:
  "good s \<Longrightarrow> ev \<in> {Render d, Replay, Unmount} \<Longrightarrow>
    foreign_live (life_step eff cln s ev) = foreign_live s"
  by (auto simp: foreign_effect foreign_cleanup idle_cleanup idle_unmounted
      foreign_live_deps split: option.split)

end

section \<open>The effects meet the contract\<close>

lemma poll_effect_laws:
  "act d \<Longrightarrow> fst (poll_effect (act d) (r, h)) = Some (tm_next h) \<and>
      tm_next (snd (poll_effect (act d) (r, h))) = tm_next h + 1 \<and>
      tm_live (snd (poll_effect (act d) (r, h))) = tm_live h @ [(tm_next h, POLL_INTERVAL_MS)]"
  "\<not> act d \<Longrightarrow> fst (poll_effect (act d) (r, h)) = None \<and>
      tm_next (snd (poll_effect (act d) (r, h))) = tm_next h \<and>
      tm_live (snd (poll_effect (act d) (r, h))) = filter (\<lambda>e. Some (fst e) \<noteq> r) (tm_live h)"
  by (auto simp: poll_effect_def setInterval_def clearInterval_def split: option.split)

lemma poll_cleanup_laws:
  "fst (poll_cleanup (r, h)) = r"
  "tm_next (snd (poll_cleanup (r, h))) = tm_next h \<and>
      tm_live (snd (poll_cleanup (r, h))) = filter (\<lambda>e. Some (fst e) \<noteq> r) (tm_live h)"
  by (auto simp: poll_cleanup_def clearInterval_def split: option.split)

interpretation poll: interval_effect poll_effect poll_cleanup "\<lambda>b. b" POLL_INTERVAL_MS
  by unfold_locales
    (use poll_effect_laws [where act = "\<lambda>b. b"] poll_cleanup_laws in blast)+

interpretation plain: interval_effect "\<lambda>_. plain_effect ms" poll_cleanup "\<lambda>_. True" ms for ms
  by unfold_locales
    (auto simp: plain_effect_def setInterval_def poll_cleanup_laws)

end
