(* ===== verification/Toast.thy ===== *)
theory Toast
  imports Polling
begin

text \<open>
  \<^verbatim>\<open>frontend/src/components/Toast.tsx\<close>: the toast provider. State: the module variable
  \<^verbatim>\<open>nextId\<close>, the list of visible toasts, and the pending timeouts of the window with the time
  they are due. The abstract view keeps every posted toast with its posting time; the
  provider shows those not dismissed and younger than four seconds.
\<close>

section \<open>State and operations\<close>

datatype toast_type = Toast_success | Toast_error | Toast_info

record toast_item =
  ti_id :: nat
  ti_type :: toast_type
  ti_message :: string

record toaster =
  to_nextId :: nat
  to_toasts :: "toast_item list"
  to_now :: nat
  to_pending :: "(nat \<times> nat) list"

definition fresh_toaster :: "nat \<Rightarrow> toaster" where
  "fresh_toaster now = \<lparr> to_nextId = 0, to_toasts = [], to_now = now, to_pending = [] \<rparr>"

definition useToast :: "'c option \<Rightarrow> 'c result" where
  "useToast ctx =
     (case ctx of None \<Rightarrow> Inl ''useToast must be used within ToastProvider'' | Some c \<Rightarrow> Inr c)"

definition toast :: "toast_type \<Rightarrow> string \<Rightarrow> toaster \<Rightarrow> toaster" where
  "toast type message s =
     s\<lparr> to_nextId := to_nextId s + 1,
        to_toasts := to_toasts s @ [\<lparr> ti_id = to_nextId s, ti_type = type, ti_message = message \<rparr>],
        to_pending := to_pending s @ [(to_now s + 4000, to_nextId s)] \<rparr>"

definition dismiss :: "nat \<Rightarrow> toaster \<Rightarrow> toaster" where
  "dismiss i s = s\<lparr> to_toasts := filter (\<lambda>t. ti_id t \<noteq> i) (to_toasts s) \<rparr>"

text \<open>Time passes: every timeout that is due runs its callback, in the order of posting.\<close>

definition pass_time :: "nat \<Rightarrow> toaster \<Rightarrow> toaster" where
  "pass_time ms s =
     (let now = to_now s + ms;
          due = filter (\<lambda>p. fst p \<le> now) (to_pending s);
          s' = foldl (\<lambda>u p. dismiss (snd p) u) s due
      in s'\<lparr> to_now := now, to_pending := filter (\<lambda>p. now < fst p) (to_pending s) \<rparr>)"

datatype toast_event = Post toast_type string | Dismiss nat | Pass nat

fun toast_step :: "toaster \<Rightarrow> toast_event \<Rightarrow> toaster" where
  "toast_step s (Post k m) = toast k m s"
| "toast_step s (Dismiss i) = dismiss i s"
| "toast_step s (Pass ms) = pass_time ms s"

section \<open>What is shown\<close>

record toast_style =
  sty_icon_fill :: string
  sty_bg :: string
  sty_border :: string
  sty_glow :: string

fun toast_icon :: "toast_type \<Rightarrow> string" where
  "toast_icon Toast_success = ''#10b981''"
| "toast_icon Toast_error = ''#ef4444''"
| "toast_icon Toast_info = ''#3b82f6''"

fun toast_colors :: "toast_type \<Rightarrow> string \<times> string \<times> string" where
  "toast_colors Toast_success =
     (''rgba(16,185,129,0.12)'', ''rgba(16,185,129,0.3)'', ''0 0 20px rgba(16,185,129,0.15)'')"
| "toast_colors Toast_error =
     (''rgba(239,68,68,0.12)'', ''rgba(239,68,68,0.3)'', ''0 0 20px rgba(239,68,68,0.15)'')"
| "toast_colors Toast_info =
     (''rgba(59,130,246,0.12)'', ''rgba(59,130,246,0.3)'', ''0 0 20px rgba(59,130,246,0.15)'')"

definition toast_view :: "toaster \<Rightarrow> (nat \<times> toast_style \<times> string \<times> (toaster \<Rightarrow> toaster)) list" where
  "toast_view s = map (\<lambda>t. let (bg, border, glow) = toast_colors (ti_type t) in
     (ti_id t,
      \<lparr> sty_icon_fill = toast_icon (ti_type t), sty_bg = bg,
        sty_border = ''1px solid '' @ border, sty_glow = glow \<rparr>,
      ti_message t, dismiss (ti_id t))) (to_toasts s)"

section \<open>The abstract toaster\<close>

record posted =
  pd_item :: toast_item
  pd_at :: nat

record abs_toaster =
  ab_next :: nat
  ab_now :: nat
  ab_log :: "posted list"

fun abs_step :: "abs_toaster \<Rightarrow> toast_event \<Rightarrow> abs_toaster" where
  "abs_step a (Post k m) =
     a\<lparr> ab_next := ab_next a + 1,
        ab_log := ab_log a @
          [\<lparr> pd_item = \<lparr> ti_id = ab_next a, ti_type = k, ti_message = m \<rparr>, pd_at = ab_now a \<rparr>] \<rparr>"
| "abs_step a (Dismiss i) = a\<lparr> ab_log := filter (\<lambda>p. ti_id (pd_item p) \<noteq> i) (ab_log a) \<rparr>"
| "abs_step a (Pass ms) = a\<lparr> ab_now := ab_now a + ms \<rparr>"

definition abs_start :: "nat \<Rightarrow> abs_toaster" where
  "abs_start now = \<lparr> ab_next = 0, ab_now = now, ab_log = [] \<rparr>"

definition abs_visible :: "abs_toaster \<Rightarrow> toast_item list" where
  "abs_visible a = map pd_item (filter (\<lambda>p. ab_now a < pd_at p + TOAST_DURATION) (ab_log a))"

section \<open>The provider implements it\<close>

definition toast_sim :: "toaster \<Rightarrow> abs_toaster \<Rightarrow> bool" where
  "toast_sim s a \<longleftrightarrow>
     to_nextId s = ab_next a \<and> to_now s = ab_now a \<and> to_toasts s = abs_visible a \<and>
     distinct (map (\<lambda>p. ti_id (pd_item p)) (ab_log a)) \<and>
     (\<forall>p \<in> set (ab_log a). ti_id (pd_item p) < ab_next a) \<and>
     (\<forall>p \<in> set (ab_log a). pd_at p \<le> ab_now a) \<and>
     (\<forall>d \<in> set (to_pending s). snd d < ab_next a \<and> fst d \<le> to_now s + TOAST_DURATION \<and>
        (\<forall>p \<in> set (ab_log a). ti_id (pd_item p) = snd d \<longrightarrow> fst d = pd_at p + TOAST_DURATION)) \<and>
     (\<forall>p \<in> set (ab_log a). ab_now a < pd_at p + TOAST_DURATION \<longrightarrow>
        (pd_at p + TOAST_DURATION, ti_id (pd_item p)) \<in> set (to_pending s))"

lemma dismiss_all: "foldl (\<lambda>u p. dismiss (snd p) u) s ps =
    s\<lparr> to_toasts := filter (\<lambda>t. ti_id t \<notin> snd ` set ps) (to_toasts s) \<rparr>"
  by (induction ps arbitrary: s) (auto simp: dismiss_def conj_commute intro!: filter_cong)

lemma sim_start: "toast_sim (fresh_toaster now) (abs_start now)"
  by (simp add: toast_sim_def fresh_toaster_def abs_start_def abs_visible_def)

lemma sim_post: "toast_sim s a \<Longrightarrow> toast_sim (toast k m s) (abs_step a (Post k m))"
proof -
  assume sim: "toast_sim s a"
  then have "to_toasts (toast k m s) = abs_visible (abs_step a (Post k m))"
    by (simp add: toast_sim_def toast_def abs_visible_def TOAST_DURATION_def)
  with sim show ?thesis
    by (fastforce simp: toast_sim_def toast_def TOAST_DURATION_def)
qed

lemma sim_dismiss: "toast_sim s a \<Longrightarrow> toast_sim (dismiss i s) (abs_step a (Dismiss i))"
proof -
  assume sim: "toast_sim s a"
  then have "to_toasts (dismiss i s) = abs_visible (abs_step a (Dismiss i))"
    by (simp add: toast_sim_def dismiss_def abs_visible_def filter_map o_def conj_commute)
  with sim show ?thesis
    by (auto simp: toast_sim_def dismiss_def distinct_map_filter)
qed

text \<open>A toast whose timeout runs is exactly one that is four seconds old.\<close>

lemma sim_pass: "toast_sim s a \<Longrightarrow> toast_sim (pass_time ms s) (abs_step a (Pass ms))"
proof -
  assume sim: "toast_sim s a"
  let ?now = "ab_now a + ms"
  let ?due = "snd ` set (filter (\<lambda>p. fst p \<le> ?now) (to_pending s))"
  have young: "ab_now a < pd_at p + TOAST_DURATION \<and> ti_id (pd_item p) \<notin> ?due \<longleftrightarrow>
      ?now < pd_at p + TOAST_DURATION" if p: "p \<in> set (ab_log a)" for p
  proof
    assume now: "ab_now a < pd_at p + TOAST_DURATION \<and> ti_id (pd_item p) \<notin> ?due"
    with sim p have "(pd_at p + TOAST_DURATION, ti_id (pd_item p)) \<in> set (to_pending s)"
      by (simp add: toast_sim_def)
    with now show "?now < pd_at p + TOAST_DURATION" by force
  next
    assume later: "?now < pd_at p + TOAST_DURATION"
    have "fst d = pd_at p + TOAST_DURATION"
      if "d \<in> set (to_pending s)" "snd d = ti_id (pd_item p)" for d
      using sim p that by (simp add: toast_sim_def)
    with later show "ab_now a < pd_at p + TOAST_DURATION \<and> ti_id (pd_item p) \<notin> ?due"
      by force
  qed
  have "filter (\<lambda>t. ti_id t \<notin> ?due) (abs_visible a) = map pd_item
      (filter (\<lambda>p. ab_now a < pd_at p + TOAST_DURATION \<and> ti_id (pd_item p) \<notin> ?due) (ab_log a))"
    by (simp add: abs_visible_def filter_map o_def conj_commute)
  also have "\<dots> = abs_visible (abs_step a (Pass ms))"
    using young by (simp add: abs_visible_def cong: filter_cong)
  finally have shown: "to_toasts (pass_time ms s) = abs_visible (abs_step a (Pass ms))"
    using sim by (simp add: pass_time_def dismiss_all Let_def toast_sim_def)
  from sim show ?thesis
    unfolding toast_sim_def [of "pass_time ms s"] shown
    by (auto simp: toast_sim_def pass_time_def dismiss_all Let_def trans_le_add1)
qed

text \<open>Four seconds without a new toast leave the screen empty and no timeout pending.\<close>

lemma sim_expires:
  assumes sim: "toast_sim t a"
  shows "to_toasts (pass_time (4000 + ms) t) = [] \<and> to_pending (pass_time (4000 + ms) t) = []"
  using sim sim_pass [OF sim, of "4000 + ms"]
  by (fastforce simp: toast_sim_def abs_visible_def TOAST_DURATION_def pass_time_def
      dismiss_all Let_def filter_empty_conv)
lemma sim_step: "toast_sim s a \<Longrightarrow> toast_sim (toast_step s ev) (abs_step a ev)"
  by (cases ev) (simp_all add: sim_post sim_dismiss sim_pass del: abs_step.simps)

lemma sim_run:
  "toast_sim (foldl toast_step (fresh_toaster now) evs) (foldl abs_step (abs_start now) evs)"
  by (induction evs rule: rev_induct) (simp_all add: sim_start sim_step del: abs_step.simps)

section \<open>Properties\<close>

text \<open>
  C10: the provider shows exactly the toasts that were not dismissed and are younger than
  four seconds, in the order they were posted and under distinct ids, after any sequence of
  posts, dismissals and passing time. In particular the timeout of a toast that was dismissed
  removes no other toast.
\<close>

theorem toasts_shown:
  "to_toasts (foldl toast_step (fresh_toaster now) evs)
     = abs_visible (foldl abs_step (abs_start now) evs) \<and>
   distinct (map ti_id (to_toasts (foldl toast_step (fresh_toaster now) evs)))"
proof -
  have sim: "toast_sim (foldl toast_step (fresh_toaster now) evs)
      (foldl abs_step (abs_start now) evs)"
    by (rule sim_run)
  then show ?thesis
    by (auto simp: toast_sim_def abs_visible_def distinct_map inj_on_def)
qed

end
