(* ===== verification/Dashboard.thy ===== *)
theory Dashboard
  imports Paging Stats Toast
begin

text \<open>
  \<^verbatim>\<open>frontend/src/pages/Dashboard.tsx\<close>: the page's state (its \<^verbatim>\<open>useState\<close> cells), its handlers and
  effects as state transformers, its requests as calls in flight that settle in a later event,
  and what it renders. A call carries what the handler's closure captured. Effects that React
  runs after a state change are part of the transformer that makes the change.
\<close>

section \<open>State\<close>

datatype dash_call = Call_list | Call_delete "string list" | Call_reset | Call_submit number

record dashboard =
  db_migrations :: "migration_record list option"
  db_loading :: bool
  db_error :: string
  db_runningDemo :: bool
  db_demoOutput :: string
  db_search :: string
  db_page :: nat
  db_selected :: "string list"
  db_showDeleteConfirm :: bool
  db_deleting :: bool
  db_poll :: "nat mount"
  db_calls :: "dash_call list"
  db_toaster :: toaster
  db_delayed :: "string list"
  db_navs :: "string list"
  db_left :: bool

definition fresh_dashboard :: "timers \<Rightarrow> toaster \<Rightarrow> dashboard" where
  "fresh_dashboard h t =
     \<lparr> db_migrations = Some [], db_loading = True, db_error = [], db_runningDemo = False,
       db_demoOutput = [], db_search = [], db_page = 0, db_selected = [],
       db_showDeleteConfirm = False, db_deleting = False, db_poll = unmounted h,
       db_calls = [], db_toaster = t, db_delayed = [], db_navs = [], db_left = False \<rparr>"

section \<open>Derived values\<close>

definition active :: "dashboard \<Rightarrow> migration_record list" where
  "active s = filter (\<lambda>m. \<not> mr_terminal m) (or_empty (db_migrations s))"

definition activeCount :: "dashboard \<Rightarrow> nat" where
  "activeCount s = length (active s)"

definition completed :: "dashboard \<Rightarrow> migration_record list" where
  "completed s = filter (\<lambda>m. mr_state m = Done) (or_empty (db_migrations s))"

definition rolledBack :: "dashboard \<Rightarrow> migration_record list" where
  "rolledBack s = filter (\<lambda>m. mr_state m = RolledBack) (or_empty (db_migrations s))"

definition success_total :: "dashboard \<Rightarrow> nat" where
  "success_total s = length (completed s) + length (rolledBack s)"

definition successRate :: "dashboard \<Rightarrow> number" where
  "successRate s =
     (if success_total s > 0
      then js_round (js_percent (num_of_nat (length (completed s))) (num_of_nat (success_total s)))
      else Fin 0)"

definition sparkDone :: "dashboard \<Rightarrow> number list" where
  "sparkDone s = map (\<lambda>(i, _). js_max (Fin 1)
       (js_sub (num_of_nat (length (completed s))) (num_of_nat i)))
     (enumerated (slice 0 12 (completed s)))"

definition sparkFailed :: "dashboard \<Rightarrow> number list" where
  "sparkFailed s = map (\<lambda>(i, _). js_min (Fin 3)
       (js_sub (num_of_nat (length (rolledBack s))) (num_of_nat i)))
     (enumerated (slice 0 12 (rolledBack s)))"

definition db_filtered :: "dashboard \<Rightarrow> migration_record list" where
  "db_filtered s = filtered (db_search s) (db_migrations s)"

definition db_paged :: "dashboard \<Rightarrow> migration_record list" where
  "db_paged s = paged (db_filtered s) (db_page s)"

definition db_totalPages :: "dashboard \<Rightarrow> nat" where
  "db_totalPages s = totalPages (db_filtered s)"

definition terminalPaged :: "dashboard \<Rightarrow> migration_record list" where
  "terminalPaged s = filter mr_terminal (db_paged s)"

definition is_selected :: "dashboard \<Rightarrow> migration_record \<Rightarrow> bool" where
  "is_selected s m \<longleftrightarrow> mr_migration_id m \<in> set (db_selected s)"

definition allPagedSelected :: "dashboard \<Rightarrow> bool" where
  "allPagedSelected s \<longleftrightarrow> terminalPaged s \<noteq> [] \<and> list_all (is_selected s) (terminalPaged s)"

definition somePagedSelected :: "dashboard \<Rightarrow> bool" where
  "somePagedSelected s \<longleftrightarrow> list_ex (is_selected s) (terminalPaged s)"

section \<open>Effects\<close>

definition dash_effect :: "nat \<Rightarrow> nat option \<times> timers \<Rightarrow> nat option \<times> timers" where
  "dash_effect n = poll_effect (0 < n)"

definition dash_mounted :: "dashboard \<Rightarrow> bool" where
  "dash_mounted s \<longleftrightarrow> mt_deps (db_poll s) \<noteq> None"

text \<open>The polling effect sees the number of active migrations.\<close>

definition render_poll :: "dashboard \<Rightarrow> dashboard" where
  "render_poll s =
     s\<lparr> db_poll := life_step dash_effect poll_cleanup (db_poll s) (Render (activeCount s)) \<rparr>"

text \<open>The effect on \<^verbatim>\<open>filtered\<close> drops selected ids that are no longer listed.\<close>

definition prune_selected :: "dashboard \<Rightarrow> dashboard" where
  "prune_selected s =
     s\<lparr> db_selected := filter (\<lambda>i. i \<in> set (map mr_migration_id (db_filtered s))) (db_selected s) \<rparr>"

definition set_migrations :: "migration_record list option \<Rightarrow> dashboard \<Rightarrow> dashboard" where
  "set_migrations data s =
     (let s' = s\<lparr> db_migrations := data \<rparr>
      in if dash_mounted s then prune_selected (render_poll s') else s')"

definition set_search :: "string \<Rightarrow> dashboard \<Rightarrow> dashboard" where
  "set_search q s =
     (if q = db_search s then s else prune_selected (s\<lparr> db_search := q, db_page := 0 \<rparr>))"

section \<open>Handlers\<close>

definition call :: "dash_call \<Rightarrow> dashboard \<Rightarrow> dashboard" where
  "call c s = s\<lparr> db_calls := db_calls s @ [c] \<rparr>"

definition post :: "toast_type \<Rightarrow> string \<Rightarrow> dashboard \<Rightarrow> dashboard" where
  "post k m s = s\<lparr> db_toaster := toast k m (db_toaster s) \<rparr>"

text \<open>\<^verbatim>\<open>fetchMigrations\<close> issues the request; \<open>fetched\<close> is the rest of it.\<close>

definition fetchMigrations :: "dashboard \<Rightarrow> dashboard" where
  "fetchMigrations s = call Call_list s"

definition fetched :: "migration_record list option result \<Rightarrow> dashboard \<Rightarrow> dashboard" where
  "fetched r s =
     (case r of
        Inr data \<Rightarrow> set_migrations data s
      | Inl e \<Rightarrow> s\<lparr> db_error := e \<rparr>)\<lparr> db_loading := False \<rparr>"

definition toggleSelect :: "string \<Rightarrow> dashboard \<Rightarrow> dashboard" where
  "toggleSelect i s =
     s\<lparr> db_selected := if i \<in> set (db_selected s) then os_delete i (db_selected s)
                       else os_add i (db_selected s) \<rparr>"

definition toggleSelectAll :: "dashboard \<Rightarrow> dashboard" where
  "toggleSelectAll s =
     (if allPagedSelected s
      then s\<lparr> db_selected :=
             foldl (\<lambda>n m. os_delete (mr_migration_id m) n) (db_selected s) (terminalPaged s) \<rparr>
      else s\<lparr> db_selected :=
             foldl (\<lambda>n m. os_add (mr_migration_id m) n) (db_selected s) (terminalPaged s) \<rparr>)"

definition plural :: "nat \<Rightarrow> string" where
  "plural n = (if n \<noteq> 1 then ''s'' else [])"

definition bulk_delete_start :: "dashboard \<Rightarrow> dashboard" where
  "bulk_delete_start s =
     call (Call_delete (db_selected s)) (s\<lparr> db_deleting := True, db_showDeleteConfirm := False \<rparr>)"

definition bulk_delete_done :: "string list \<Rightarrow> unit result \<Rightarrow> dashboard \<Rightarrow> dashboard" where
  "bulk_delete_done ids r s =
     (case r of
        Inr _ \<Rightarrow> fetchMigrations ((post Toast_success
            (''Deleted '' @ show_nat (length ids) @ '' migration'' @ plural (length ids)) s)
            \<lparr> db_selected := [] \<rparr>)
      | Inl e \<Rightarrow> post Toast_error e (s\<lparr> db_error := e \<rparr>))\<lparr> db_deleting := False \<rparr>"

definition run_demo_start :: "dashboard \<Rightarrow> dashboard" where
  "run_demo_start s =
     call Call_reset (s\<lparr> db_runningDemo := True, db_demoOutput := [], db_error := [] \<rparr>)"

definition demo_failed :: "string \<Rightarrow> dashboard \<Rightarrow> dashboard" where
  "demo_failed e s = (post Toast_error e (s\<lparr> db_error := e \<rparr>))\<lparr> db_runningDemo := False \<rparr>"

text \<open>After the reset the demo plan is submitted, its version the time \<open>now\<close> in seconds.\<close>

definition demo_reset :: "unit result \<Rightarrow> number \<Rightarrow> dashboard \<Rightarrow> dashboard" where
  "demo_reset r now s =
     (case r of
        Inr _ \<Rightarrow> call (Call_submit (js_floor (js_div now (Fin 1000)))) s
      | Inl e \<Rightarrow> demo_failed e s)"

definition demo_plan :: "number \<Rightarrow> migration_plan" where
  "demo_plan version = DEMO_PLAN\<lparr> mp_version := version \<rparr>"

definition demo_submitted :: "plan_submission result \<Rightarrow> dashboard \<Rightarrow> dashboard" where
  "demo_submitted r s =
     (case r of
        Inr result \<Rightarrow>
          (post Toast_success ''Demo started''
             (s\<lparr> db_demoOutput := ''Migration started: '' @ ps_migration_id result \<rparr>))
          \<lparr> db_delayed := db_delayed s @ [''/migrations/'' @ ps_migration_id result],
            db_runningDemo := False \<rparr>
      | Inl e \<Rightarrow> demo_failed e s)"

section \<open>What is shown\<close>

record stat_card =
  sd_label :: string
  sd_value :: stat_value
  sd_class :: "string option"
  sd_spark :: "sparkline option"

definition stat_cards :: "dashboard \<Rightarrow> stat_card list" where
  "stat_cards s =
     [\<lparr> sd_label = ''Total'', sd_value = Stat_num (num_of_nat (length (or_empty (db_migrations s)))),
        sd_class = None, sd_spark = Sparkline (sparkDone s) ''#818cf8'' \<rparr>,
      \<lparr> sd_label = ''Active'', sd_value = Stat_num (num_of_nat (length (active s))),
        sd_class = Some ''warning'', sd_spark = Sparkline (sparkFailed s) ''#fbbf24'' \<rparr>,
      \<lparr> sd_label = ''Done'', sd_value = Stat_num (num_of_nat (length (completed s))),
        sd_class = Some ''success'', sd_spark = Sparkline (sparkDone s) ''#34d399'' \<rparr>,
      \<lparr> sd_label = ''Rolled Back'', sd_value = Stat_num (num_of_nat (length (rolledBack s))),
        sd_class = Some ''danger'', sd_spark = Sparkline (sparkFailed s) ''#f87171'' \<rparr>]"

definition rate_card :: "dashboard \<Rightarrow> gauge \<times> string" where
  "rate_card s = (SuccessGauge (successRate s),
     show_nat (length (completed s)) @ '' of '' @ show_nat (success_total s))"

definition live_banner :: "dashboard \<Rightarrow> string option" where
  "live_banner s =
     (if length (active s) > 0
      then Some (show_nat (length (active s)) @ '' migration'' @
                 (if length (active s) > 1 then ''s'' else []) @ '' running'')
      else None)"

definition error_banner :: "string \<Rightarrow> string option" where
  "error_banner e = (if e = [] then None else Some e)"

record dash_row =
  rw_id :: string
  rw_selected :: bool
  rw_checkbox_disabled :: bool
  rw_aria :: string
  rw_plan_id :: string
  rw_state :: string
  rw_color :: string
  rw_dot :: string
  rw_status :: string
  rw_status_color :: string
  rw_updated :: string
  rw_target :: string

text \<open>A row of the table; \<open>fmt\<close> is the browser's date formatting.\<close>

definition row_view :: "(string \<Rightarrow> string) \<Rightarrow> dashboard \<Rightarrow> migration_record \<Rightarrow> dash_row" where
  "row_view fmt s m =
     (let isTerminal = mr_terminal m;
          dotClass = (if mr_state m = Done then ''done''
                      else if mr_state m = RolledBack then ''rollback'' else ''running'')
      in \<lparr> rw_id = mr_migration_id m,
           rw_selected = is_selected s m,
           rw_checkbox_disabled = (\<not> isTerminal),
           rw_aria = mr_plan_id m @ '', '' @ state_str (mr_state m),
           rw_plan_id = mr_plan_id m,
           rw_state = state_str (mr_state m),
           rw_color = STATE_COLORS (mr_state m),
           rw_dot = dotClass,
           rw_status = (if isTerminal then ''Terminal'' else ''Running''),
           rw_status_color = (if isTerminal then ''var(--success)'' else ''var(--warning)''),
           rw_updated = fmt (mr_updated_at m),
           rw_target = ''/migrations/'' @ mr_migration_id m \<rparr>)"

record bulk_bar =
  bb_count :: nat
  bb_disabled :: bool
  bb_label :: string

definition bulk_bar_view :: "dashboard \<Rightarrow> bulk_bar option" where
  "bulk_bar_view s =
     (if length (db_selected s) > 0
      then Some \<lparr> bb_count = length (db_selected s), bb_disabled = db_deleting s,
             bb_label = (if db_deleting s then ''...'' else ''Delete'') \<rparr>
      else None)"

record pager =
  pg_prev_disabled :: bool
  pg_items :: "(page_item \<times> bool) list"
  pg_next_disabled :: bool

definition pager_view :: "dashboard \<Rightarrow> pager option" where
  "pager_view s =
     (if db_totalPages s > 1
      then Some \<lparr> pg_prev_disabled = (db_page s = 0),
             pg_items = map (\<lambda>n. (n, n = Page (db_page s))) (pageNumbers (db_page s) (db_totalPages s)),
             pg_next_disabled = (int (db_page s) \<ge> int (db_totalPages s) - 1) \<rparr>
      else None)"

record table_view =
  tv_count :: nat
  tv_bulk :: "bulk_bar option"
  tv_all_checked :: bool
  tv_indeterminate :: bool
  tv_rows :: "dash_row list"
  tv_no_results :: "string option"
  tv_pager :: "pager option"

datatype dash_body = Body_loading | Body_empty | Body_table table_view

definition table_of :: "(string \<Rightarrow> string) \<Rightarrow> dashboard \<Rightarrow> table_view" where
  "table_of fmt s =
     \<lparr> tv_count = length (db_filtered s),
       tv_bulk = bulk_bar_view s,
       tv_all_checked = allPagedSelected s,
       tv_indeterminate = (somePagedSelected s \<and> \<not> allPagedSelected s),
       tv_rows = map (row_view fmt s) (db_paged s),
       tv_no_results = (if db_paged s = []
          then Some (''No results for \"'' @ db_search s @ ''\"'') else None),
       tv_pager = pager_view s \<rparr>"

definition dash_body :: "(string \<Rightarrow> string) \<Rightarrow> dashboard \<Rightarrow> dash_body" where
  "dash_body fmt s =
     (if db_loading s then Body_loading
      else if length (or_empty (db_migrations s)) = 0 then Body_empty
      else Body_table (table_of fmt s))"

definition run_button :: "dashboard \<Rightarrow> string \<times> bool" where
  "run_button s = (if db_runningDemo s then ''Running...'' else ''Run Demo'', db_runningDemo s)"

record delete_dialog =
  dd_open :: bool
  dd_title :: string
  dd_confirm :: string

definition delete_dialog_view :: "dashboard \<Rightarrow> delete_dialog" where
  "delete_dialog_view s =
     \<lparr> dd_open = db_showDeleteConfirm s,
       dd_title = ''Delete '' @ show_nat (length (db_selected s)) @ '' migration'' @
         plural (length (db_selected s)) @ ''?'',
       dd_confirm = (if db_deleting s then ''Deleting...''
         else ''Delete '' @ show_nat (length (db_selected s))) \<rparr>"

section \<open>Events\<close>

text \<open>
  What the user, the timers and the network do to the page. An event whose control is not on
  the screen, or whose call is not in flight, changes nothing: \<open>enabled\<close> lists the conditions.
\<close>

datatype dash_event =
    Mount
  | Leave
  | Poll_tick
  | Listed "migration_record list option result"
  | Deleted "string list" "unit result"
  | Demo_reset "unit result" number
  | Demo_submitted number "plan_submission result"
  | Delay_over
  | Search string
  | Toggle string
  | Toggle_all
  | Clear_selected
  | Ask_delete
  | Cancel_delete
  | Confirm_delete
  | Run_demo
  | Prev_page
  | Next_page
  | Go_page nat
  | Toaster toast_event

definition table_on :: "dashboard \<Rightarrow> bool" where
  "table_on s \<longleftrightarrow> dash_mounted s \<and> \<not> db_loading s \<and> or_empty (db_migrations s) \<noteq> []"

fun enabled :: "dashboard \<Rightarrow> dash_event \<Rightarrow> bool" where
  "enabled s Mount \<longleftrightarrow> \<not> dash_mounted s \<and> \<not> db_left s"
| "enabled s Leave \<longleftrightarrow> dash_mounted s"
| "enabled s Poll_tick \<longleftrightarrow> own_live (db_poll s) \<noteq> []"
| "enabled s (Listed r) \<longleftrightarrow> Call_list \<in> set (db_calls s)"
| "enabled s (Deleted ids r) \<longleftrightarrow> Call_delete ids \<in> set (db_calls s)"
| "enabled s (Demo_reset r now) \<longleftrightarrow> Call_reset \<in> set (db_calls s)"
| "enabled s (Demo_submitted v r) \<longleftrightarrow> Call_submit v \<in> set (db_calls s)"
| "enabled s Delay_over \<longleftrightarrow> db_delayed s \<noteq> []"
| "enabled s (Search q) \<longleftrightarrow> table_on s"
| "enabled s (Toggle i) \<longleftrightarrow>
     table_on s \<and> list_ex (\<lambda>m. mr_migration_id m = i \<and> mr_terminal m) (db_paged s)"
| "enabled s Toggle_all \<longleftrightarrow> table_on s"
| "enabled s Clear_selected \<longleftrightarrow> table_on s \<and> bulk_bar_view s \<noteq> None"
| "enabled s Ask_delete \<longleftrightarrow> table_on s \<and> bulk_bar_view s \<noteq> None \<and> \<not> db_deleting s"
| "enabled s Cancel_delete \<longleftrightarrow> dash_mounted s \<and> db_showDeleteConfirm s"
| "enabled s Confirm_delete \<longleftrightarrow> dash_mounted s \<and> db_showDeleteConfirm s"
| "enabled s Run_demo \<longleftrightarrow> dash_mounted s \<and> \<not> db_runningDemo s"
| "enabled s Prev_page \<longleftrightarrow>
     table_on s \<and> (case pager_view s of Some p \<Rightarrow> \<not> pg_prev_disabled p | None \<Rightarrow> False)"
| "enabled s Next_page \<longleftrightarrow>
     table_on s \<and> (case pager_view s of Some p \<Rightarrow> \<not> pg_next_disabled p | None \<Rightarrow> False)"
| "enabled s (Go_page n) \<longleftrightarrow> table_on s \<and>
     (case pager_view s of Some p \<Rightarrow> Page n \<in> set (map fst (pg_items p)) | None \<Rightarrow> False)"
| "enabled s (Toaster e) \<longleftrightarrow> True"

definition settle :: "dash_call \<Rightarrow> dashboard \<Rightarrow> dashboard" where
  "settle c s = s\<lparr> db_calls := remove1 c (db_calls s) \<rparr>"

definition navigate_now :: "dashboard \<Rightarrow> dashboard" where
  "navigate_now s = s\<lparr> db_navs := db_navs s @ [hd (db_delayed s)], db_delayed := tl (db_delayed s) \<rparr>"

fun handle :: "dashboard \<Rightarrow> dash_event \<Rightarrow> dashboard" where
  "handle s Mount = render_poll (fetchMigrations s)"
| "handle s Leave =
     s\<lparr> db_poll := life_step dash_effect poll_cleanup (db_poll s) Unmount, db_left := True \<rparr>"
| "handle s Poll_tick = fetchMigrations s"
| "handle s (Listed r) = fetched r (settle Call_list s)"
| "handle s (Deleted ids r) = bulk_delete_done ids r (settle (Call_delete ids) s)"
| "handle s (Demo_reset r now) = demo_reset r now (settle Call_reset s)"
| "handle s (Demo_submitted v r) = demo_submitted r (settle (Call_submit v) s)"
| "handle s Delay_over = navigate_now s"
| "handle s (Search q) = set_search q s"
| "handle s (Toggle i) = toggleSelect i s"
| "handle s Toggle_all = toggleSelectAll s"
| "handle s Clear_selected = s\<lparr> db_selected := [] \<rparr>"
| "handle s Ask_delete = s\<lparr> db_showDeleteConfirm := True \<rparr>"
| "handle s Cancel_delete = s\<lparr> db_showDeleteConfirm := False \<rparr>"
| "handle s Confirm_delete = bulk_delete_start s"
| "handle s Run_demo = run_demo_start s"
| "handle s Prev_page = s\<lparr> db_page := db_page s - 1 \<rparr>"
| "handle s Next_page = s\<lparr> db_page := db_page s + 1 \<rparr>"
| "handle s (Go_page n) = s\<lparr> db_page := n \<rparr>"
| "handle s (Toaster e) = s\<lparr> db_toaster := toast_step (db_toaster s) e \<rparr>"

definition dash_step :: "dashboard \<Rightarrow> dash_event \<Rightarrow> dashboard" where
  "dash_step s ev = (if enabled s ev then handle s ev else s)"

end
