(* ===== verification/DashProps.thy ===== *)
theory DashProps
  imports Dashboard
begin

text \<open>
  What holds on every run of the dashboard (\<^verbatim>\<open>Dashboard.thy\<close>): its polling, its selection and
  bulk deletion, its demo, and the figures it shows.
\<close>

section \<open>Unfolding a step\<close>

lemmas dash_steps = dash_step_def fetchMigrations_def fetched_def call_def settle_def post_def
  set_search_def toggleSelect_def toggleSelectAll_def bulk_delete_start_def bulk_delete_done_def
  run_demo_start_def demo_reset_def demo_failed_def demo_submitted_def navigate_now_def

lemma set_migrations_fields [simp]:
  "db_calls (set_migrations d s) = db_calls s" "db_deleting (set_migrations d s) = db_deleting s"
  "db_showDeleteConfirm (set_migrations d s) = db_showDeleteConfirm s"
  "db_runningDemo (set_migrations d s) = db_runningDemo s"
  "db_error (set_migrations d s) = db_error s" "db_page (set_migrations d s) = db_page s"
  "db_search (set_migrations d s) = db_search s" "db_migrations (set_migrations d s) = d"
  "db_loading (set_migrations d s) = db_loading s" "db_toaster (set_migrations d s) = db_toaster s"
  "db_delayed (set_migrations d s) = db_delayed s" "db_navs (set_migrations d s) = db_navs s"
  by (simp_all add: set_migrations_def prune_selected_def render_poll_def Let_def)

lemma render_poll_fields [simp]:
  "db_calls (render_poll s) = db_calls s" "db_deleting (render_poll s) = db_deleting s"
  "db_showDeleteConfirm (render_poll s) = db_showDeleteConfirm s"
  "db_runningDemo (render_poll s) = db_runningDemo s"
  "db_error (render_poll s) = db_error s" "db_migrations (render_poll s) = db_migrations s"
  "db_search (render_poll s) = db_search s" "db_selected (render_poll s) = db_selected s"
  by (simp_all add: render_poll_def)

lemma prune_fields [simp]:
  "db_calls (prune_selected s) = db_calls s" "db_deleting (prune_selected s) = db_deleting s"
  "db_showDeleteConfirm (prune_selected s) = db_showDeleteConfirm s"
  "db_runningDemo (prune_selected s) = db_runningDemo s"
  "db_error (prune_selected s) = db_error s" "db_migrations (prune_selected s) = db_migrations s"
  "db_search (prune_selected s) = db_search s" "db_poll (prune_selected s) = db_poll s"
  by (simp_all add: prune_selected_def)

section \<open>One request at a time\<close>

definition is_delete :: "dash_call \<Rightarrow> bool" where
  "is_delete c = (case c of Call_delete _ \<Rightarrow> True | _ \<Rightarrow> False)"

definition is_demo :: "dash_call \<Rightarrow> bool" where
  "is_demo c = (case c of Call_reset \<Rightarrow> True | Call_submit _ \<Rightarrow> True | _ \<Rightarrow> False)"

lemma is_call_simps [simp]:
  "is_delete (Call_delete ids)" "\<not> is_delete Call_list" "\<not> is_delete Call_reset"
  "\<not> is_delete (Call_submit v)" "is_demo Call_reset" "is_demo (Call_submit v)"
  "\<not> is_demo Call_list" "\<not> is_demo (Call_delete ids)"
  by (simp_all add: is_delete_def is_demo_def)

definition in_flight :: "(dash_call \<Rightarrow> bool) \<Rightarrow> dash_call list \<Rightarrow> nat" where
  "in_flight P cs = length (filter P cs)"

lemma in_flight_simps [simp]:
  "in_flight P [] = 0"
  "in_flight P (cs @ [c]) = in_flight P cs + (if P c then 1 else 0)"
  by (simp_all add: in_flight_def)

lemma in_flight_remove [simp]:
  "c \<in> set cs \<Longrightarrow> in_flight P (remove1 c cs) = in_flight P cs - (if P c then 1 else 0)"
proof (induction cs)
  case (Cons d cs)
  show ?case
  proof (cases "c = d")
    case False
    then have "c \<in> set cs" using Cons.prems by simp
    then have "P c \<Longrightarrow> 0 < length (filter P cs)" by (auto simp: filter_empty_conv)
    then show ?thesis using Cons False by (auto simp: in_flight_def)
  qed (simp add: in_flight_def)
qed simp

definition flags_ok :: "dashboard \<Rightarrow> bool" where
  "flags_ok s \<longleftrightarrow>
     in_flight is_delete (db_calls s) = (if db_deleting s then 1 else 0) \<and>
     in_flight is_demo (db_calls s) = (if db_runningDemo s then 1 else 0) \<and>
     (db_showDeleteConfirm s \<longrightarrow> \<not> db_deleting s)"

lemma in_flight_member: "c \<in> set cs \<Longrightarrow> P c \<Longrightarrow> in_flight P cs \<noteq> 0"
  by (auto simp: in_flight_def filter_empty_conv)

lemma flags_step: "flags_ok s \<Longrightarrow> flags_ok (dash_step s ev)"
  by (cases ev)
    (auto simp: dash_steps flags_ok_def dest: in_flight_member [where P = is_demo]
      split: sum.split if_splits)

lemma flags_run: "flags_ok (foldl dash_step (fresh_dashboard h t) evs)"
proof (induction evs rule: rev_induct)
  case Nil
  show ?case by (simp add: flags_ok_def fresh_dashboard_def)
qed (simp add: flags_step)

section \<open>Polling\<close>

interpretation dash: interval_effect dash_effect poll_cleanup "\<lambda>n. 0 < n" POLL_INTERVAL_MS
  by unfold_locales
    (use poll_effect_laws [where act = "\<lambda>n. 0 < n"] poll_cleanup_laws
      in \<open>unfold dash_effect_def, blast\<close>)+

definition poll_ok :: "dashboard \<Rightarrow> bool" where
  "poll_ok s \<longleftrightarrow> dash.good (db_poll s) \<and>
     (dash_mounted s \<longrightarrow> mt_deps (db_poll s) = Some (activeCount s))"

lemma deps_render [simp]: "mt_deps (life_step eff cln p (Render d)) = Some d"
  by (auto simp: run_effect_def case_prod_beta Let_def split: option.split)

lemma activeCount_cong: "db_migrations s = db_migrations s' \<Longrightarrow> activeCount s = activeCount s'"
  by (simp add: activeCount_def active_def)

lemma poll_ok_render: "poll_ok s \<Longrightarrow> poll_ok (render_poll s)"
  by (simp add: poll_ok_def render_poll_def dash.good_step activeCount_def active_def
      dash_mounted_def del: life_step.simps)

lemma poll_ok_set: "poll_ok s \<Longrightarrow> poll_ok (set_migrations d s)"
proof (cases "dash_mounted s")
  case True
  assume ok: "poll_ok s"
  then have "dash.good (db_poll s)" by (simp add: poll_ok_def)
  with True show ?thesis
    by (simp add: set_migrations_def Let_def poll_ok_def render_poll_def dash.good_step
        activeCount_def active_def prune_selected_def del: life_step.simps)
qed (simp add: set_migrations_def poll_ok_def dash_mounted_def)

lemma poll_ok_cong:
  "db_poll s = db_poll s' \<Longrightarrow> db_migrations s = db_migrations s' \<Longrightarrow> poll_ok s = poll_ok s'"
  using activeCount_cong [of s s'] by (simp add: poll_ok_def dash_mounted_def)

lemma same_poll:
  assumes "\<forall>r. ev \<noteq> Listed r" and "ev \<noteq> Mount" and "ev \<noteq> Leave"
  shows "db_poll (dash_step s ev) = db_poll s \<and> db_migrations (dash_step s ev) = db_migrations s"
  using assms by (cases ev) (auto simp: dash_steps split: sum.split)

lemma poll_ok_step: "poll_ok s \<Longrightarrow> poll_ok (dash_step s ev)"
proof -
  assume ok: "poll_ok s"
  consider (list) r where "ev = Listed r" | (mount) "ev = Mount" | (leave) "ev = Leave"
    | (other) "\<forall>r. ev \<noteq> Listed r" "ev \<noteq> Mount" "ev \<noteq> Leave" by blast
  then show ?thesis
  proof cases
    case list
    have "poll_ok (settle Call_list s)"
      using ok poll_ok_cong [of s "settle Call_list s"] by (simp add: settle_def)
    then have "poll_ok (fetched r (settle Call_list s))"
    proof (cases r)
      case (Inr d)
      assume "poll_ok (settle Call_list s)"
      then have "poll_ok (set_migrations d (settle Call_list s))" by (rule poll_ok_set)
      then show ?thesis
        using poll_ok_cong [of "fetched r (settle Call_list s)" "set_migrations d (settle Call_list s)"]
        by (simp add: Inr fetched_def)
    next
      case (Inl e)
      assume "poll_ok (settle Call_list s)"
      then show ?thesis
        using poll_ok_cong [of "fetched r (settle Call_list s)" "settle Call_list s"]
        by (simp add: Inl fetched_def)
    qed
    with ok show ?thesis by (simp add: list dash_step_def)
  next
    case mount
    have "poll_ok (fetchMigrations s)"
      using ok poll_ok_cong [of "fetchMigrations s" s] by (simp add: fetchMigrations_def call_def)
    with ok show ?thesis by (simp add: mount dash_step_def poll_ok_render)
  next
    case leave
    have "mt_deps (life_step dash_effect poll_cleanup (db_poll s) Unmount) = None"
      by (simp split: option.split)
    with ok show ?thesis
      by (simp add: leave dash_step_def poll_ok_def dash.good_step dash_mounted_def
          del: life_step.simps)
  next
    case other
    then show ?thesis using ok same_poll [OF other, of s] poll_ok_cong by metis
  qed
qed

lemma poll_ok_run:
  assumes "\<forall>e \<in> set (tm_live h). fst e < tm_next h"
  shows "poll_ok (foldl dash_step (fresh_dashboard h t) evs)"
proof (induction evs rule: rev_induct)
  case Nil
  show ?case
    using dash.good_start [OF assms]
    by (simp add: poll_ok_def fresh_dashboard_def dash_mounted_def unmounted_def)
qed (simp add: poll_ok_step)

lemma dash_periods:
  "poll_ok s \<Longrightarrow>
    map snd (own_live (db_poll s)) = (if dash_mounted s \<and> activeCount s > 0 then [2000] else [])"
proof (cases "dash_mounted s")
  case True
  assume "poll_ok s"
  with True dash.interval_wanted [of "db_poll s" "activeCount s"] show ?thesis
    by (simp add: poll_ok_def POLL_INTERVAL_MS_def)
next
  case False
  assume "poll_ok s"
  with False dash.no_interval_unmounted [of "db_poll s"] show ?thesis
    by (simp add: poll_ok_def dash_mounted_def)
qed

section \<open>Selection\<close>

text \<open>The ids a list shows as ended.\<close>

definition terminal_ids :: "migration_record list \<Rightarrow> string set" where
  "terminal_ids ms = mr_migration_id ` set (filter mr_terminal ms)"

lemma set_terminalPaged:
  "set (terminalPaged s) \<subseteq> {m \<in> set (or_empty (db_migrations s)). mr_terminal m}"
  using set_paged [of "db_filtered s" "db_page s"] set_filtered [of "db_search s" "db_migrations s"]
  by (auto simp: terminalPaged_def db_paged_def db_filtered_def)

lemma set_db_paged: "set (db_paged s) \<subseteq> set (db_filtered s)"
  by (simp add: db_paged_def set_paged)

lemma set_db_filtered: "set (db_filtered s) \<subseteq> set (or_empty (db_migrations s))"
  by (simp add: db_filtered_def set_filtered)

lemma selected_set_migrations: "set (db_selected (set_migrations d s)) \<subseteq> set (db_selected s)"
  by (auto simp: set_migrations_def prune_selected_def Let_def)

lemma toggle_all_selected:
  "set (db_selected (toggleSelectAll s)) =
     (if allPagedSelected s then set (db_selected s) - mr_migration_id ` set (terminalPaged s)
      else set (db_selected s) \<union> mr_migration_id ` set (terminalPaged s))"
  by (simp add: toggleSelectAll_def set_fold_os_delete set_fold_os_add)

text \<open>While the page is mounted, every selected id is listed.\<close>

definition listed_ok :: "dashboard \<Rightarrow> bool" where
  "listed_ok s \<longleftrightarrow> distinct (db_selected s) \<and>
     (dash_mounted s \<longrightarrow> set (db_selected s) \<subseteq> mr_migration_id ` set (db_filtered s)) \<and>
     (\<not> dash_mounted s \<and> \<not> db_left s \<longrightarrow> db_selected s = [])"

lemma prune_listed: "set (db_selected (prune_selected s)) \<subseteq> mr_migration_id ` set (db_filtered (prune_selected s))"
  by (auto simp: prune_selected_def db_filtered_def)

lemma prune_distinct: "distinct (db_selected s) \<Longrightarrow> distinct (db_selected (prune_selected s))"
  by (simp add: prune_selected_def)

lemma mounted_render [simp]: "dash_mounted (render_poll s)"
  by (simp add: dash_mounted_def render_poll_def del: life_step.simps)

lemma mounted_prune [simp]: "dash_mounted (prune_selected s) = dash_mounted s"
  by (simp add: dash_mounted_def)

lemma listed_cong:
  assumes "listed_ok s" and "db_poll s' = db_poll s" and "db_left s' = db_left s"
    and "db_filtered s' = db_filtered s"
    and "set (db_selected s') \<subseteq> set (db_selected s)" and "distinct (db_selected s')"
  shows "listed_ok s'"
  using assms by (auto simp: listed_ok_def dash_mounted_def)

lemma listed_set_migrations: "listed_ok s \<Longrightarrow> listed_ok (set_migrations d s)"
proof (cases "dash_mounted s")
  case True
  assume "listed_ok s"
  then have "distinct (db_selected s)" by (simp add: listed_ok_def)
  with True show ?thesis
    using prune_listed [of "render_poll (s\<lparr> db_migrations := d \<rparr>)"]
    by (simp add: listed_ok_def set_migrations_def Let_def prune_distinct)
next
  case False
  assume "listed_ok s"
  with False show ?thesis by (simp add: listed_ok_def set_migrations_def dash_mounted_def)
qed

lemma listed_toggle: "listed_ok s \<Longrightarrow> listed_ok (dash_step s (Toggle i))"
proof -
  assume ok: "listed_ok s"
  have "i \<in> mr_migration_id ` set (db_filtered s)" if "enabled s (Toggle i)"
    using that set_db_paged [of s] by (auto simp: list_ex_iff)
  with ok show ?thesis
    by (auto simp: dash_step_def toggleSelect_def listed_ok_def dash_mounted_def db_filtered_def
        table_on_def)
qed

lemma listed_toggle_all: "listed_ok s \<Longrightarrow> listed_ok (dash_step s Toggle_all)"
proof -
  assume ok: "listed_ok s"
  have "mr_migration_id ` set (terminalPaged s) \<subseteq> mr_migration_id ` set (db_filtered s)"
    using set_db_paged [of s] by (auto simp: terminalPaged_def)
  moreover have "db_filtered (toggleSelectAll s) = db_filtered s \<and>
      db_poll (toggleSelectAll s) = db_poll s \<and> db_left (toggleSelectAll s) = db_left s"
    by (simp add: toggleSelectAll_def db_filtered_def)
  moreover have "distinct (db_selected (toggleSelectAll s))"
    using ok by (simp add: toggleSelectAll_def listed_ok_def distinct_fold_os_delete
        distinct_fold_os_add)
  ultimately show ?thesis
    using ok by (auto simp: dash_step_def listed_ok_def toggle_all_selected dash_mounted_def
        table_on_def)
qed

lemma listed_search: "listed_ok s \<Longrightarrow> listed_ok (dash_step s (Search q))"
  using prune_listed [of "s\<lparr> db_search := q, db_page := 0 \<rparr>"]
  by (auto simp: dash_step_def set_search_def listed_ok_def prune_distinct table_on_def
      dash_mounted_def)

lemma listed_listed: "listed_ok s \<Longrightarrow> listed_ok (dash_step s (Listed r))"
proof -
  assume "listed_ok s"
  then have ok: "listed_ok (settle Call_list s)"
    by (simp add: listed_ok_def settle_def db_filtered_def dash_mounted_def)
  show ?thesis
  proof (cases r)
    case (Inr d)
    have "listed_ok (set_migrations d (settle Call_list s))" by (rule listed_set_migrations [OF ok])
    then have "listed_ok ((set_migrations d (settle Call_list s))\<lparr> db_loading := False \<rparr>)"
      by (simp add: listed_ok_def dash_mounted_def db_filtered_def)
    with \<open>listed_ok s\<close> show ?thesis by (simp add: dash_step_def Inr fetched_def)
  next
    case (Inl e)
    with ok \<open>listed_ok s\<close> show ?thesis
      by (simp add: dash_step_def fetched_def listed_ok_def dash_mounted_def db_filtered_def)
  qed
qed

lemma listed_mount: "listed_ok s \<Longrightarrow> listed_ok (dash_step s Mount)"
  by (simp add: dash_step_def listed_ok_def fetchMigrations_def call_def)

lemma listed_leave: "listed_ok s \<Longrightarrow> listed_ok (dash_step s Leave)"
  by (auto simp: dash_step_def listed_ok_def dash_mounted_def split: option.split)

lemma listed_other:
  assumes "listed_ok s"
    and "\<forall>r. ev \<noteq> Listed r" "ev \<noteq> Mount" "ev \<noteq> Leave" "\<forall>i. ev \<noteq> Toggle i" "ev \<noteq> Toggle_all"
      "\<forall>q. ev \<noteq> Search q"
  shows "listed_ok (dash_step s ev)"
proof (rule listed_cong [OF assms(1)])
  show "db_poll (dash_step s ev) = db_poll s" using same_poll assms(2-4) by blast
  show "db_left (dash_step s ev) = db_left s"
    using assms(2-7) by (cases ev) (auto simp: dash_steps split: sum.split)
  show "db_filtered (dash_step s ev) = db_filtered s"
    using assms(2-7) by (cases ev) (auto simp: dash_steps db_filtered_def split: sum.split)
  show "set (db_selected (dash_step s ev)) \<subseteq> set (db_selected s)"
    using assms(2-7) by (cases ev) (auto simp: dash_steps split: sum.split if_splits)
  show "distinct (db_selected (dash_step s ev))"
    using assms by (cases ev) (auto simp: dash_steps listed_ok_def split: sum.split)
qed

lemma listed_step: "listed_ok s \<Longrightarrow> listed_ok (dash_step s ev)"
  using listed_listed listed_mount listed_leave listed_toggle listed_toggle_all listed_search
    listed_other by metis

lemma listed_run: "listed_ok (foldl dash_step (fresh_dashboard h t) evs)"
proof (induction evs rule: rev_induct)
  case Nil
  show ?case by (simp add: listed_ok_def fresh_dashboard_def dash_mounted_def unmounted_def)
qed (simp add: listed_step)

section \<open>Figures\<close>

lemma successRate_nat:
  assumes "length (or_empty (db_migrations s)) \<le> 2 ^ 52"
  shows "\<exists>k \<le> 100. successRate s = Fin (of_nat k)"
proof (cases "success_total s = 0")
  case False
  let ?c = "length (completed s)" and ?n = "success_total s"
  have "?c \<le> 2 ^ 52" "length (rolledBack s) \<le> 2 ^ 52"
    using assms le_trans [OF length_filter_le] by (auto simp: completed_def rolledBack_def)
  then have n: "?n \<le> 2 ^ 53" by (simp add: success_total_def)
  moreover have c: "?c \<le> ?n" by (simp add: success_total_def)
  ultimately have eq: "num_of_nat ?c = Fin (of_nat ?c)" "num_of_nat ?n = Fin (of_nat ?n)"
    by simp_all
  obtain p where p: "js_percent (Fin (of_nat ?c)) (Fin (of_nat ?n)) = Fin p" "0 \<le> p" "p \<le> 100"
    using js_percent_range [of "of_nat ?c" "of_nat ?n"] c False by auto
  obtain k where "js_round (Fin p) = Fin (of_nat k)" "k \<le> 100"
    using js_round_range [of p 100] p by auto
  then show ?thesis using False by (auto simp: successRate_def eq p)
qed (auto simp: successRate_def)

section \<open>Errors\<close>

text \<open>Events that neither bring an error nor start the demo.\<close>

fun keeps_error :: "dash_event \<Rightarrow> bool" where
  "keeps_error (Listed (Inl e)) = False"
| "keeps_error (Deleted ids (Inl e)) = False"
| "keeps_error (Demo_reset (Inl e) now) = False"
| "keeps_error (Demo_submitted v (Inl e)) = False"
| "keeps_error Run_demo = False"
| "keeps_error _ = True"

lemma error_step: "keeps_error ev \<Longrightarrow> db_error (dash_step s ev) = db_error s"
  by (cases ev rule: keeps_error.cases) (auto simp: dash_steps prune_selected_def)

lemma error_run: "list_all keeps_error evs \<Longrightarrow> db_error (foldl dash_step s evs) = db_error s"
  by (induction evs arbitrary: s) (simp_all add: error_step)

section \<open>A concrete run\<close>

definition sample_list :: "migration_record list" where
  "sample_list = [bare_record ''m1'' ''p1'' Done True, bare_record ''m2'' ''p2'' Canary False]"

definition sample_run :: "dash_event list" where
  "sample_run = [Mount, Listed (Inr (Some sample_list)), Toggle ''m1'', Ask_delete, Confirm_delete]"

definition sample_start :: dashboard where
  "sample_start = fresh_dashboard no_timers (fresh_toaster 0)"

lemma sample_facts:
  "dash_mounted (foldl dash_step sample_start sample_run)"
  by code_simp+

lemma sample_polls:
  "dash_mounted (foldl dash_step sample_start [Mount, Listed (Inr (Some sample_list))])"
  "activeCount (foldl dash_step sample_start [Mount, Listed (Inr (Some sample_list))]) = 1"
  by code_simp+

definition sample_mounted :: dashboard where
  "sample_mounted = dash_step sample_start Mount"

lemma sample_mounted_facts:
  "mt_deps (db_poll sample_mounted) = Some 0" "db_calls sample_mounted = [Call_list]"
  "db_search sample_mounted = []" "\<not> db_runningDemo sample_mounted"
  "db_delayed sample_mounted = []" "db_navs sample_mounted = []"
  by code_simp+

section \<open>Properties\<close>

text \<open>
  C11: the selection the delete request is built from holds listed migrations only: at every
  moment the selected ids are distinct and, while the page is mounted, each is the id of a
  migration that the current search shows.
\<close>

theorem selection_is_listed:
  assumes "s = foldl dash_step (fresh_dashboard h t) evs" and "dash_mounted s"
  shows "distinct (db_selected s) \<and> set (db_selected s) \<subseteq> mr_migration_id ` set (db_filtered s) \<and>
    (db_showDeleteConfirm s \<longrightarrow> Call_delete (db_selected s) \<in> set (db_calls (dash_step s Confirm_delete)))"
  using listed_run [of h t evs] assms
  by (simp add: listed_ok_def dash_step_def bulk_delete_start_def call_def)

theorem selection_is_listed_witness:
  "set (db_selected (foldl dash_step sample_start sample_run))
     \<subseteq> mr_migration_id ` set (db_filtered (foldl dash_step sample_start sample_run))"
  using selection_is_listed [OF refl, of no_timers "fresh_toaster 0" sample_run] sample_facts
  by (simp add: sample_start_def)

text \<open>
  C22: one bulk deletion and one demo at a time. At every moment at most one delete request and at
  most one request of the demo is in flight, exactly while the page shows it as busy.
\<close>

theorem one_request_at_a_time:
  "in_flight is_delete (db_calls (foldl dash_step (fresh_dashboard h t) evs))
     = (if db_deleting (foldl dash_step (fresh_dashboard h t) evs) then 1 else 0) \<and>
   in_flight is_demo (db_calls (foldl dash_step (fresh_dashboard h t) evs))
     = (if db_runningDemo (foldl dash_step (fresh_dashboard h t) evs) then 1 else 0)"
  using flags_run [of h t evs] by (simp add: flags_ok_def)

text \<open>
  C12: the page polls exactly while it has to. After any run, the page's own running intervals are
  one interval of two seconds if it is mounted and lists a migration that is not terminal, and none
  otherwise: polling starts and stops with the work, and nothing is left running after leaving.
\<close>

theorem dashboard_polls_iff_active:
  assumes "\<forall>e \<in> set (tm_live h). fst e < tm_next h"
    and "s = foldl dash_step (fresh_dashboard h t) evs"
  shows "map snd (own_live (db_poll s)) = (if dash_mounted s \<and> activeCount s > 0 then [2000] else [])"
  using poll_ok_run [OF assms(1)] by (simp add: assms(2) dash_periods)

theorem dashboard_polls_iff_active_witness:
  "map snd (own_live (db_poll (foldl dash_step (fresh_dashboard no_timers (fresh_toaster 0))
      [Mount, Listed (Inr (Some sample_list))]))) = [2000]"
  using dashboard_polls_iff_active [OF _ refl, of no_timers "fresh_toaster 0"
      "[Mount, Listed (Inr (Some sample_list))]"] sample_polls
  by (simp add: no_timers_def sample_start_def)

text \<open>
  Select-all selects or clears the terminal rows of the page and nothing else, and flips its
  own check mark whenever the page has a terminal row.
\<close>

theorem select_all_exact:
  "set (db_selected (toggleSelectAll s)) =
     (if allPagedSelected s then set (db_selected s) - mr_migration_id ` set (terminalPaged s)
      else set (db_selected s) \<union> mr_migration_id ` set (terminalPaged s)) \<and>
   (terminalPaged s = [] \<or> allPagedSelected (toggleSelectAll s) = (\<not> allPagedSelected s))"
proof -
  have tp: "terminalPaged (toggleSelectAll s) = terminalPaged s"
    by (simp add: toggleSelectAll_def terminalPaged_def db_paged_def db_filtered_def)
  have "allPagedSelected (toggleSelectAll s) = (\<not> allPagedSelected s)" if ne: "terminalPaged s \<noteq> []"
  proof -
    obtain m where "m \<in> set (terminalPaged s)" using ne by (cases "terminalPaged s") auto
    then show ?thesis
      using ne by (auto simp: allPagedSelected_def [of "toggleSelectAll s"] tp list_all_iff
          is_selected_def toggle_all_selected)
  qed
  then show ?thesis using toggle_all_selected by blast
qed

text \<open>
  An error banner outlives the error. Once an error is shown, no successful answer removes it:
  it stays through any events in which the demo is not started and nothing fails.
\<close>

theorem error_banner_sticks:
  assumes "list_all keeps_error evs"
  shows "error_banner (db_error (foldl dash_step s evs)) = error_banner (db_error s)"
  by (simp add: error_run [OF assms])

theorem error_banner_sticks_witness:
  "error_banner (db_error (foldl dash_step (sample_start\<lparr> db_error := ''list migrations: 503'' \<rparr>)
      [Mount, Listed (Inr None), Listed (Inr (Some []))])) = Some ''list migrations: 503''"
  using error_banner_sticks [of "[Mount, Listed (Inr None), Listed (Inr (Some []))]"
      "sample_start\<lparr> db_error := ''list migrations: 503'' \<rparr>"]
  by (simp add: error_banner_def)

text \<open>
  The success rate is a whole number of per cent between 0 and 100; it is 100 when at least
  one migration is done and none was rolled back, and 0 when none is done.
\<close>

theorem success_rate_range:
  assumes "length (or_empty (db_migrations s)) \<le> 2 ^ 52"
  shows "\<exists>k \<le> 100. successRate s = Fin (of_nat k) \<and>
    (completed s \<noteq> [] \<and> rolledBack s = [] \<longrightarrow> k = 100) \<and> (completed s = [] \<longrightarrow> k = 0)"
proof -
  obtain k where k: "k \<le> 100" "successRate s = Fin (of_nat k)"
    using successRate_nat [OF assms] by auto
  have m: "length (or_empty (db_migrations s)) \<le> 2 ^ 53" using assms by simp
  have c: "length (completed s) \<le> 2 ^ 53" and r: "length (rolledBack s) \<le> 2 ^ 53"
    unfolding completed_def rolledBack_def by (rule le_trans [OF length_filter_le m])+
  have "k = 100" if "completed s \<noteq> []" "rolledBack s = []"
  proof -
    have "\<lfloor>201 / 2 :: rat\<rfloor> = 100" by (simp add: floor_eq_iff)
    then have "of_nat k = (of_nat 100 :: rat)"
      using k(2) that c by (simp add: successRate_def success_total_def js_percent_full)
    then show ?thesis by (simp only: of_nat_eq_iff)
  qed
  moreover have "k = 0" if "completed s = []"
  proof (cases "success_total s = 0")
    case False
    have "success_total s \<le> 2 ^ 53"
      using that r by (simp add: success_total_def)
    moreover have "\<lfloor>1 / 2 :: rat\<rfloor> = 0" by (simp add: floor_eq_iff)
    ultimately have "of_nat k = (of_nat 0 :: rat)"
      using k(2) that False by (simp add: successRate_def js_percent_zero)
    then show ?thesis by (simp only: of_nat_eq_iff)
  qed (use k(2) in \<open>simp add: successRate_def\<close>)
  ultimately show ?thesis using k by blast
qed

theorem success_rate_range_witness:
  "\<exists>k \<le> 100. successRate (sample_start\<lparr> db_migrations := Some sample_list \<rparr>) = Fin (of_nat k)"
  using success_rate_range [of "sample_start\<lparr> db_migrations := Some sample_list \<rparr>"]
  by (auto simp: sample_list_def)

text \<open>
  A page that shrank away. When a list arrives in which the current search still finds
  migrations but at most one page of them, a user on a later page sees an empty table that says
  there are no results, and no page button to leave it.
\<close>

theorem shrunk_list_strands_page:
  assumes "dash_mounted s" and "Call_list \<in> set (db_calls s)" and "db_page s > 0"
    and "filtered (db_search s) (Some ms) \<noteq> []"
    and "length (filtered (db_search s) (Some ms)) \<le> 20"
  shows "\<exists>tv. dash_body fmt (dash_step s (Listed (Inr (Some ms)))) = Body_table tv \<and>
    tv_count tv > 0 \<and> tv_rows tv = [] \<and> tv_pager tv = None \<and>
    tv_no_results tv = Some (''No results for \"'' @ db_search s @ ''\"'')"
proof -
  let ?s = "dash_step s (Listed (Inr (Some ms)))" and ?f = "filtered (db_search s) (Some ms)"
  have fs: "db_migrations ?s = Some ms" "db_search ?s = db_search s" "db_page ?s = db_page s"
      "\<not> db_loading ?s"
    using assms(2) by (simp_all add: dash_step_def fetched_def settle_def)
  have len: "length ?f \<le> db_page s * PAGE_SIZE"
    using assms(3,5) by (cases "db_page s") (simp_all add: PAGE_SIZE_def)
  have "ms \<noteq> []" using assms(4) by (auto simp: filtered_def Let_def split: if_splits)
  moreover have "db_filtered ?s = ?f" by (simp add: db_filtered_def fs)
  moreover have "db_paged ?s = []" using len fs \<open>db_filtered ?s = ?f\<close>
    by (simp add: db_paged_def paged_alt)
  moreover have "db_totalPages ?s \<le> 1"
    using assms(5) \<open>db_filtered ?s = ?f\<close> by (simp add: db_totalPages_def totalPages_def PAGE_SIZE_def)
  ultimately show ?thesis
    using fs assms(4) by (simp add: dash_body_def table_of_def pager_view_def)
qed

theorem shrunk_list_strands_page_witness:
  "\<exists>tv. dash_body (\<lambda>d. d) (dash_step (sample_mounted\<lparr> db_page := 1 \<rparr>)
      (Listed (Inr (Some sample_list)))) = Body_table tv \<and> tv_rows tv = []"
  using shrunk_list_strands_page [of "sample_mounted\<lparr> db_page := 1 \<rparr>" sample_list "\<lambda>d. d"]
    sample_mounted_facts by (auto simp: filtered_def sample_list_def dash_mounted_def)

text \<open>
  The demo. From an idle page with nothing else in flight, starting the demo and two successful
  answers submit the demo plan with the current time in seconds as its version, report the new
  migration, re-enable the button, and a second later lead to the migration's page.
\<close>

theorem demo_runs_through:
  assumes "dash_mounted s" and "\<not> db_runningDemo s" and "db_calls s = []" and "db_delayed s = []"
    and "v = js_floor (js_div now (Fin 1000))"
  shows "db_calls (foldl dash_step s [Run_demo, Demo_reset (Inr ()) now]) = [Call_submit v] \<and>
    mp_version (demo_plan v) = v \<and>
    (let s' = foldl dash_step s [Run_demo, Demo_reset (Inr ()) now, Demo_submitted v (Inr r), Delay_over]
     in db_navs s' = db_navs s @ [''/migrations/'' @ ps_migration_id r] \<and> db_calls s' = [] \<and>
        db_demoOutput s' = ''Migration started: '' @ ps_migration_id r \<and> db_error s' = [] \<and>
        run_button s' = (''Run Demo'', False) \<and>
        db_toaster s' = toast Toast_success ''Demo started'' (db_toaster s))"
  using assms by (simp add: dash_steps dash_mounted_def run_button_def demo_plan_def Let_def)

theorem demo_runs_through_witness:
  "db_navs (foldl dash_step (sample_mounted\<lparr> db_calls := [] \<rparr>) [Run_demo, Demo_reset (Inr ()) (Fin 5000),
      Demo_submitted (Fin 5) (Inr \<lparr> ps_migration_id = ''m7'' \<rparr>), Delay_over]) = [''/migrations/m7'']"
  using demo_runs_through [of "sample_mounted\<lparr> db_calls := [] \<rparr>" "Fin 5" "Fin 5000" "\<lparr> ps_migration_id = ''m7'' \<rparr>"]
    sample_mounted_facts by (simp add: dash_mounted_def Let_def)

end
