(* ===== verification/Detail.thy ===== *)
theory Detail
  imports JsText Toast
begin

text \<open>
  \<^verbatim>\<open>frontend/src/pages/MigrationDetail.tsx\<close>: the state of the page, its handlers and effects, and
  the conditions and texts of what it renders. Requests are calls in flight that settle in a
  later event; a call remembers the id its closure captured. The two polling effects keep their
  own view of the window's timers (theory \<open>Polling\<close> lets other components use them in between).
\<close>

section \<open>State\<close>

datatype detail_call =
    Get_record string
  | Get_schema string
  | Get_safety string
  | Abort_call string string

record detail =
  dt_id :: string
  dt_record :: "migration_record option"
  dt_loading :: bool
  dt_error :: string
  dt_aborting :: bool
  dt_showAbortConfirm :: bool
  dt_schema :: "schema_column list option"
  dt_schemaLoading :: bool
  dt_ddlLogs :: "ddl_execution_log list option"
  dt_backfillProgress :: "backfill_progress list option"
  dt_canaryObs :: "canary_observation list option"
  dt_safetyLoading :: bool
  dt_poll :: "(bool option \<times> string) mount"
  dt_safetyPoll :: "string mount"
  dt_calls :: "detail_call list"
  dt_toaster :: toaster
  dt_crashed :: "string option"
  dt_left :: bool

text \<open>The id is the route parameter, the empty text standing for a missing one.\<close>

definition fresh_detail :: "string \<Rightarrow> timers \<Rightarrow> toaster \<Rightarrow> detail" where
  "fresh_detail i h t =
     \<lparr> dt_id = i, dt_record = None, dt_loading = True, dt_error = [], dt_aborting = False,
       dt_showAbortConfirm = False, dt_schema = Some [], dt_schemaLoading = False,
       dt_ddlLogs = Some [], dt_backfillProgress = Some [], dt_canaryObs = Some [],
       dt_safetyLoading = False, dt_poll = unmounted h, dt_safetyPoll = unmounted h,
       dt_calls = [], dt_toaster = t, dt_crashed = None, dt_left = False \<rparr>"

section \<open>Effects\<close>

definition dt_call :: "detail_call \<Rightarrow> detail \<Rightarrow> detail" where
  "dt_call c s = s\<lparr> dt_calls := dt_calls s @ [c] \<rparr>"

definition dt_post :: "toast_type \<Rightarrow> string \<Rightarrow> detail \<Rightarrow> detail" where
  "dt_post k m s = s\<lparr> dt_toaster := toast k m (dt_toaster s) \<rparr>"

definition dt_mounted :: "detail \<Rightarrow> bool" where
  "dt_mounted s \<longleftrightarrow> mt_deps (dt_poll s) \<noteq> None"

text \<open>\<^verbatim>\<open>record && !record.terminal\<close>, read off the dependencies of the effect.\<close>

definition poll_deps :: "detail \<Rightarrow> bool option \<times> string" where
  "poll_deps s = (map_option mr_terminal (dt_record s), dt_id s)"

definition dep_live :: "bool option \<times> string \<Rightarrow> bool" where
  "dep_live d \<longleftrightarrow> fst d = Some False"

definition detail_effect ::
  "bool option \<times> string \<Rightarrow> nat option \<times> timers \<Rightarrow> nat option \<times> timers" where
  "detail_effect d = poll_effect (dep_live d)"

definition dt_render_poll :: "detail \<Rightarrow> detail" where
  "dt_render_poll s =
     s\<lparr> dt_poll := life_step detail_effect poll_cleanup (dt_poll s) (Render (poll_deps s)) \<rparr>"

definition safety_effect :: "string \<Rightarrow> nat option \<times> timers \<Rightarrow> nat option \<times> timers" where
  "safety_effect i = plain_effect 5000"

definition fetchRecord :: "detail \<Rightarrow> detail" where
  "fetchRecord s = (if dt_id s = [] then s else dt_call (Get_record (dt_id s)) s)"

definition dt_fetchSchema :: "string \<Rightarrow> detail \<Rightarrow> detail" where
  "dt_fetchSchema tbl s = dt_call (Get_schema tbl) (s\<lparr> dt_schemaLoading := True \<rparr>)"

definition fetchSafetyData :: "detail \<Rightarrow> detail" where
  "fetchSafetyData s =
     (if dt_id s = [] then s else dt_call (Get_safety (dt_id s)) (s\<lparr> dt_safetyLoading := True \<rparr>))"

text \<open>The effect on \<^verbatim>\<open>record?.table\<close>: a new non-empty table name has its schema fetched.\<close>

definition table_of_record :: "migration_record option \<Rightarrow> string option" where
  "table_of_record r = Option.bind r mr_table"

definition schema_effect :: "string option \<Rightarrow> detail \<Rightarrow> detail" where
  "schema_effect old s =
     (let new = table_of_record (dt_record s)
      in if new = old then s
         else case new of
             None \<Rightarrow> s
           | Some tbl \<Rightarrow> if tbl = [] then s else dt_fetchSchema tbl s)"

definition safety_render :: "detail \<Rightarrow> detail" where
  "safety_render s =
     s\<lparr> dt_safetyPoll := life_step (\<lambda>i. safety_effect i) poll_cleanup (dt_safetyPoll s) (Render (dt_id s)) \<rparr>"

text \<open>
  The four effects in their order, after a render: \<open>old_id\<close> and \<open>old_table\<close> are the dependencies
  of the render before (no id at mount).
\<close>

definition run_effects :: "string option \<Rightarrow> string option \<Rightarrow> detail \<Rightarrow> detail" where
  "run_effects old_id old_table s =
     (let fresh = (old_id \<noteq> Some (dt_id s));
          s1 = (if fresh then fetchRecord s else s);
          s2 = dt_render_poll (schema_effect old_table s1);
          s3 = (if fresh then fetchSafetyData s2 else s2)
      in safety_render s3)"

definition leave_page :: "detail \<Rightarrow> detail" where
  "leave_page s =
     s\<lparr> dt_poll := life_step detail_effect poll_cleanup (dt_poll s) Unmount,
        dt_safetyPoll := life_step (\<lambda>i. safety_effect i) poll_cleanup (dt_safetyPoll s) Unmount,
        dt_left := True \<rparr>"

section \<open>Settled requests\<close>

definition record_fetched :: "migration_record result \<Rightarrow> detail \<Rightarrow> detail" where
  "record_fetched r s =
     (case r of
        Inr data \<Rightarrow> s\<lparr> dt_record := Some data, dt_error := [] \<rparr>
      | Inl e \<Rightarrow> s\<lparr> dt_error := e \<rparr>)\<lparr> dt_loading := False \<rparr>"

definition schema_fetched :: "schema_response result \<Rightarrow> detail \<Rightarrow> detail" where
  "schema_fetched r s =
     (case r of
        Inr res \<Rightarrow> s\<lparr> dt_schema := sr_columns res \<rparr>
      | Inl e \<Rightarrow> s)\<lparr> dt_schemaLoading := False \<rparr>"

text \<open>\<^verbatim>\<open>Promise.all\<close> of the three requests rejects with the first error.\<close>

definition safety_fetched ::
  "safety_metrics result \<Rightarrow> backfill_progress_response result
    \<Rightarrow> canary_observations_response result \<Rightarrow> detail \<Rightarrow> detail" where
  "safety_fetched r1 r2 r3 s =
     (case (r1, r2, r3) of
        (Inr safety, Inr backfill, Inr canary) \<Rightarrow>
          s\<lparr> dt_ddlLogs := sm_ddl_logs safety, dt_backfillProgress := bpr_progress backfill,
             dt_canaryObs := cor_observations canary \<rparr>
      | _ \<Rightarrow> s)\<lparr> dt_safetyLoading := False \<rparr>"

section \<open>Aborting\<close>

definition abort_start :: "detail \<Rightarrow> detail" where
  "abort_start s =
     (case dt_record s of
        None \<Rightarrow> s
      | Some r \<Rightarrow> dt_call (Abort_call (dt_id s) (mr_migration_id r))
          (s\<lparr> dt_aborting := True, dt_showAbortConfirm := False \<rparr>))"

text \<open>
  The rest of \<^verbatim>\<open>handleAbort\<close>; its closure holds the \<^verbatim>\<open>fetchRecord\<close> of the id \<open>i\<close> the page had when
  the abort was confirmed.
\<close>

definition abort_done :: "string \<Rightarrow> unit result \<Rightarrow> detail \<Rightarrow> detail" where
  "abort_done i r s =
     (case r of
        Inr _ \<Rightarrow> (let s' = dt_post Toast_info ''Migration abort initiated'' s
                   in if i = [] then s' else dt_call (Get_record i) s')
      | Inl e \<Rightarrow> dt_post Toast_error e (s\<lparr> dt_error := e \<rparr>))\<lparr> dt_aborting := False \<rparr>"

section \<open>Derived values\<close>

definition currentIdx :: "detail \<Rightarrow> int" where
  "currentIdx s =
     (case dt_record s of
        None \<Rightarrow> - 1
      | Some r \<Rightarrow> (case flow_index (mr_state r) of Some i \<Rightarrow> int i | None \<Rightarrow> - 1))"

definition isLive :: "detail \<Rightarrow> bool" where
  "isLive s \<longleftrightarrow> (case dt_record s of None \<Rightarrow> False | Some r \<Rightarrow> \<not> mr_terminal r)"

definition progress :: "detail \<Rightarrow> number" where
  "progress s =
     (if 0 \<le> currentIdx s
      then js_round (js_percent (num_of_nat (nat (currentIdx s + 1))) (num_of_nat (length STATE_FLOW)))
      else Fin 0)"

section \<open>What is shown\<close>

text \<open>The texts for a missing value (a dash on the page) are \<open>None\<close>.\<close>

definition cut_text :: "nat \<Rightarrow> string \<Rightarrow> string" where
  "cut_text n s = (if length s > n then take n s @ ''...'' else s)"

definition truthy_text :: "string option \<Rightarrow> string option" where
  "truthy_text t = (case t of Some s \<Rightarrow> if s = [] then None else Some s | None \<Rightarrow> None)"

definition row_no :: "nat \<Rightarrow> string" where
  "row_no i = pad_start 2 CHR ''0'' (show_nat (i + 1))"

subsection \<open>State flow\<close>

datatype flow_status = Passed | Current | Complete | Not_reached

record flow_row =
  fw_no :: string
  fw_label :: string
  fw_color :: string
  fw_status :: flow_status

definition flow_row_view :: "detail \<Rightarrow> nat \<times> mig_state \<Rightarrow> flow_row" where
  "flow_row_view s si =
     (let i = int (fst si); st = snd si;
          isPast = (i < currentIdx s);
          isCurrent = (i = currentIdx s)
      in \<lparr> fw_no = row_no (fst si),
           fw_label = STATE_LABELS st,
           fw_color = (if isPast then STATE_COLORS st else if isCurrent then STATE_COLORS st
                       else ''var(--text-muted)''),
           fw_status = (if isPast then Passed
                        else if isCurrent \<and> isLive s then Current
                        else if isCurrent \<and> \<not> isLive s then Complete
                        else Not_reached) \<rparr>)"

definition flow_view :: "detail \<Rightarrow> string \<times> flow_row list" where
  "flow_view s =
     (show_int (currentIdx s + 1) @ '' of '' @ show_nat (length STATE_FLOW),
      map (flow_row_view s) (enumerated STATE_FLOW))"

subsection \<open>Production safety\<close>

record ddl_view =
  dv_status :: string
  dv_duration :: "string option"
  dv_statement :: string
  dv_error :: "string option"

definition ddl_row :: "ddl_execution_log \<Rightarrow> ddl_view" where
  "ddl_row e =
     \<lparr> dv_status = (if dl_success e then ''SUCCESS'' else ''FAILED''),
       dv_duration = (case dl_duration_ms e of
           Null \<Rightarrow> None
         | Undefined \<Rightarrow> Some ''undefinedms''
         | Value n \<Rightarrow> Some (num_text n @ ''ms'')),
       dv_statement = cut_text 120 (dl_statement e),
       dv_error = (case dl_error_message e of
           Value msg \<Rightarrow> truthy_text (Some msg) | _ \<Rightarrow> None) \<rparr>"

record batch_view =
  bv_batch :: string
  bv_rows :: string
  bv_throttle :: string
  bv_cpu :: "string option"
  bv_lag :: "string option"

definition batch_row :: "backfill_progress \<Rightarrow> batch_view" where
  "batch_row bp =
     \<lparr> bv_batch = ''#'' @ num_text (bp_batch_number bp),
       bv_rows = ''+'' @ num_text (bp_rows_affected bp) @ '' rows'',
       bv_throttle = (case bp_throttle_ms bp of Some n \<Rightarrow> num_text n | None \<Rightarrow> []) @ ''ms'',
       bv_cpu = map_option (\<lambda>n. to_fixed 1 n @ ''% CPU'') (bp_db_cpu_pct bp),
       bv_lag = map_option (\<lambda>n. to_fixed 0 n @ ''ms lag'') (bp_db_rep_lag_ms bp) \<rparr>"

record obs_view =
  ov_traffic :: string
  ov_verdict :: string
  ov_p99 :: "string option"
  ov_errors :: "string option"

definition obs_row :: "canary_observation \<Rightarrow> obs_view" where
  "obs_row obs =
     \<lparr> ov_traffic = num_text (co_traffic_pct obs) @ ''% Traffic'',
       ov_verdict = (if co_slo_breached obs then ''SLO BREACH'' else ''HEALTHY''),
       ov_p99 = map_option (\<lambda>n. to_fixed 1 n @ ''ms'') (co_p99_ms obs),
       ov_errors = map_option (\<lambda>n. to_fixed 2 n @ ''%'') (co_err_pct obs) \<rparr>"

record safety_view =
  sv_ddl :: "(string \<times> ddl_view list) option"
  sv_batches :: "(string \<times> batch_view list) option"
  sv_obs :: "(string \<times> obs_view list) option"

text \<open>Reading \<^verbatim>\<open>length\<close> of \<^verbatim>\<open>null\<close> throws.\<close>

definition null_length :: string where
  "null_length = ''Cannot read properties of null (reading '' @ [CHR 0x27] @ ''length'' @ [CHR 0x27] @ '')''"

definition need :: "'a list option \<Rightarrow> 'a list result" where
  "need l = (case l of None \<Rightarrow> Inl null_length | Some xs \<Rightarrow> Inr xs)"

definition counted :: "string \<Rightarrow> ('a \<Rightarrow> 'b) \<Rightarrow> 'a list \<Rightarrow> 'a list \<Rightarrow> (string \<times> 'b list) option" where
  "counted what row all shown =
     (if length all > 0 then Some (what @ '' ('' @ show_nat (length all) @ '')'', map row shown) else None)"

definition safety_section :: "detail \<Rightarrow> safety_view option result" where
  "safety_section s =
     bind_result (need (dt_ddlLogs s)) (\<lambda>ddl.
     bind_result (need (dt_backfillProgress s)) (\<lambda>batches.
     bind_result (need (dt_canaryObs s)) (\<lambda>obs.
       Inr (if length ddl = 0 \<and> length batches = 0 \<and> length obs = 0 then None
            else Some \<lparr> sv_ddl = counted ''DDL Executions'' ddl_row ddl ddl,
                   sv_batches = counted ''Backfill Batches'' batch_row batches (slice_last 5 batches),
                   sv_obs = counted ''Canary Observations'' obs_row obs obs \<rparr>))))"

subsection \<open>Schemas\<close>

record column_view =
  cv_no :: string
  cv_name :: string
  cv_type :: string
  cv_nullable :: string
  cv_default :: "string option"
  cv_dropped :: bool

definition column_row :: "nat \<Rightarrow> bool \<Rightarrow> nat \<times> schema_column \<Rightarrow> column_view" where
  "column_row width dropped ic =
     \<lparr> cv_no = row_no (fst ic), cv_name = sc_name (snd ic), cv_type = sc_type (snd ic),
       cv_nullable = (if sc_nullable (snd ic) then ''YES'' else ''NO''),
       cv_default = map_option (cut_text width) (truthy_text (sc_default (snd ic))),
       cv_dropped = dropped \<rparr>"

definition dropped_column :: "string \<Rightarrow> schema_column" where
  "dropped_column name =
     \<lparr> sc_name = name, sc_type = ''text'', sc_nullable = True, sc_default = None \<rparr>"

record schema_view =
  sw_table :: string
  sw_count :: string
  sw_rows :: "column_view list"

text \<open>The columns of the table as it is, followed by the columns the plan drops.\<close>

definition schema_before :: "string \<Rightarrow> string list \<Rightarrow> schema_column list \<Rightarrow> schema_view" where
  "schema_before tbl drops schema =
     \<lparr> sw_table = tbl,
       sw_count = show_nat (length schema + length drops) @ '' columns'',
       sw_rows = map (\<lambda>(i, c, d). column_row 30 d (i, c))
         (enumerated (map (\<lambda>c. (c, False)) schema @ map (\<lambda>n. (dropped_column n, True)) drops)) \<rparr>"

definition schema_after :: "string \<Rightarrow> schema_column list \<Rightarrow> schema_view" where
  "schema_after tbl schema =
     \<lparr> sw_table = tbl, sw_count = show_nat (length schema) @ '' columns'',
       sw_rows = map (column_row 40 False) (enumerated schema) \<rparr>"

definition drop_list :: "migration_record \<Rightarrow> string list" where
  "drop_list r = (case Option.bind (mr_plan r) mp_drop_columns of Some ds \<Rightarrow> ds | None \<Rightarrow> [])"

definition schema_sections ::
  "detail \<Rightarrow> migration_record \<Rightarrow> (schema_view option \<times> schema_view option) result" where
  "schema_sections s r =
     (case truthy_text (mr_table r) of
        None \<Rightarrow> Inr (None, None)
      | Some tbl \<Rightarrow>
          bind_result (need (dt_schema s)) (\<lambda>schema.
            Inr (if drop_list r = [] then None else Some (schema_before tbl (drop_list r) schema),
                 Some (schema_after tbl schema))))"

subsection \<open>The page\<close>

text \<open>
  \<^verbatim>\<open>record.throttle_events && record.throttle_events > 0 && <Chart/>\<close>: React renders a number that
  the conjunction evaluates to.
\<close>

datatype slot = Slot_nothing | Slot_text string | Slot_chart

definition throttle_slot :: "migration_record \<Rightarrow> slot" where
  "throttle_slot r =
     (case mr_throttle_events r of
        None \<Rightarrow> Slot_nothing
      | Some n \<Rightarrow> if \<not> js_truthy n then Slot_text (num_text n)
          else if js_lt (Fin 0) n then Slot_chart else Slot_nothing)"

record detail_page =
  pv_progress :: number
  pv_plan_id :: string
  pv_state :: string
  pv_status :: string
  pv_terminal_panels :: bool
  pv_throttle :: slot
  pv_flow :: "string \<times> flow_row list"
  pv_metrics_live :: bool
  pv_safety :: "safety_view option"
  pv_schema :: "schema_view option \<times> schema_view option"
  pv_plan_version :: "string option"
  pv_abort :: "(string \<times> bool) option"

datatype detail_body = No_id | Loading_detail | Not_found | Detail_page detail_page

definition detail_page_view :: "detail \<Rightarrow> migration_record \<Rightarrow> detail_page result" where
  "detail_page_view s r =
     bind_result (safety_section s) (\<lambda>safety.
     bind_result (schema_sections s r) (\<lambda>schemas.
       Inr \<lparr> pv_progress = progress s,
             pv_plan_id = mr_plan_id r,
             pv_state = STATE_LABELS (mr_state r),
             pv_status = (if mr_terminal r then ''Terminal'' else ''Running''),
             pv_terminal_panels = mr_terminal r,
             pv_throttle = throttle_slot r,
             pv_flow = flow_view s,
             pv_metrics_live = isLive s,
             pv_safety = safety,
             pv_schema = schemas,
             pv_plan_version = map_option (\<lambda>p. ''v'' @ num_text (mp_version p)) (mr_plan r),
             pv_abort = (if mr_terminal r then None
                else Some (if dt_aborting s then ''Aborting...'' else ''Abort & Rollback'', dt_aborting s)) \<rparr>))"

definition detail_view :: "detail \<Rightarrow> detail_body result" where
  "detail_view s =
     (if dt_id s = [] then Inr No_id
      else if dt_loading s then Inr Loading_detail
      else case dt_record s of
          None \<Rightarrow> Inr Not_found
        | Some r \<Rightarrow> bind_result (detail_page_view s r) (\<lambda>p. Inr (Detail_page p)))"

record detail_header =
  dh_title :: string
  dh_live :: bool
  dh_badge :: "(string \<times> string) option"
  dh_error :: "string option"

definition detail_header_view :: "detail \<Rightarrow> detail_header" where
  "detail_header_view s =
     \<lparr> dh_title = dt_id s,
       dh_live = isLive s,
       dh_badge = map_option (\<lambda>r. (STATE_LABELS (mr_state r), STATE_COLORS (mr_state r))) (dt_record s),
       dh_error = (if dt_error s = [] then None else Some (dt_error s)) \<rparr>"

section \<open>Events\<close>

datatype detail_event =
    D_mount
  | D_leave
  | D_poll
  | D_safety_tick
  | D_change_id string
  | D_record string "migration_record result"
  | D_schema string "schema_response result"
  | D_safety string "safety_metrics result" "backfill_progress_response result"
      "canary_observations_response result"
  | D_aborted string string "unit result"
  | D_ask_abort
  | D_cancel_abort
  | D_confirm_abort

fun dt_enabled :: "detail \<Rightarrow> detail_event \<Rightarrow> bool" where
  "dt_enabled s D_mount \<longleftrightarrow> \<not> dt_mounted s \<and> \<not> dt_left s"
| "dt_enabled s D_leave \<longleftrightarrow> dt_mounted s"
| "dt_enabled s D_poll \<longleftrightarrow> own_live (dt_poll s) \<noteq> []"
| "dt_enabled s D_safety_tick \<longleftrightarrow> own_live (dt_safetyPoll s) \<noteq> []"
| "dt_enabled s (D_change_id i) \<longleftrightarrow> dt_mounted s"
| "dt_enabled s (D_record i r) \<longleftrightarrow> Get_record i \<in> set (dt_calls s)"
| "dt_enabled s (D_schema tbl r) \<longleftrightarrow> Get_schema tbl \<in> set (dt_calls s)"
| "dt_enabled s (D_safety i r1 r2 r3) \<longleftrightarrow> Get_safety i \<in> set (dt_calls s)"
| "dt_enabled s (D_aborted i m r) \<longleftrightarrow> Abort_call i m \<in> set (dt_calls s)"
| "dt_enabled s D_ask_abort \<longleftrightarrow> dt_mounted s \<and>
     (case detail_view s of Inr (Detail_page p) \<Rightarrow> (case pv_abort p of Some (l, disabled) \<Rightarrow> \<not> disabled | None \<Rightarrow> False)
      | _ \<Rightarrow> False)"
| "dt_enabled s D_cancel_abort \<longleftrightarrow> dt_mounted s \<and> dt_showAbortConfirm s \<and> dt_id s \<noteq> []"
| "dt_enabled s D_confirm_abort \<longleftrightarrow> dt_mounted s \<and> dt_showAbortConfirm s \<and> dt_id s \<noteq> []"

definition dt_settle :: "detail_call \<Rightarrow> detail \<Rightarrow> detail" where
  "dt_settle c s = s\<lparr> dt_calls := remove1 c (dt_calls s) \<rparr>"

text \<open>What the event's handler does to the state, before React renders again.\<close>

fun dt_handle :: "detail \<Rightarrow> detail_event \<Rightarrow> detail" where
  "dt_handle s D_mount = s"
| "dt_handle s D_leave = leave_page s"
| "dt_handle s D_poll = fetchRecord s"
| "dt_handle s D_safety_tick = fetchSafetyData s"
| "dt_handle s (D_change_id i) = s\<lparr> dt_id := i \<rparr>"
| "dt_handle s (D_record i r) = record_fetched r (dt_settle (Get_record i) s)"
| "dt_handle s (D_schema tbl r) = schema_fetched r (dt_settle (Get_schema tbl) s)"
| "dt_handle s (D_safety i r1 r2 r3) = safety_fetched r1 r2 r3 (dt_settle (Get_safety i) s)"
| "dt_handle s (D_aborted i m r) = abort_done i r (dt_settle (Abort_call i m) s)"
| "dt_handle s D_ask_abort = s\<lparr> dt_showAbortConfirm := True \<rparr>"
| "dt_handle s D_cancel_abort = s\<lparr> dt_showAbortConfirm := False \<rparr>"
| "dt_handle s D_confirm_abort = abort_start s"

text \<open>
  The render after it: if it throws, the error boundary above takes the page down; otherwise the
  effects run whose dependencies changed. Nothing happens for a page that is not mounted.
\<close>

definition dt_commit :: "string option \<Rightarrow> string option \<Rightarrow> detail \<Rightarrow> detail" where
  "dt_commit old_id old_table s =
     (case detail_view s of
        Inl e \<Rightarrow> (leave_page s)\<lparr> dt_crashed := Some e \<rparr>
      | Inr v \<Rightarrow> run_effects old_id old_table s)"

definition detail_step :: "detail \<Rightarrow> detail_event \<Rightarrow> detail" where
  "detail_step s ev =
     (if \<not> dt_enabled s ev then s
      else let s' = dt_handle s ev
           in case ev of
               D_mount \<Rightarrow> dt_commit None None s'
             | _ \<Rightarrow> if dt_mounted s' then
                   dt_commit (Some (dt_id s)) (table_of_record (dt_record s)) s'
                 else s')"

end
