(* ===== verification/DetailProps.thy ===== *)
theory DetailProps
  imports Detail
begin

text \<open>
  What holds on every run of the migration page (\<^verbatim>\<open>Detail.thy\<close>): its two intervals, its abort
  request, the progress and state flow it shows, and how it fails on lists sent as \<^verbatim>\<open>null\<close>.
\<close>

section \<open>The shape of a step\<close>

lemma detail_step_cases:
  obtains (idle) "detail_step s ev = s"
  | (commit) i t where "dt_enabled s ev" "detail_step s ev = dt_commit i t (dt_handle s ev)"
  | (gone) "dt_enabled s ev" "\<not> dt_mounted (dt_handle s ev)" "detail_step s ev = dt_handle s ev"
  unfolding detail_step_def Let_def
  by (cases ev; cases "dt_enabled s ev"; cases "dt_mounted (dt_handle s ev)")
    (auto simp del: dt_enabled.simps dt_handle.simps)

section \<open>Polling\<close>

interpretation record_poll: interval_effect detail_effect poll_cleanup dep_live POLL_INTERVAL_MS
  by unfold_locales
    (use poll_effect_laws [where act = dep_live] poll_cleanup_laws
      in \<open>unfold detail_effect_def, blast\<close>)+

interpretation safety_poll: interval_effect "\<lambda>i. safety_effect i" poll_cleanup "\<lambda>_. True" 5000
  by unfold_locales
    (auto simp: safety_effect_def plain_effect_def setInterval_def poll_cleanup_laws)

definition polls_ok :: "detail \<Rightarrow> bool" where
  "polls_ok s \<longleftrightarrow>
     record_poll.good (dt_poll s) \<and> safety_poll.good (dt_safetyPoll s) \<and>
     (mt_deps (dt_poll s) = None \<or> mt_deps (dt_poll s) = Some (poll_deps s)) \<and>
     (mt_deps (dt_safetyPoll s) = None \<longleftrightarrow> mt_deps (dt_poll s) = None)"

lemma dt_deps_render [simp]: "mt_deps (life_step eff cln p (Render d)) = Some d"
  by (auto simp: run_effect_def case_prod_beta Let_def split: option.split)

lemma deps_unmount [simp]: "mt_deps (life_step eff cln p Unmount) = None"
  by (simp split: option.split)

lemma fetch_polls [simp]:
  "dt_poll (fetchRecord s) = dt_poll s" "dt_safetyPoll (fetchRecord s) = dt_safetyPoll s"
  "dt_record (fetchRecord s) = dt_record s" "dt_id (fetchRecord s) = dt_id s"
  "dt_poll (schema_effect old s) = dt_poll s" "dt_safetyPoll (schema_effect old s) = dt_safetyPoll s"
  "dt_record (schema_effect old s) = dt_record s" "dt_id (schema_effect old s) = dt_id s"
  "dt_poll (fetchSafetyData s) = dt_poll s" "dt_safetyPoll (fetchSafetyData s) = dt_safetyPoll s"
  "dt_record (fetchSafetyData s) = dt_record s" "dt_id (fetchSafetyData s) = dt_id s"
  by (simp_all add: fetchRecord_def schema_effect_def fetchSafetyData_def dt_fetchSchema_def
      dt_call_def Let_def split: option.split)

lemma effects_fields:
  "dt_poll (run_effects i t s) = life_step detail_effect poll_cleanup (dt_poll s) (Render (poll_deps s))"
  "dt_safetyPoll (run_effects i t s) =
     life_step (\<lambda>i. safety_effect i) poll_cleanup (dt_safetyPoll s) (Render (dt_id s))"
  "dt_record (run_effects i t s) = dt_record s" "dt_id (run_effects i t s) = dt_id s"
  by (simp_all add: run_effects_def safety_render_def dt_render_poll_def poll_deps_def Let_def
      del: life_step.simps)

lemma polls_ok_effects:
  "record_poll.good (dt_poll s) \<Longrightarrow> safety_poll.good (dt_safetyPoll s) \<Longrightarrow> polls_ok (run_effects i t s)"
  by (simp add: polls_ok_def effects_fields record_poll.good_step safety_poll.good_step poll_deps_def
      del: life_step.simps)

lemma polls_ok_leave:
  "record_poll.good (dt_poll s) \<Longrightarrow> safety_poll.good (dt_safetyPoll s) \<Longrightarrow>
     polls_ok (leave_page s) \<and> polls_ok ((leave_page s)\<lparr> dt_crashed := c \<rparr>) \<and> \<not> dt_mounted (leave_page s)"
  by (simp add: polls_ok_def leave_page_def record_poll.good_step safety_poll.good_step dt_mounted_def
      del: life_step.simps)

lemma polls_ok_commit:
  "record_poll.good (dt_poll s) \<Longrightarrow> safety_poll.good (dt_safetyPoll s) \<Longrightarrow> polls_ok (dt_commit i t s)"
  by (simp add: dt_commit_def polls_ok_effects polls_ok_leave split: sum.split)

lemma handle_polls:
  "ev \<noteq> D_leave \<Longrightarrow> dt_poll (dt_handle s ev) = dt_poll s \<and> dt_safetyPoll (dt_handle s ev) = dt_safetyPoll s"
  by (cases ev)
    (auto simp: record_fetched_def schema_fetched_def safety_fetched_def abort_done_def abort_start_def
      dt_settle_def dt_post_def dt_call_def Let_def split: sum.split option.split)

lemma polls_ok_step: "polls_ok s \<Longrightarrow> polls_ok (detail_step s ev)"
proof -
  assume ok: "polls_ok s"
  then have g: "record_poll.good (dt_poll s)" "safety_poll.good (dt_safetyPoll s)"
    by (simp_all add: polls_ok_def)
  show ?thesis
  proof (cases "ev = D_leave")
    case True
    then show ?thesis
      using ok polls_ok_leave [OF g] by (simp add: detail_step_def Let_def)
  next
    case False
    have h: "dt_poll (dt_handle s ev) = dt_poll s" "dt_safetyPoll (dt_handle s ev) = dt_safetyPoll s"
      using handle_polls [OF False, of s] by simp_all
    show ?thesis
    proof (cases rule: detail_step_cases [of s ev])
      case idle
      with ok show ?thesis by simp
    next
      case (commit i t)
      with g h polls_ok_commit [of "dt_handle s ev"] show ?thesis by simp
    next
      case gone
      with ok h show ?thesis by (auto simp: polls_ok_def dt_mounted_def)
    qed
  qed
qed

lemma polls_ok_run:
  assumes "\<forall>e \<in> set (tm_live h). fst e < tm_next h"
  shows "polls_ok (foldl detail_step (fresh_detail i h t) evs)"
proof (induction evs rule: rev_induct)
  case Nil
  show ?case
    using record_poll.good_start [OF assms] safety_poll.good_start [OF assms]
    by (simp add: polls_ok_def fresh_detail_def unmounted_def)
qed (simp add: polls_ok_step)

section \<open>Aborting\<close>

definition aborts :: "detail_call list \<Rightarrow> nat" where
  "aborts cs = length (filter (\<lambda>c. case c of Abort_call _ _ \<Rightarrow> True | _ \<Rightarrow> False) cs)"

lemma aborts_simps [simp]:
  "aborts [] = 0" "aborts (cs @ ds) = aborts cs + aborts ds"
  "aborts (Abort_call i m # cs) = aborts cs + 1" "aborts (Get_record i # cs) = aborts cs"
  "aborts (Get_schema i # cs) = aborts cs" "aborts (Get_safety i # cs) = aborts cs"
  by (simp_all add: aborts_def)

lemma aborts_remove:
  "c \<in> set cs \<Longrightarrow> aborts (remove1 c cs) + (case c of Abort_call _ _ \<Rightarrow> 1 | _ \<Rightarrow> 0) = aborts cs"
  by (induction cs) (auto simp: aborts_def split: detail_call.splits)

definition abort_ok :: "detail \<Rightarrow> bool" where
  "abort_ok s \<longleftrightarrow>
     aborts (dt_calls s) = (if dt_aborting s then 1 else 0) \<and>
     (dt_showAbortConfirm s \<longrightarrow> \<not> dt_aborting s)"

lemma abort_ok_effects: "abort_ok (run_effects i t s) = abort_ok s"
  by (simp add: abort_ok_def run_effects_def safety_render_def dt_render_poll_def fetchSafetyData_def
      fetchRecord_def schema_effect_def dt_fetchSchema_def dt_call_def Let_def split: option.split)

lemma abort_ok_leave: "abort_ok (leave_page s) = abort_ok s"
  "abort_ok ((leave_page s)\<lparr> dt_crashed := c \<rparr>) = abort_ok s"
  by (simp_all add: abort_ok_def leave_page_def)

lemma abort_ok_commit: "abort_ok (dt_commit i t s) = abort_ok s"
  by (simp add: dt_commit_def abort_ok_effects abort_ok_leave split: sum.split)

lemma aborts_settle [simp]:
  "Get_record i \<in> set cs \<Longrightarrow> aborts (remove1 (Get_record i) cs) = aborts cs"
  "Get_schema i \<in> set cs \<Longrightarrow> aborts (remove1 (Get_schema i) cs) = aborts cs"
  "Get_safety i \<in> set cs \<Longrightarrow> aborts (remove1 (Get_safety i) cs) = aborts cs"
  "Abort_call i m \<in> set cs \<Longrightarrow> aborts (remove1 (Abort_call i m) cs) = aborts cs - 1"
  using aborts_remove by force+

lemma aborts_pos: "Abort_call i m \<in> set cs \<Longrightarrow> aborts cs \<noteq> 0"
  by (induction cs) (auto simp: aborts_def)

lemma page_abort_disabled:
  "detail_view s = Inr (Detail_page p) \<Longrightarrow> pv_abort p = Some (l, d) \<Longrightarrow> d = dt_aborting s"
  by (auto simp: detail_view_def detail_page_view_def bind_result_Inr_iff split: if_splits option.splits)

lemma abort_ok_handle: "abort_ok s \<Longrightarrow> dt_enabled s ev \<Longrightarrow> abort_ok (dt_handle s ev)"
proof (cases ev)
  case D_ask_abort
  assume ok: "abort_ok s" and en: "dt_enabled s ev"
  have "\<not> dt_aborting s"
    using en page_abort_disabled [of s]
    by (auto simp: D_ask_abort split: sum.splits detail_body.splits option.splits)
  with ok show ?thesis by (simp add: D_ask_abort abort_ok_def)
next
  case (D_aborted i m r)
  assume ok: "abort_ok s" and en: "dt_enabled s ev"
  have "aborts (dt_calls s) \<noteq> 0" using en aborts_pos by (auto simp: D_aborted)
  with ok en show ?thesis
    by (auto simp: D_aborted abort_ok_def abort_done_def dt_settle_def dt_post_def dt_call_def Let_def
        split: sum.split if_splits)
qed (auto simp: abort_ok_def record_fetched_def schema_fetched_def safety_fetched_def abort_start_def
    dt_settle_def dt_post_def dt_call_def fetchRecord_def fetchSafetyData_def leave_page_def
    split: sum.split option.split)

lemma abort_ok_step: "abort_ok s \<Longrightarrow> abort_ok (detail_step s ev)"
  by (cases rule: detail_step_cases [of s ev]) (simp_all add: abort_ok_handle abort_ok_commit)

lemma abort_ok_run: "abort_ok (foldl detail_step (fresh_detail i h t) evs)"
proof (induction evs rule: rev_induct)
  case Nil
  show ?case by (simp add: abort_ok_def fresh_detail_def)
qed (simp add: abort_ok_step)

section \<open>Progress and state flow\<close>

definition with_record :: "migration_record \<Rightarrow> detail \<Rightarrow> detail" where
  "with_record r s = s\<lparr> dt_record := Some r \<rparr>"

text \<open>The percentage of every position of the flow.\<close>

definition flow_pct :: "nat \<Rightarrow> rat" where
  "flow_pct i = [13, 25, 38, 50, 63, 75, 88, 100] ! i"

lemma flow_percentage:
  assumes "i < 8"
  shows "js_round (js_percent (num_of_nat (i + 1)) (num_of_nat (length STATE_FLOW))) = Fin (flow_pct i)"
proof -
  have le: "i + 1 < 2 ^ 53" "100 * (i + 1) < 2 ^ 53" using assms by simp_all
  have "js_percent (num_of_nat (i + 1)) (num_of_nat (length STATE_FLOW)) = fl (of_nat (i + 1) / 8 * 100)"
    using fl_eighth [OF le(1)] le(1) by (simp add: js_percent_def)
  also have "of_nat (i + 1) / 8 * 100 = (of_nat (100 * (i + 1)) / 8 :: rat)" by simp
  also have "fl \<dots> = Fin (of_nat (100 * (i + 1)) / 8)" by (rule fl_eighth [OF le(2)])
  finally have "js_round (js_percent (num_of_nat (i + 1)) (num_of_nat (length STATE_FLOW)))
      = Fin (of_int \<lfloor>of_nat (100 * (i + 1)) / 8 + 1 / 2 :: rat\<rfloor>)" by simp
  moreover have "of_int \<lfloor>of_nat (100 * (i + 1)) / 8 + 1 / 2 :: rat\<rfloor> = flow_pct i"
  proof -
    consider "i = 0" | "i = 1" | "i = 2" | "i = 3" | "i = 4" | "i = 5" | "i = 6" | "i = 7"
      using assms by linarith
    moreover have "\<lfloor>13 :: rat\<rfloor> = 13" "\<lfloor>51 / 2 :: rat\<rfloor> = 25" "\<lfloor>101 / 2 :: rat\<rfloor> = 50"
        "\<lfloor>151 / 2 :: rat\<rfloor> = 75" "\<lfloor>201 / 2 :: rat\<rfloor> = 100"
      by (simp_all add: floor_eq_iff)
    ultimately show ?thesis by cases (simp_all add: flow_pct_def)
  qed
  ultimately show ?thesis by simp
qed

lemma flow_pct_less: "i < 8 \<Longrightarrow> j < 8 \<Longrightarrow> flow_pct i < flow_pct j \<longleftrightarrow> i < j"
  by (auto simp: less_Suc_eq numeral_eq_Suc flow_pct_def)

lemma flow_pct_range: "i < 8 \<Longrightarrow> 0 < flow_pct i \<and> flow_pct i \<le> 100 \<and> (flow_pct i = 100 \<longleftrightarrow> i = 7)"
  by (auto simp: less_Suc_eq numeral_eq_Suc flow_pct_def)

lemma progress_on_flow:
  assumes "dt_record s = Some r" and "flow_index (mr_state r) = Some i"
  shows "progress s = Fin (flow_pct i)"
proof -
  have "i < 8" using flow_index_lt [OF assms(2)] by simp
  moreover have "nat (currentIdx s + 1) = i + 1" using assms by (simp add: currentIdx_def)
  ultimately show ?thesis
    using assms flow_percentage [of i] by (simp add: progress_def currentIdx_def del: length_STATE_FLOW)
qed

lemma flow_index_7: "flow_index st = Some 7 \<longleftrightarrow> st = Done"
  by (cases st) auto

lemma flow_statuses:
  "map fw_status (snd (flow_view s)) = map (\<lambda>i. if int i < currentIdx s then Passed
      else if int i = currentIdx s then (if isLive s then Current else Complete) else Not_reached) [0..<8]"
proof (rule nth_equalityI)
  show "length (map fw_status (snd (flow_view s))) = length (map (\<lambda>i. if int i < currentIdx s then Passed
      else if int i = currentIdx s then (if isLive s then Current else Complete) else Not_reached) [0..<8])"
    by (simp add: flow_view_def)
qed (simp add: flow_view_def flow_row_view_def Let_def)

section \<open>Lists sent as null\<close>

definition no_nulls :: "detail \<Rightarrow> bool" where
  "no_nulls s \<longleftrightarrow> dt_ddlLogs s \<noteq> None \<and> dt_backfillProgress s \<noteq> None \<and> dt_canaryObs s \<noteq> None"

lemma safety_section_throws:
  "(\<exists>v. safety_section s = Inr v) \<longleftrightarrow> no_nulls s"
  "safety_section s = Inl e \<Longrightarrow> e = null_length"
  by (cases "dt_ddlLogs s"; cases "dt_backfillProgress s"; cases "dt_canaryObs s";
      force simp: safety_section_def need_def no_nulls_def)+

lemma view_throws:
  assumes "dt_id s \<noteq> []" and "\<not> dt_loading s" and "dt_record s = Some r" and "\<not> no_nulls s"
  shows "detail_view s = Inl null_length"
proof -
  obtain e where "safety_section s = Inl e"
    using safety_section_throws(1) [of s] assms(4) by (cases "safety_section s") auto
  moreover then have "e = null_length" by (rule safety_section_throws(2))
  ultimately show ?thesis using assms by (simp add: detail_view_def detail_page_view_def)
qed

lemma renders:
  assumes "no_nulls s" and "dt_schema s \<noteq> None"
  shows "\<exists>v. detail_view s = Inr v"
proof -
  obtain v where v: "safety_section s = Inr v" using safety_section_throws(1) [of s] assms(1) by blast
  obtain xs where xs: "dt_schema s = Some xs" using assms(2) by blast
  show ?thesis
  proof (cases "dt_record s")
    case (Some r)
    obtain w where "schema_sections s r = Inr w"
      by (cases "truthy_text (mr_table r)") (simp_all add: schema_sections_def need_def xs)
    with v Some show ?thesis by (simp add: detail_view_def detail_page_view_def)
  qed (simp add: detail_view_def)
qed

section \<open>Schemas\<close>

lemma schema_before_rows:
  "map (\<lambda>v. (cv_name v, cv_dropped v)) (sw_rows (schema_before tbl drops schema)) =
     map (\<lambda>c. (sc_name c, False)) schema @ map (\<lambda>n. (n, True)) drops"
proof (rule nth_equalityI)
  fix k assume "k < length (map (\<lambda>v. (cv_name v, cv_dropped v)) (sw_rows (schema_before tbl drops schema)))"
  then have "k < length schema + length drops" by (simp add: schema_before_def)
  then show "map (\<lambda>v. (cv_name v, cv_dropped v)) (sw_rows (schema_before tbl drops schema)) ! k =
      (map (\<lambda>c. (sc_name c, False)) schema @ map (\<lambda>n. (n, True)) drops) ! k"
    by (simp add: schema_before_def column_row_def nth_append dropped_column_def)
qed (simp add: schema_before_def)

section \<open>A concrete run\<close>

definition sample_detail :: detail where
  "sample_detail = foldl detail_step (fresh_detail ''m1'' no_timers (fresh_toaster 0))
     [D_mount, D_record ''m1'' (Inr (bare_record ''m1'' ''p1'' Canary False))]"

lemmas detail_run = detail_step_def dt_commit_def detail_view_def detail_page_view_def
  safety_section_def need_def schema_sections_def run_effects_def safety_render_def
  dt_render_poll_def fetchRecord_def fetchSafetyData_def schema_effect_def dt_call_def
  dt_settle_def record_fetched_def table_of_record_def poll_deps_def dt_mounted_def
  run_effect_def run_cleanup_def detail_effect_def safety_effect_def poll_effect_def
  plain_effect_def poll_cleanup_def setInterval_def clearInterval_def dep_live_def
  unmounted_def no_timers_def fresh_detail_def

lemma sample_detail_facts:
  "dt_mounted sample_detail" "dt_id sample_detail = ''m1''" "\<not> dt_loading sample_detail"
  "dt_calls sample_detail = [Get_safety ''m1'']" "isLive sample_detail"
  "dt_record sample_detail = Some (bare_record ''m1'' ''p1'' Canary False)"
  by (simp_all add: sample_detail_def detail_run bare_record_def truthy_text_def isLive_def)

lemma sample_detail_lists: "no_nulls (sample_detail\<lparr> dt_calls := cs \<rparr>)" "dt_schema sample_detail \<noteq> None"
  by (simp_all add: sample_detail_def detail_run bare_record_def truthy_text_def no_nulls_def)

lemma detail_periods:
  assumes ok: "polls_ok s"
  shows "map snd (own_live (dt_poll s)) = (if dt_mounted s \<and> isLive s then [2000] else []) \<and>
    map snd (own_live (dt_safetyPoll s)) = (if dt_mounted s then [5000] else [])"
proof (cases "dt_mounted s")
  case True
  have live: "dep_live (poll_deps s) = isLive s"
    by (simp add: dep_live_def poll_deps_def isLive_def split: option.split)
  have "mt_deps (dt_poll s) = Some (poll_deps s)" and "mt_deps (dt_safetyPoll s) \<noteq> None"
    using True ok by (auto simp: polls_ok_def dt_mounted_def)
  then show ?thesis
    using True ok live record_poll.interval_wanted [of "dt_poll s" "poll_deps s"]
      safety_poll.interval_wanted [of "dt_safetyPoll s"]
    by (auto simp: polls_ok_def POLL_INTERVAL_MS_def)
next
  case False
  then have "mt_deps (dt_poll s) = None" "mt_deps (dt_safetyPoll s) = None"
    using ok by (auto simp: polls_ok_def dt_mounted_def)
  with False show ?thesis
    using ok record_poll.no_interval_unmounted [of "dt_poll s"]
      safety_poll.no_interval_unmounted [of "dt_safetyPoll s"]
    by (simp add: polls_ok_def dt_mounted_def)
qed

section \<open>Properties\<close>

text \<open>
  C13: the page refreshes while it should. After any run the page's own intervals are one of two
  seconds exactly while the page is mounted and shows a migration that is not terminal, and one of
  five seconds for the safety data exactly while it is mounted. Leaving the page (or an error that
  takes it down) leaves none.
\<close>

theorem detail_polls_iff_live:
  assumes "\<forall>e \<in> set (tm_live h). fst e < tm_next h"
    and "s = foldl detail_step (fresh_detail i h t) evs"
  shows "map snd (own_live (dt_poll s)) = (if dt_mounted s \<and> isLive s then [2000] else []) \<and>
    map snd (own_live (dt_safetyPoll s)) = (if dt_mounted s then [5000] else [])"
  using polls_ok_run [OF assms(1)] by (simp add: assms(2) detail_periods)

theorem detail_polls_iff_live_witness:
  "map snd (own_live (dt_poll sample_detail)) = [2000]"
  using detail_polls_iff_live [of no_timers sample_detail "''m1''" "fresh_toaster 0"
      "[D_mount, D_record ''m1'' (Inr (bare_record ''m1'' ''p1'' Canary False))]"]
    sample_detail_facts(1,5) by (simp add: no_timers_def sample_detail_def)

text \<open>
  One abort at a time. At every moment at most one abort request is in flight, exactly while the
  button says it is aborting, and the confirmation dialog is not open meanwhile.
\<close>

theorem one_abort_at_a_time:
  "aborts (dt_calls (foldl detail_step (fresh_detail i h t) evs))
     = (if dt_aborting (foldl detail_step (fresh_detail i h t) evs) then 1 else 0) \<and>
   \<not> (dt_showAbortConfirm (foldl detail_step (fresh_detail i h t) evs) \<and>
      dt_aborting (foldl detail_step (fresh_detail i h t) evs))"
  using abort_ok_run [of i h t evs] by (auto simp: abort_ok_def)

text \<open>
  The progress bar. It shows a whole percentage; it grows strictly along the flow from Pending to
  Done, reaches 100 exactly in Done, and shows 0 for a migration off the flow (rolling or rolled back).
\<close>

theorem progress_follows_flow:
  "(flow_index (mr_state r) = None \<longrightarrow> progress (with_record r s) = Fin 0) \<and>
   (\<forall>i. flow_index (mr_state r) = Some i \<longrightarrow>
      (\<exists>p. progress (with_record r s) = Fin p \<and> 0 < p \<and> p \<le> 100 \<and> (p = 100 \<longleftrightarrow> mr_state r = Done) \<and>
        (\<forall>r' j q. flow_index (mr_state r') = Some j \<and> progress (with_record r' s) = Fin q \<longrightarrow>
           (i < j \<longleftrightarrow> p < q))))"
proof -
  have on: "progress (with_record r s) = Fin (flow_pct i)" if "flow_index (mr_state r) = Some i" for r i
    using that by (intro progress_on_flow) (simp_all add: with_record_def)
  show ?thesis
  proof (intro conjI impI allI)
    assume "flow_index (mr_state r) = None"
    then show "progress (with_record r s) = Fin 0"
      by (simp add: progress_def currentIdx_def with_record_def)
  next
    fix i assume i: "flow_index (mr_state r) = Some i"
    have lt: "i < 8" using flow_index_lt [OF i] by simp
    have "flow_pct i = 100 \<longleftrightarrow> mr_state r = Done"
      using flow_pct_range [OF lt] i flow_index_7 [of "mr_state r"] by auto
    moreover have "i < j \<longleftrightarrow> flow_pct i < q"
      if "flow_index (mr_state r') = Some j" "progress (with_record r' s) = Fin q" for r' j q
      using that on [OF that(1)] flow_pct_less [OF lt, of j] flow_index_lt [OF that(1)] by simp
    ultimately show "\<exists>p. progress (with_record r s) = Fin p \<and> 0 < p \<and> p \<le> 100 \<and>
        (p = 100 \<longleftrightarrow> mr_state r = Done) \<and>
        (\<forall>r' j q. flow_index (mr_state r') = Some j \<and> progress (with_record r' s) = Fin q \<longrightarrow>
           (i < j \<longleftrightarrow> p < q))"
      using on [OF i] flow_pct_range [OF lt] by (intro exI [of _ "flow_pct i"]) auto
  qed
qed

theorem progress_follows_flow_witness:
  "progress (with_record (bare_record ''m'' ''p'' RolledBack True) sample_detail) = Fin 0"
  using progress_follows_flow [of "bare_record ''m'' ''p'' RolledBack True" sample_detail]
  by (simp add: bare_record_def)

text \<open>
  The state-flow table. It has one row per state of the flow; of a migration at position \<open>i\<close> of
  the flow exactly the rows before \<open>i\<close> read Passed, row \<open>i\<close> reads Current while the migration runs and
  Complete once it is terminal, and no later row has a status. Off the flow no row has one.
\<close>

theorem flow_table_exact:
  "map fw_status (snd (flow_view (with_record r s))) =
     (case flow_index (mr_state r) of
        None \<Rightarrow> replicate 8 Not_reached
      | Some i \<Rightarrow> replicate i Passed @ [if mr_terminal r then Complete else Current] @
          replicate (7 - i) Not_reached) \<and>
   fst (flow_view (with_record r s)) =
     (case flow_index (mr_state r) of None \<Rightarrow> ''0 of 8'' | Some i \<Rightarrow> show_nat (i + 1) @ '' of 8'')"
proof -
  have eight: "show_nat 8 = ''8''" "show_nat 0 = ''0''" by code_simp+
  have rows: "[0..<8] = [0, 1, 2, 3, 4, 5, 6, 7 :: nat]" by (simp add: upt_rec)
  show ?thesis
    unfolding flow_statuses rows using eight
    by (cases "mr_state r")
      (auto simp: currentIdx_def with_record_def isLive_def flow_view_def show_int_def numeral_eq_Suc)
qed

text \<open>
  C35: an empty list takes the page down. The engine sends \<^verbatim>\<open>null\<close> for a list without entries. When, after
  any run of the page, it is mounted, shows a record and is not loading, and the three safety answers
  arrive with one of their lists \<^verbatim>\<open>null\<close>, the next render throws: the page is replaced by the error
  boundary, and of the intervals it ever started none is live. This is what happens for every migration
  that has no DDL log, no backfill batch or no canary observation yet.
\<close>

theorem null_safety_list_crashes:
  assumes "\<forall>e \<in> set (tm_live h). fst e < tm_next h"
    and "s = foldl detail_step (fresh_detail j h t) evs"
    and "Get_safety i \<in> set (dt_calls s)" and "dt_mounted s" and "dt_id s \<noteq> []" and "\<not> dt_loading s"
    and "dt_record s = Some r"
    and "sm_ddl_logs a = None \<or> bpr_progress b = None \<or> cor_observations c = None"
    and "s' = detail_step s (D_safety i (Inr a) (Inr b) (Inr c))"
  shows "dt_crashed s' = Some null_length \<and> \<not> dt_mounted s' \<and>
    own_live (dt_poll s') = [] \<and> own_live (dt_safetyPoll s') = []"
proof -
  let ?s = "safety_fetched (Inr a) (Inr b) (Inr c) (dt_settle (Get_safety i) s)"
  have "detail_view ?s = Inl null_length"
    using assms(5-8) by (intro view_throws) (auto simp: safety_fetched_def dt_settle_def no_nulls_def)
  moreover have "dt_mounted ?s"
    using assms(4) by (simp add: safety_fetched_def dt_settle_def dt_mounted_def)
  ultimately have "dt_crashed s' = Some null_length \<and> \<not> dt_mounted s'"
    using assms(3) by (simp add: assms(9) detail_step_def dt_commit_def leave_page_def dt_mounted_def
        Let_def del: life_step.simps)
  moreover have "polls_ok s'"
    unfolding assms(9,2) by (rule polls_ok_step [OF polls_ok_run [OF assms(1)]])
  ultimately show ?thesis using detail_periods [of s'] by simp
qed

theorem null_safety_list_crashes_witness:
  "own_live (dt_safetyPoll (detail_step sample_detail (D_safety ''m1''
      (Inr \<lparr> sm_migration_id = ''m1'', sm_ddl_logs = None \<rparr>)
      (Inr \<lparr> bpr_migration_id = ''m1'', bpr_progress = None \<rparr>)
      (Inr \<lparr> cor_migration_id = ''m1'', cor_observations = None \<rparr>)))) = []"
proof -
  have start: "\<forall>e \<in> set (tm_live no_timers). fst e < tm_next no_timers" by (simp add: no_timers_def)
  have "Get_safety ''m1'' \<in> set (dt_calls sample_detail)" "dt_id sample_detail \<noteq> []"
    by (simp_all add: sample_detail_facts)
  then show ?thesis
    by (rule null_safety_list_crashes [OF start sample_detail_def _ sample_detail_facts(1) _ sample_detail_facts(3,6) _ refl,
        THEN conjunct2, THEN conjunct2, THEN conjunct2]) simp
qed

text \<open>
  Without \<^verbatim>\<open>null\<close> the page renders. If the three lists are present, and the schema is present
  or the migration names no table, rendering succeeds in every state.
\<close>

theorem page_renders:
  assumes "no_nulls s" and "dt_schema s \<noteq> None"
  shows "\<exists>v. detail_view s = Inr v"
  using assms by (rule renders)

theorem page_renders_witness: "\<exists>v. detail_view (fresh_detail ''m1'' no_timers (fresh_toaster 0)) = Inr v"
  using page_renders [of "fresh_detail ''m1'' no_timers (fresh_toaster 0)"]
  by (simp add: fresh_detail_def no_nulls_def)

text \<open>
  No throttle events show as a stray zero. The chart appears exactly for a positive count; a
  missing or negative count renders nothing, but a count of 0 renders the text 0 on the page.
\<close>

theorem zero_throttles_render_zero:
  "(throttle_slot r = Slot_chart \<longleftrightarrow> (\<exists>n. mr_throttle_events r = Some n \<and> js_lt (Fin 0) n)) \<and>
   throttle_slot (r\<lparr> mr_throttle_events := Some (Fin 0) \<rparr>) = Slot_text ''0''"
proof -
  have zero: "show_int 0 = ''0''" by code_simp
  have lt: "js_truthy n" if "js_lt (Fin 0) n" for n
    using that by (cases n) (auto simp: js_truthy_def)
  show ?thesis
    using lt by (auto simp: throttle_slot_def js_truthy_def zero split: option.split)
qed

text \<open>
  The table of the schema before a migration. Its rows are the fetched columns followed by the
  columns to be dropped; while a dropped column still exists it is listed twice, once as an ordinary
  column and once as dropped, and the count above the table counts it twice.
\<close>

theorem dropped_column_listed_twice:
  "map (\<lambda>v. (cv_name v, cv_dropped v)) (sw_rows (schema_before tbl drops schema)) =
     map (\<lambda>c. (sc_name c, False)) schema @ map (\<lambda>n. (n, True)) drops \<and>
   sw_count (schema_before tbl drops schema) = show_nat (length schema + length drops) @ '' columns'' \<and>
   (\<forall>c \<in> set schema. sc_name c \<in> set drops \<longrightarrow>
      {(sc_name c, False), (sc_name c, True)}
        \<subseteq> set (map (\<lambda>v. (cv_name v, cv_dropped v)) (sw_rows (schema_before tbl drops schema))))"
  unfolding schema_before_rows by (auto simp: schema_before_def)

theorem dropped_column_listed_twice_witness:
  "sw_count (schema_before ''t'' [''old''] [dropped_column ''id'', dropped_column ''old'']) = ''3 columns''"
proof -
  have "show_nat 3 = ''3''" by code_simp
  then show ?thesis
    using dropped_column_listed_twice [of "''t''" "[''old'']" "[dropped_column ''id'', dropped_column ''old'']"]
    by (simp add: numeral_eq_Suc)
qed

text \<open>
  A late answer replaces the page's migration. An answer that was requested for another id is
  taken as it is: after the route changed, the page shows the migration of the old request under the
  new id.
\<close>

theorem late_record_is_shown:
  assumes "Get_record i \<in> set (dt_calls s)" and "i \<noteq> dt_id s" and "dt_mounted s"
    and "no_nulls s" and "dt_schema s \<noteq> None"
  shows "dt_record (detail_step s (D_record i (Inr r))) = Some r \<and>
    dh_title (detail_header_view (detail_step s (D_record i (Inr r)))) = dt_id s"
proof -
  let ?s = "record_fetched (Inr r) (dt_settle (Get_record i) s)"
  have "no_nulls ?s" "dt_schema ?s \<noteq> None"
    using assms(4,5) by (simp_all add: record_fetched_def dt_settle_def no_nulls_def)
  then obtain v where v: "detail_view ?s = Inr v" using renders by blast
  have "dt_mounted ?s" using assms(3) by (simp add: record_fetched_def dt_settle_def dt_mounted_def)
  then show ?thesis
    using assms(1) v by (simp add: detail_step_def dt_commit_def effects_fields detail_header_view_def Let_def)
      (simp add: record_fetched_def dt_settle_def)
qed

end
