(* ===== verification/Panels.thy ===== *)
theory Panels
  imports JsText Constants
begin

text \<open>
  The four report panels of the migration page, as functions of the record:
  \<^verbatim>\<open>components/ExecutiveHealthPanel.tsx\<close>, \<^verbatim>\<open>components/DataParityPanel.tsx\<close>,
  \<^verbatim>\<open>components/CostEfficiencyPanel.tsx\<close> and \<^verbatim>\<open>components/DisasterAvertedChart.tsx\<close>. A view holds the
  texts and conditions of the source; styling, icons and emoji are left out, a long dash is
  written \<open>--\<close>. The locale's number formatting is the parameter \<open>loc\<close>.
\<close>

section \<open>Defaults\<close>

text \<open>\<^verbatim>\<open>x || d\<close> for an optional number or text, and \<^verbatim>\<open>x?.toLocaleString() || '0'\<close>.\<close>

definition num_or :: "number option \<Rightarrow> number \<Rightarrow> number" where
  "num_or x d = (case x of Some n \<Rightarrow> if js_truthy n then n else d | None \<Rightarrow> d)"

definition text_or :: "string option \<Rightarrow> string \<Rightarrow> string" where
  "text_or x d = (case x of Some s \<Rightarrow> if s = [] then d else s | None \<Rightarrow> d)"

definition locale_or_zero :: "(number \<Rightarrow> string) \<Rightarrow> number option \<Rightarrow> string" where
  "locale_or_zero loc x = text_or (map_option loc x) ''0''"

definition plan_table :: "migration_record \<Rightarrow> string option" where
  "plan_table r = map_option mp_table (mr_plan r)"

text \<open>The engine's answer for one migration: the columns it sends, nothing of the report fields.\<close>

definition engine_record ::
  "string \<Rightarrow> string \<Rightarrow> mig_state \<Rightarrow> bool \<Rightarrow> string \<Rightarrow> migration_plan \<Rightarrow> migration_record" where
  "engine_record i plan_id st terminal tbl p =
     (bare_record i plan_id st terminal)\<lparr> mr_table := Some tbl, mr_plan := Some p \<rparr>"

section \<open>Executive health\<close>

datatype outcome = Outcome_success | Outcome_throttled | Outcome_rolled_back

definition getOutcome :: "migration_record \<Rightarrow> outcome" where
  "getOutcome r =
     (if mr_state r = RolledBack then Outcome_rolled_back
      else if mr_state r = Done \<and>
          (case mr_throttle_events r of Some n \<Rightarrow> js_truthy n \<and> js_lt (Fin 0) n | None \<Rightarrow> False)
      then Outcome_throttled
      else Outcome_success)"

definition getThrottleEvents :: "migration_record \<Rightarrow> throttle_event list" where
  "getThrottleEvents r =
     (case mr_throttle_events r of
        None \<Rightarrow> []
      | Some n \<Rightarrow> if \<not> js_truthy n \<or> js_eq n (Fin 0) then []
          else (case mr_throttle_events_list r of Some l \<Rightarrow> l | None \<Rightarrow> []))"

text \<open>\<^verbatim>\<open>events.reduce((acc, e) => acc + e.duration, '0s')\<close>, as two panels have it.\<close>

definition total_throttle :: "throttle_event list \<Rightarrow> string" where
  "total_throttle es = foldl (\<lambda>acc e. acc @ te_duration e) ''0s'' es"

record throttle_view =
  th_heading :: string
  th_items :: "(string \<times> string \<times> string) list"
  th_total :: string

definition throttle_list :: "throttle_event list \<Rightarrow> throttle_view" where
  "throttle_list es =
     \<lparr> th_heading = ''ENGINE PROTECTED DATABASE FROM '' @ show_nat (length es) @ '' POTENTIAL OUTAGES'',
       th_items = map (\<lambda>e. (te_timestamp e, ''Paused '' @ te_duration e, ''-- '' @ te_reason e)) es,
       th_total = ''Total Throttle Time: '' @ total_throttle es \<rparr>"

fun rollback_icon :: "rollback_kind \<Rightarrow> string" where
  "rollback_icon Breach = ''breach''"
| "rollback_icon Trip = ''trip''"
| "rollback_icon Init = ''init''"
| "rollback_icon Drain = ''drain''"
| "rollback_icon Drop = ''drop''"
| "rollback_icon Complete = ''complete''"
| "rollback_icon Verify = ''verify''"

record health_view =
  hv_title :: string
  hv_subtitle :: "string \<times> string \<times> string"
  hv_parity :: "string \<times> string \<times> string"
  hv_disaster :: "string \<times> string \<times> string"
  hv_cost :: "string \<times> string \<times> string"
  hv_throttles :: "throttle_view option"
  hv_rollback :: "(string \<times> string \<times> string) list option"

definition health_title :: "outcome \<Rightarrow> string" where
  "health_title o' = (case o' of
       Outcome_success \<Rightarrow> ''MIGRATION COMPLETED SUCCESSFULLY''
     | Outcome_throttled \<Rightarrow> ''MIGRATION COMPLETED WITH THROTTLING''
     | Outcome_rolled_back \<Rightarrow> ''MIGRATION ROLLED BACK -- AUTOMATIC RECOVERY'')"

definition ExecutiveHealthPanel :: "(number \<Rightarrow> string) \<Rightarrow> migration_record \<Rightarrow> health_view" where
  "ExecutiveHealthPanel loc r =
     (let out = getOutcome r; es = getThrottleEvents r in
      \<lparr> hv_title = health_title out,
        hv_subtitle = (text_or (plan_table r) ''Unknown'',
          locale_or_zero loc (mr_row_count r) @ '' rows'', text_or (mr_duration r) ''0h 0m''),
        hv_parity =
          ((case mr_data_parity r of
              Some n \<Rightarrow> if js_eq n (Fin 100) then ''100%'' else num_text (num_or (Some n) (Fin 0)) @ ''%''
            | None \<Rightarrow> ''0%''),
           locale_or_zero loc (mr_rows_verified r) @ '' rows verified'',
           num_text (num_or (mr_drift_detected r) (Fin 0)) @ '' drift detected''),
        hv_disaster =
          (num_text (num_or (mr_throttle_events r) (Fin 0)) @ '' Events'',
           num_text (num_or (mr_data_loss r) (Fin 0)) @ '' Data Loss'',
           text_or (mr_uptime r) ''99.97%'' @ '' uptime''),
        hv_cost =
          (''$'' @ num_text (num_or (mr_downtime_cost r) (Fin 0)),
           num_text (num_or (mr_downtime_seconds r) (Fin 0)) @ ''s downtime'',
           num_text (num_or (mr_engineering_saved r) (Fin 0)) @ '' hrs saved''),
        hv_throttles =
          (if out = Outcome_throttled \<and> length es > 0 then Some (throttle_list es) else None),
        hv_rollback =
          (if out = Outcome_rolled_back
           then Some (case mr_rollback_events r of
               None \<Rightarrow> []
             | Some l \<Rightarrow> map (\<lambda>e. (rollback_icon (re_type e), re_timestamp e, re_message e)) l)
           else None) \<rparr>)"

section \<open>Data parity\<close>

record verification_check =
  vc_name :: string
  vc_description :: string
  vc_result :: string
  vc_passed :: bool

text \<open>\<^verbatim>\<open>===\<close> on an optional number or text: two missing values are identical, NaN is not.\<close>

definition same_number :: "number option \<Rightarrow> number option \<Rightarrow> bool" where
  "same_number a b =
     (case (a, b) of (Some m, Some n) \<Rightarrow> js_eq m n | (None, None) \<Rightarrow> True | _ \<Rightarrow> False)"

definition valid_or_true :: "bool option \<Rightarrow> bool" where
  "valid_or_true b = (case b of Some v \<Rightarrow> v | None \<Rightarrow> True)"

definition verificationChecks :: "(number \<Rightarrow> string) \<Rightarrow> migration_record \<Rightarrow> verification_check list" where
  "verificationChecks loc r =
     [\<lparr> vc_name = ''Row Count Match'',
        vc_description = ''Compare source and destination row counts'',
        vc_result = locale_or_zero loc (mr_source_rows r) @ '' = '' @ locale_or_zero loc (mr_dest_rows r),
        vc_passed = same_number (mr_source_rows r) (mr_dest_rows r) \<rparr>,
      \<lparr> vc_name = ''Checksum Match'',
        vc_description = ''CRC32 checksum of all rows'',
        vc_result = text_or (mr_source_checksum r) ''--'' @ '' = '' @ text_or (mr_dest_checksum r) ''--'',
        vc_passed = (mr_source_checksum r = mr_dest_checksum r) \<rparr>,
      \<lparr> vc_name = ''NULL Value Check'',
        vc_description = ''Verify NULL handling'',
        vc_result = num_text (num_or (mr_null_mismatches r) (Fin 0)) @ '' mismatches'',
        vc_passed = js_eq (num_or (mr_null_mismatches r) (Fin 0)) (Fin 0) \<rparr>,
      \<lparr> vc_name = ''Type Conversion'',
        vc_description = ''Verify data type conversions'',
        vc_result = (if mr_type_conversion_valid r = Some True then ''All conversions valid''
                     else ''Invalid conversions detected''),
        vc_passed = valid_or_true (mr_type_conversion_valid r) \<rparr>,
      \<lparr> vc_name = ''FK Integrity'',
        vc_description = ''Verify foreign key constraints'',
        vc_result = (if mr_fk_integrity_valid r = Some True then ''All constraints satisfied''
                     else ''FK violations detected''),
        vc_passed = valid_or_true (mr_fk_integrity_valid r) \<rparr>]"

definition allPassed :: "(number \<Rightarrow> string) \<Rightarrow> migration_record \<Rightarrow> bool" where
  "allPassed loc r = list_all vc_passed (verificationChecks loc r)"

record parity_view =
  py_badge :: string
  py_source :: string
  py_destination :: string
  py_method :: string
  py_checks :: "(string \<times> string \<times> string) list"
  py_mutations :: "string list"

definition DataParityPanel :: "(number \<Rightarrow> string) \<Rightarrow> migration_record \<Rightarrow> parity_view" where
  "DataParityPanel loc r =
     \<lparr> py_badge = (if allPassed loc r then ''VERIFIED'' else ''ISSUES DETECTED''),
       py_source = ''Source: '' @ text_or (plan_table r) ''--'' @
         '' ('' @ locale_or_zero loc (mr_source_rows r) @ '' rows)'',
       py_destination = ''Destination: '' @ text_or (plan_table r) ''--'' @ ''_v2 ('' @
         locale_or_zero loc (mr_dest_rows r) @ '' rows)'',
       py_method = ''VERIFICATION METHOD: '' @ text_or (mr_verification_method r) ''CRC32 Checksum'',
       py_checks = map (\<lambda>c. (vc_name c, vc_result c, if vc_passed c then ''PASS'' else ''FAIL''))
         (verificationChecks loc r),
       py_mutations =
         [''DELETEs processed: '' @ loc (num_or (mr_deletes_processed r) (Fin 0)) @ '' rows'',
          ''UPDATEs processed: '' @ loc (num_or (mr_updates_processed r) (Fin 0)) @ '' rows'',
          ''ALTERs handled: '' @ num_text (num_or (mr_alters_handled r) (Fin 0)) @ '' operations''] \<rparr>"

section \<open>Cost and efficiency\<close>

record cost_metrics =
  cm_downtimeCost :: number
  cm_downtimeSeconds :: number
  cm_engineeringHours :: number
  cm_costSaved :: number
  cm_throughput :: number

definition costMetrics :: "migration_record \<Rightarrow> cost_metrics" where
  "costMetrics r =
     \<lparr> cm_downtimeCost = num_or (mr_downtime_cost r) (Fin 0),
       cm_downtimeSeconds = num_or (mr_downtime_seconds r) (Fin 0),
       cm_engineeringHours = num_or (mr_engineering_saved r) (Fin 0),
       cm_costSaved = num_or (mr_cost_saved r) (Fin 0),
       cm_throughput = num_or (mr_throughput r) (Fin 0) \<rparr>"

record side =
  sd_duration :: string
  sd_engineers :: nat
  sd_risk :: string
  sd_downtime :: string
  sd_dataLossRisk :: string
  sd_rollbackTime :: string
  sd_cost :: string

definition manual_side :: side where
  "manual_side =
     \<lparr> sd_duration = ''3-5 days'', sd_engineers = 2, sd_risk = ''High'', sd_downtime = ''1-4 hours'',
       sd_dataLossRisk = ''Possible'', sd_rollbackTime = ''1-2 hours'', sd_cost = ''$4,800-$8,000'' \<rparr>"

definition mse_side :: "migration_record \<Rightarrow> side" where
  "mse_side r =
     \<lparr> sd_duration = text_or (mr_duration r) ''0h 0m'', sd_engineers = 0, sd_risk = ''Zero'',
       sd_downtime = num_text (cm_downtimeSeconds (costMetrics r)) @ ''s'',
       sd_dataLossRisk = ''Impossible'', sd_rollbackTime = ''2m 34s'',
       sd_cost = ''$'' @ to_fixed 2 (cm_downtimeCost (costMetrics r)) \<rparr>"

definition roi_rows :: "(number \<Rightarrow> string) \<Rightarrow> migration_record \<Rightarrow> string list list" where
  "roi_rows loc r =
     (let man = manual_side; mse = mse_side r; cm = costMetrics r in
      [[''Metric'', ''Manual Process'', ''MSE Engine''],
       [''Duration'', sd_duration man, sd_duration mse],
       [''Engineers Required'', show_nat (sd_engineers man), show_nat (sd_engineers mse)],
       [''Risk Level'', sd_risk man, sd_risk mse],
       [''Downtime'', sd_downtime man, sd_downtime mse],
       [''Data Loss Risk'', sd_dataLossRisk man, sd_dataLossRisk mse],
       [''Rollback Time'', sd_rollbackTime man, sd_rollbackTime mse],
       [''Cost (@ $100/hr)'', sd_cost man, sd_cost mse],
       [[], [], []],
       [''TIME SAVED'', [], num_text (cm_engineeringHours cm) @ '' hours''],
       [''COST SAVED'', [], ''$'' @ loc (cm_costSaved cm)],
       [''THROUGHPUT (AVG)'', [], loc (cm_throughput cm) @ '' rows/sec'']])"

definition csv_of :: "string list list \<Rightarrow> string" where
  "csv_of rows = join [CHR 0x0A] (map (join '','') rows)"

text \<open>The exported file: its name and its text.\<close>

definition handleExportROI :: "(number \<Rightarrow> string) \<Rightarrow> migration_record \<Rightarrow> string \<times> string" where
  "handleExportROI loc r =
     (''mse-roi-report-'' @ text_or (Some (mr_migration_id r)) ''migration'' @ ''.csv'',
      csv_of (roi_rows loc r))"

definition share_text :: "migration_record \<Rightarrow> string" where
  "share_text r =
     (let man = manual_side; mse = mse_side r in
      join [CHR 0x0A]
       [''Migration Safety Engine -- ROI Report'',
        ''Migration: '' @ text_or (Some (mr_migration_id r)) ''N/A'',
        ''Table: '' @ text_or (mr_table r) ''N/A'',
        ''Duration: '' @ sd_duration mse,
        ''Downtime: '' @ sd_downtime mse,
        ''Cost: '' @ sd_cost mse @ '' (vs '' @ sd_cost man @ '' manual)'',
        ''Time Saved: '' @ num_text (cm_engineeringHours (costMetrics r)) @ '' hours'',
        ''Risk: '' @ sd_risk mse @ '' (vs '' @ sd_risk man @ '' manual)''])"

text \<open>
  State of the panel; \<open>ct_resets\<close> counts the pending timeouts that set \<^verbatim>\<open>copied\<close> back. Where the
  clipboard refuses the text, \<open>fallback\<close> says whether \<^verbatim>\<open>document.execCommand('copy')\<close> copied it; the
  code does not look at its answer.
\<close>

record cost_state =
  ct_showDetailed :: bool
  ct_copied :: bool
  ct_resets :: nat
  ct_clipboard :: "string option"

definition fresh_cost :: cost_state where
  "fresh_cost = \<lparr> ct_showDetailed = False, ct_copied = False, ct_resets = 0, ct_clipboard = None \<rparr>"

definition mark_copied :: "cost_state \<Rightarrow> cost_state" where
  "mark_copied s = s\<lparr> ct_copied := True, ct_resets := ct_resets s + 1 \<rparr>"

definition handleShare :: "migration_record \<Rightarrow> unit result \<Rightarrow> bool \<Rightarrow> cost_state \<Rightarrow> cost_state" where
  "handleShare r clipboard fallback s =
     (let text = share_text r
      in case clipboard of
          Inr _ \<Rightarrow> mark_copied (s\<lparr> ct_clipboard := Some text \<rparr>)
        | Inl _ \<Rightarrow> mark_copied (if fallback then s\<lparr> ct_clipboard := Some text \<rparr> else s))"

definition reset_copied :: "cost_state \<Rightarrow> cost_state" where
  "reset_copied s = (if ct_resets s = 0 then s else s\<lparr> ct_copied := False, ct_resets := ct_resets s - 1 \<rparr>)"

definition toggle_detailed :: "cost_state \<Rightarrow> cost_state" where
  "toggle_detailed s = s\<lparr> ct_showDetailed := \<not> ct_showDetailed s \<rparr>"

record cost_view =
  cw_downtime :: "string \<times> string"
  cw_engineering :: string
  cw_throughput :: string
  cw_comparison :: "string list list"
  cw_summary :: "string \<times> string"
  cw_share_label :: string
  cw_detail_label :: string
  cw_detailed :: "string list option"

text \<open>
  The detailed metrics read fields that the record type does not have: \<open>extra_num\<close> and \<open>extra_text\<close>
  look a field up by its name.
\<close>

definition cost_detailed ::
  "(number \<Rightarrow> string) \<Rightarrow> (string \<Rightarrow> number option) \<Rightarrow> (string \<Rightarrow> string option)
    \<Rightarrow> migration_record \<Rightarrow> string list" where
  "cost_detailed loc extra_num extra_text r =
     [num_text (num_or (extra_num ''batch_size'') (Fin 1000)),
      num_text (num_or (extra_num ''throttle_ms'') (Fin 100)) @ ''ms'',
      loc (num_or (extra_num ''total_rows'') (Fin 0)),
      loc (num_or (extra_num ''rows_scanned'') (Fin 0)),
      loc (num_or (extra_num ''rows_modified'') (Fin 0)),
      loc (num_or (extra_num ''rows_diverged'') (Fin 0)),
      text_or (Some (mr_plan_id r)) ''N/A'',
      text_or (extra_text ''started_at'') ''N/A'',
      text_or (extra_text ''completed_at'') ''N/A'']"

definition CostEfficiencyPanel ::
  "(number \<Rightarrow> string) \<Rightarrow> (string \<Rightarrow> number option) \<Rightarrow> (string \<Rightarrow> string option)
    \<Rightarrow> migration_record \<Rightarrow> cost_state \<Rightarrow> cost_view" where
  "CostEfficiencyPanel loc extra_num extra_text r s =
     (let cm = costMetrics r in
      \<lparr> cw_downtime = (''$'' @ to_fixed 2 (cm_downtimeCost cm),
          to_fixed 2 (cm_downtimeSeconds cm) @ ''s downtime''),
        cw_engineering = num_text (cm_engineeringHours cm) @ '' hours'',
        cw_throughput = loc (cm_throughput cm) @ '' rows/sec'',
        cw_comparison = take 7 (drop 1 (roi_rows loc r)),
        cw_summary = (num_text (cm_engineeringHours cm) @ '' hours'', ''$'' @ loc (cm_costSaved cm)),
        cw_share_label = (if ct_copied s then ''Copied!'' else ''Share with Team''),
        cw_detail_label = (if ct_showDetailed s then ''Hide Detailed Metrics'' else ''View Detailed Metrics''),
        cw_detailed = (if ct_showDetailed s then Some (cost_detailed loc extra_num extra_text r) else None) \<rparr>)"

section \<open>Disaster averted\<close>

record chart =
  ch_h_lines :: "number list"
  ch_v_lines :: "number list"
  ch_threshold :: number
  ch_latency :: "(number \<times> number) list"
  ch_markers :: "(number \<times> number) list"
  ch_y_labels :: "(string \<times> number) list"
  ch_x_labels :: "(string \<times> number) list"

definition latency_points :: "(number \<times> number) list" where
  "latency_points =
     [(Fin 0, fl (5 / 10)), (fl (1 / 10), fl (45 / 100)), (fl (2 / 10), fl (4 / 10)),
      (fl (3 / 10), fl (35 / 100)), (fl (4 / 10), fl (3 / 10)), (fl (5 / 10), fl (25 / 100)),
      (fl (6 / 10), fl (2 / 10)), (fl (7 / 10), fl (15 / 100)), (fl (8 / 10), fl (1 / 10)),
      (fl (9 / 10), fl (5 / 100)), (Fin 1, Fin 0)]"

definition time_labels :: "string list" where
  "time_labels = [''12:00'', ''13:00'', ''14:00'', ''15:00'', ''16:00'', ''16:30'']"

text \<open>Padding: 20 above, 20 on the right, 30 below, 50 on the left.\<close>

definition chartWidth :: "number \<Rightarrow> number" where
  "chartWidth width = js_sub (js_sub width (Fin 50)) (Fin 20)"

definition chartHeight :: "number \<Rightarrow> number" where
  "chartHeight height = js_sub (js_sub height (Fin 20)) (Fin 30)"

definition marker_x :: "number \<Rightarrow> nat \<Rightarrow> nat \<Rightarrow> number" where
  "marker_x width n i =
     js_add (Fin 50) (js_mul (chartWidth width) (js_div (num_of_nat (i + 1)) (num_of_nat (n + 1))))"

definition drawChart :: "number \<Rightarrow> number \<Rightarrow> throttle_event list \<Rightarrow> chart" where
  "drawChart width height es =
     (let cw = chartWidth width; chh = chartHeight height;
          row = (\<lambda>i. js_add (Fin 20) (js_mul (js_div chh (Fin 4)) (num_of_nat i)))
      in \<lparr> ch_h_lines = map row [0..<5],
           ch_v_lines = map (\<lambda>i. js_add (Fin 50) (js_mul (js_div cw (Fin 6)) (num_of_nat i))) [0..<7],
           ch_threshold = js_add (Fin 20) (js_mul chh (fl (2 / 10))),
           ch_latency = map (\<lambda>(x, y). (js_add (Fin 50) (js_mul cw x), js_add (Fin 20) (js_mul chh y)))
             latency_points,
           ch_markers = map (\<lambda>i. (marker_x width (length es) i, js_add (Fin 20) (js_mul chh (fl (3 / 10)))))
             [0..<length es],
           ch_y_labels = map (\<lambda>i. (num_text (js_sub (Fin 250) (js_mul (js_div (Fin 250) (Fin 4)) (num_of_nat i)))
               @ ''ms'', js_add (row i) (Fin 3))) [0..<5],
           ch_x_labels = map (\<lambda>(i, l). (l, js_add (Fin 50)
               (js_mul (js_div cw (num_of_nat (length time_labels - 1))) (num_of_nat i))))
             (enumerated time_labels) \<rparr>)"

record disaster_view =
  da_timeline :: string
  da_chart :: chart
  da_throttles :: "throttle_view option"

definition DisasterAvertedChart :: "number \<Rightarrow> number \<Rightarrow> migration_record \<Rightarrow> disaster_view" where
  "DisasterAvertedChart width height r =
     (let es = (case mr_throttle_events_list r of Some l \<Rightarrow> l | None \<Rightarrow> [])
      in \<lparr> da_timeline = ''Timeline: '' @ text_or (mr_start_time r) ''12:00'' @ '' - '' @
             text_or (mr_end_time r) ''16:30'',
           da_chart = drawChart width height es,
           da_throttles = (if length es > 0 then Some (throttle_list es) else None) \<rparr>)"

section \<open>Facts\<close>

lemma total_throttle_concat: "total_throttle es = ''0s'' @ concat (map te_duration es)"
proof -
  have "foldl (\<lambda>acc e. acc @ te_duration e) a es = a @ concat (map te_duration es)" for a
    by (induction es arbitrary: a) simp_all
  then show ?thesis by (simp add: total_throttle_def)
qed

lemma chart_width_nat:
  assumes "70 \<le> w" and "w \<le> 2 ^ 53"
  shows "chartWidth (Fin (of_nat w)) = Fin (of_nat (w - 70))"
proof -
  have a: "of_nat w - 50 = (of_nat (w - 50) :: rat)" and b: "of_nat (w - 50) - 20 = (of_nat (w - 70) :: rat)"
    using assms(1) by (simp_all add: of_nat_diff)
  have "w - 50 \<le> 2 ^ 53" "w - 70 \<le> 2 ^ 53" using assms(2) by simp_all
  then show ?thesis
    unfolding chartWidth_def js_sub_Fin a by (simp only: fl_of_nat js_sub_Fin b)
qed

lemma marker_between:
  assumes "70 \<le> w" and "w \<le> 2 ^ 53" and "i \<le> n" and "n < 2 ^ 53"
  shows "\<exists>x. marker_x (Fin (of_nat w)) n i = Fin x \<and> 50 \<le> x \<and> x \<le> of_nat (w - 20)"
proof -
  have r: "of_nat (i + 1) \<le> (of_nat (n + 1) :: rat)" "0 < (of_nat (n + 1) :: rat)"
    using assms(3) by simp_all
  then obtain q where q: "fl (of_nat (i + 1) / of_nat (n + 1)) = Fin q" "0 \<le> q" "q \<le> 1"
    using b64.ratio_unit [of "of_nat (i + 1)" "of_nat (n + 1)"] by auto
  have "of_nat (w - 70) * q \<le> of_nat (w - 70) * 1" using q by (intro mult_left_mono) auto
  moreover have "w - 70 \<le> 2 ^ 53" using assms(2) by (rule le_trans [OF diff_le_self])
  ultimately obtain t where t: "fl (of_nat (w - 70) * q) = Fin t" "0 \<le> t" "t \<le> of_nat (w - 70)"
    using b64.bounded [of "of_nat (w - 70) * q" "w - 70"] q by auto
  have "(50 :: rat) + of_nat (w - 70) = of_nat (w - 20)"
  proof -
    have "50 + (w - 70) = w - 20" using assms(1) by simp
    then show ?thesis by (metis of_nat_add of_nat_numeral)
  qed
  then obtain x where x: "fl (50 + t) = Fin x" "50 \<le> x" "x \<le> of_nat (w - 20)"
    using b64.between [of 50 "50 + t" "w - 20"] t le_trans [OF diff_le_self assms(2)] by auto
  have "num_of_nat (i + 1) = Fin (of_nat (i + 1))" "num_of_nat (n + 1) = Fin (of_nat (n + 1))"
    using assms(3,4) by (simp_all del: of_nat_add)
  then show ?thesis
    using x t(1) q(1) r(2) chart_width_nat [OF assms(1,2)] by (simp add: marker_x_def del: of_nat_add of_nat_Suc)
qed

lemma csv_lines:
  assumes "rows \<noteq> []" and "\<forall>r \<in> set rows. r \<noteq> [] \<and> (\<forall>f \<in> set r. CHR '','' \<notin> set f \<and> CHR 0x0A \<notin> set f)"
  shows "map (split_on CHR '','') (split_on CHR 0x0A (csv_of rows)) = rows"
proof -
  have nl: "CHR 0x0A \<notin> set (join '','' r)" if "\<forall>f \<in> set r. CHR 0x0A \<notin> set f" for r
    using that by (induction r rule: induct_list012) auto
  have "split_on CHR 0x0A (csv_of rows) = map (join '','') rows"
    unfolding csv_of_def using assms nl by (intro split_join) auto
  moreover have "split_on CHR '','' (join '','' r) = r" if "r \<in> set rows" for r
    using that assms(2) by (intro split_join) auto
  ultimately show ?thesis by (simp add: map_idI)
qed

lemma split_on_four:
  "c \<notin> set v \<Longrightarrow> c \<notin> set w \<Longrightarrow> c \<notin> set x \<Longrightarrow> c \<notin> set y \<Longrightarrow>
    take 4 (split_on c (v @ c # w @ c # x @ c # y @ c # z)) = [v, w, x, y]"
  by (simp add: split_on_append)

section \<open>Properties\<close>

text \<open>
  A parity panel without data says VERIFIED. For a migration as the engine sends it (no row
  counts, no checksums, no check results), the panel shows the badge VERIFIED and PASS on all five
  checks, next to the results Invalid conversions detected and FK violations detected; it does so
  in every terminal state, a rolled-back migration included.
\<close>

theorem parity_verified_without_data:
  "py_badge (DataParityPanel loc (engine_record i pid st terminal tbl p)) = ''VERIFIED'' \<and>
   map (\<lambda>(n, r, v). v) (py_checks (DataParityPanel loc (engine_record i pid st terminal tbl p)))
     = replicate 5 ''PASS'' \<and>
   {(''Type Conversion'', ''Invalid conversions detected'', ''PASS''),
    (''FK Integrity'', ''FK violations detected'', ''PASS'')}
     \<subseteq> set (py_checks (DataParityPanel loc (engine_record i pid st terminal tbl p)))"
  by (simp add: DataParityPanel_def allPassed_def verificationChecks_def engine_record_def
      bare_record_def num_or_def same_number_def valid_or_true_def numeral_eq_Suc)

text \<open>
  The total throttle time is not a sum. Both panels that show it append the durations to the
  text 0s, one after the other.
\<close>

theorem throttle_total_concatenates:
  "th_total (throttle_list es) = ''Total Throttle Time: 0s'' @ concat (map te_duration es) \<and>
   (hv_throttles (ExecutiveHealthPanel loc r) = None \<or>
    hv_throttles (ExecutiveHealthPanel loc r) = Some (throttle_list (getThrottleEvents r))) \<and>
   da_throttles (DisasterAvertedChart w h (r\<lparr> mr_throttle_events_list := Some (e # l) \<rparr>)) =
     Some (throttle_list (e # l))"
  by (auto simp: throttle_list_def total_throttle_concat ExecutiveHealthPanel_def
      DisasterAvertedChart_def Let_def)

text \<open>
  The cost row of the exported report has too many columns. The header has three; the manual cost
  holds two commas that the export does not quote, so a reader of the file gets its three pieces as
  columns of their own before the engine's cost.
\<close>

theorem roi_report_columns:
  "roi_rows loc r ! 0 = [''Metric'', ''Manual Process'', ''MSE Engine''] \<and>
   take 4 (split_on CHR '','' (join '','' (roi_rows loc r ! 7)))
     = [''Cost (@ $100/hr)'', ''$4'', ''800-$8'', ''000'']"
proof -
  define v w x y where "v = ''Cost (@ $100/hr)''" and "w = ''$4''" and "x = ''800-$8''" and "y = ''000''"
  have "roi_rows loc r ! 7 = [''Cost (@ $100/hr)'', ''$4,800-$8,000'', sd_cost (mse_side r)]"
    by (simp add: roi_rows_def Let_def manual_side_def)
  then have eq: "join '','' (roi_rows loc r ! 7) =
      v @ CHR '','' # w @ CHR '','' # x @ CHR '','' # y @ CHR '','' # sd_cost (mse_side r)"
    by (simp add: v_def w_def x_def y_def)
  have "CHR '','' \<notin> set v" "CHR '','' \<notin> set w" "CHR '','' \<notin> set x" "CHR '','' \<notin> set y"
    by (simp_all add: v_def w_def x_def y_def)
  then have "take 4 (split_on CHR '','' (join '','' (roi_rows loc r ! 7))) = [v, w, x, y]"
    unfolding eq by (rule split_on_four)
  then have "take 4 (split_on CHR '','' (join '','' (roi_rows loc r ! 7)))
      = [''Cost (@ $100/hr)'', ''$4'', ''800-$8'', ''000'']"
    by (simp only: v_def w_def x_def y_def)
  moreover have "roi_rows loc r ! 0 = [''Metric'', ''Manual Process'', ''MSE Engine'']"
    by (simp add: roi_rows_def Let_def)
  ultimately show ?thesis by blast
qed

text \<open>
  The chart's throttle markers lie inside its plot area: for a canvas at least 70 wide, every
  marker's centre is between the left padding of 50 and the right padding of 20, rounding included.
\<close>

theorem chart_markers_inside:
  assumes "70 \<le> w" and "w \<le> 2 ^ 53" and "length es < 2 ^ 53"
  shows "length (ch_markers (drawChart (Fin (of_nat w)) height es)) = length es \<and>
    (\<forall>m \<in> set (ch_markers (drawChart (Fin (of_nat w)) height es)).
       \<exists>x. fst m = Fin x \<and> 50 \<le> x \<and> x \<le> of_nat (w - 20))"
  using marker_between [OF assms(1,2) _ assms(3)] by (auto simp: drawChart_def Let_def)

theorem chart_markers_inside_witness:
  "\<exists>x. fst (hd (ch_markers (drawChart (Fin (of_nat 600)) (Fin 300)
      [\<lparr> te_timestamp = ''12:05'', te_reason = ''cpu'', te_duration = ''2m'', te_metric = ''cpu'',
         te_threshold = ''80'', te_current = ''91'' \<rparr>]))) = Fin x \<and> 50 \<le> x \<and> x \<le> of_nat 580"
  using chart_markers_inside [of 600 "[\<lparr> te_timestamp = ''12:05'', te_reason = ''cpu'', te_duration = ''2m'',
      te_metric = ''cpu'', te_threshold = ''80'', te_current = ''91'' \<rparr>]" "Fin 300"]
  by (simp add: drawChart_def Let_def)

end
