(* ===== verification/Graph.thy ===== *)
theory Graph
  imports Types
begin

text \<open>
  \<^verbatim>\<open>frontend/src/components/StateMachineGraph.tsx\<close>: the drawing of the state machine, as the list of
  its nodes, links and frames with the attributes that depend on the current state. All
  coordinates of the source are whole numbers. Filters, markers, animations and fixed font
  attributes are not modelled.
\<close>

section \<open>Layout\<close>

definition nodeW :: int where "nodeW = 100"

definition nodeH :: int where "nodeH = 40"

definition node_gap :: int where "node_gap = 10"

definition svg_height :: int where "svg_height = 160"

record node =
  nd_state :: mig_state
  nd_label :: string
  nd_x :: int
  nd_y :: int

definition nodes :: "node list" where
  "nodes = map (\<lambda>(i, s). \<lparr> nd_state = s, nd_label = STATE_LABELS s,
      nd_x = 30 + int i * (nodeW + node_gap), nd_y = svg_height div 2 - nodeH div 2 \<rparr>)
    (enumerated STATE_FLOW)"

definition links :: "(mig_state \<times> mig_state) list" where
  "links = map (\<lambda>i. (nd_state (nodes ! i), nd_state (nodes ! (i + 1)))) [0..<length nodes - 1]"

text \<open>\<^verbatim>\<open>STATE_FLOW.indexOf\<close>, -1 for a state off the flow.\<close>

definition flow_idx :: "mig_state \<Rightarrow> int" where
  "flow_idx s = (case flow_index s of Some i \<Rightarrow> int i | None \<Rightarrow> - 1)"

definition graph_terminal :: "mig_state \<Rightarrow> bool" where
  "graph_terminal s \<longleftrightarrow> s = Done \<or> s = RolledBack"

section \<open>Links\<close>

record link_view =
  lv_x1 :: int
  lv_y1 :: int
  lv_x2 :: int
  lv_y2 :: int
  lv_active :: bool
  lv_stroke :: string
  lv_stroke_width :: nat
  lv_marker :: string

definition node_of :: "mig_state \<Rightarrow> node option" where
  "node_of s = map_option (\<lambda>i. nodes ! i) (find_index (\<lambda>n. nd_state n = s) nodes)"

definition link_of :: "mig_state \<Rightarrow> mig_state \<times> mig_state \<Rightarrow> link_view option" where
  "link_of cur st =
     (case (node_of (fst st), node_of (snd st)) of
        (Some src, Some tgt) \<Rightarrow>
          (let isActive = flow_idx (nd_state src) < flow_idx cur in
           Some \<lparr> lv_x1 = nd_x src + nodeW, lv_y1 = nd_y src + nodeH div 2,
             lv_x2 = nd_x tgt, lv_y2 = nd_y tgt + nodeH div 2,
             lv_active = isActive,
             lv_stroke = (if isActive then STATE_COLORS (nd_state src) else ''#2a3050''),
             lv_stroke_width = (if isActive then 2 else 1),
             lv_marker = (if isActive then ''url(#sm-arrow-active)'' else ''url(#sm-arrow)'') \<rparr>)
      | _ \<Rightarrow> None)"

definition link_views :: "mig_state \<Rightarrow> link_view list" where
  "link_views cur = List.map_filter (link_of cur) links"

section \<open>Nodes\<close>

record node_view =
  nv_x :: int
  nv_y :: int
  nv_fill :: string
  nv_stroke :: string
  nv_stroke_width :: nat
  nv_filter :: string
  nv_text_fill :: string
  nv_weight :: string
  nv_label :: string

definition node_view_of :: "mig_state \<Rightarrow> node \<Rightarrow> node_view" where
  "node_view_of cur d =
     (let idx = flow_idx (nd_state d); currentIdx = flow_idx cur;
          isTerminal = graph_terminal cur; isSuccess = (cur = Done); c = STATE_COLORS (nd_state d)
      in \<lparr> nv_x = nd_x d, nv_y = nd_y d,
           nv_fill = (if idx < currentIdx then c @ ''30''
                      else if idx = currentIdx then c @ ''20'' else ''rgba(15, 20, 40, 0.8)''),
           nv_stroke = (if nd_state d = cur \<and> \<not> isTerminal then c
                        else if idx < currentIdx then c @ ''60''
                        else if idx = currentIdx \<and> isTerminal then c
                        else ''rgba(255, 255, 255, 0.08)''),
           nv_stroke_width = (if nd_state d = cur then 2 else 1),
           nv_filter = (if nd_state d = cur \<and> isSuccess then ''url(#sm-glow-strong)''
                        else if nd_state d = cur \<and> \<not> isTerminal then ''url(#sm-glow)''
                        else ''none''),
           nv_text_fill = (if idx \<le> currentIdx then ''#f0f2f8'' else ''#5a6478''),
           nv_weight = (if nd_state d = cur then ''700'' else ''500''),
           nv_label = nd_label d \<rparr>)"

section \<open>Frames around the current state\<close>

record frame =
  fr_x :: int
  fr_y :: int
  fr_w :: int
  fr_h :: int
  fr_stroke :: string
  fr_dash :: string

definition frame_around :: "node \<Rightarrow> int \<Rightarrow> string \<Rightarrow> string \<Rightarrow> frame" where
  "frame_around n margin stroke dash =
     \<lparr> fr_x = nd_x n - margin, fr_y = nd_y n - margin, fr_w = nodeW + 2 * margin,
       fr_h = nodeH + 2 * margin, fr_stroke = stroke, fr_dash = dash \<rparr>"

definition current_ring :: "mig_state \<Rightarrow> frame list" where
  "current_ring cur =
     (if 0 \<le> flow_idx cur \<and> \<not> graph_terminal cur
      then let n = nodes ! nat (flow_idx cur) in
        [frame_around n 5 (STATE_COLORS cur) ''6,4'', frame_around n 8 (STATE_COLORS cur) ''none'']
      else [])"

definition terminal_ring :: "mig_state \<Rightarrow> frame list" where
  "terminal_ring cur =
     (if graph_terminal cur \<and> 0 \<le> flow_idx cur
      then let n = nodes ! nat (flow_idx cur) in
        [frame_around n 6 (STATE_COLORS cur) (if cur = Done then ''none'' else ''4,3'')]
      else [])"

record graph =
  gr_links :: "link_view list"
  gr_nodes :: "node_view list"
  gr_frames :: "frame list"
  gr_active_arrow :: string
  gr_label :: string
  gr_title :: string

definition StateMachineGraph :: "mig_state \<Rightarrow> graph" where
  "StateMachineGraph cur =
     \<lparr> gr_links = link_views cur, gr_nodes = map (node_view_of cur) nodes,
       gr_frames = current_ring cur @ terminal_ring cur,
       gr_active_arrow = STATE_COLORS cur,
       gr_label = ''State machine showing migration in state: '' @ STATE_LABELS cur @ ''. Flow: '' @
         join '' -> '' (map STATE_LABELS STATE_FLOW),
       gr_title = ''Migration State Machine -- Current: '' @ STATE_LABELS cur \<rparr>"

section \<open>Facts\<close>

lemma nodes_explicit:
  "map (\<lambda>n. (nd_state n, nd_x n, nd_y n)) nodes =
     [(Pending, 30, 60), (Expanding, 140, 60), (Backfilling, 250, 60), (Verifying, 360, 60),
      (Canary, 470, 60), (Cutover, 580, 60), (Contracting, 690, 60), (Done, 800, 60)]"
  by code_simp

lemma length_nodes [simp]: "length nodes = 8"
  by (simp add: nodes_def)

lemma node_at: "i < 8 \<Longrightarrow> nd_state (nodes ! i) = STATE_FLOW ! i \<and>
    nd_x (nodes ! i) = 30 + int i * 110 \<and> nd_y (nodes ! i) = 60"
  by (simp add: nodes_def nodeW_def node_gap_def svg_height_def nodeH_def)

lemma flow_idx_at: "i < 8 \<Longrightarrow> flow_idx (STATE_FLOW ! i) = int i"
  by (auto simp: less_Suc_eq numeral_eq_Suc flow_idx_def STATE_FLOW_def)

lemma link_views_explicit:
  "map (\<lambda>l. (lv_x1 l, lv_y1 l, lv_x2 l, lv_y2 l, lv_active l)) (link_views cur) =
     map (\<lambda>i. (130 + int i * 110, 80, 140 + int i * 110, 80, int i < flow_idx cur)) [0..<7]"
  by (induct cur) code_simp+

section \<open>Properties\<close>

text \<open>
  The drawing fits. Nodes lie side by side in the order of the flow with a gap of 10 that the link
  between them bridges, and with its frame, drawn ten below, every node stays inside the view box of
  920 by 160.
\<close>

theorem graph_layout:
  "map (\<lambda>v. nv_x v) (gr_nodes (StateMachineGraph cur)) = map (\<lambda>i. 30 + int i * (nodeW + 10)) [0..<8] \<and>
   map (\<lambda>l. (lv_x1 l, lv_x2 l)) (gr_links (StateMachineGraph cur)) =
     map (\<lambda>i. (30 + int i * (nodeW + 10) + nodeW, 30 + int (i + 1) * (nodeW + 10))) [0..<7] \<and>
   list_all (\<lambda>v. 0 \<le> nv_x v \<and> nv_x v + nodeW \<le> 920 \<and>
      0 \<le> nv_y v + 10 \<and> nv_y v + nodeH + 10 \<le> svg_height) (gr_nodes (StateMachineGraph cur)) \<and>
   list_all (\<lambda>f. 0 \<le> fr_x f \<and> fr_x f + fr_w f \<le> 920 \<and>
      0 \<le> fr_y f + 10 \<and> fr_y f + fr_h f + 10 \<le> svg_height) (gr_frames (StateMachineGraph cur))"
  by (induct cur) code_simp+

text \<open>
  The drawing singles out the current state. On the flow, exactly one node is drawn with the wide
  stroke and bold label, the one of the current state; the links before it are active and no others;
  and it is framed. Off the flow (rolling or rolled back) no node is singled out, no link is active
  and nothing is framed: the dashed frame meant for a rolled-back migration is never drawn.
\<close>

theorem graph_highlight:
  "map (\<lambda>v. nv_stroke_width v = 2 \<and> nv_weight v = ''700'') (gr_nodes (StateMachineGraph cur)) =
     map (\<lambda>i. Some i = flow_index cur) [0..<8] \<and>
   map lv_active (gr_links (StateMachineGraph cur)) = map (\<lambda>i. int i < flow_idx cur) [0..<7] \<and>
   length (gr_frames (StateMachineGraph cur)) =
     (case flow_index cur of None \<Rightarrow> 0 | Some i \<Rightarrow> if cur = Done then 1 else 2) \<and>
   list_all (\<lambda>f. fr_dash f \<noteq> ''4,3'') (gr_frames (StateMachineGraph cur))"
  by (induct cur) code_simp+

end
