(* ===== verification/Metrics.thy ===== *)
theory Metrics
  imports Prometheus Polling JsText
begin

text \<open>
  \<^verbatim>\<open>frontend/src/components/MetricsPanel.tsx\<close>: the five displays of the real-time metrics with their
  coordinates (numbers of the source), and the panel that fetches the metrics and polls while the
  migration runs. Fixed attributes, gradients and transitions are not modelled. The locale's
  number formatting is the parameter \<open>loc\<close>.
\<close>

section \<open>Parity gauge\<close>

record parity_gauge =
  pg_label :: string
  pg_dash :: number
  pg_offset :: number
  pg_color :: string
  pg_text :: string

definition ParityGauge :: "number \<Rightarrow> string \<Rightarrow> parity_gauge" where
  "ParityGauge value label =
     (let r = Fin 38;
          circ = js_mul (js_mul (Fin 2) JS_PI) r;
          pct = js_min (js_max value (Fin 0)) (Fin 1)
      in \<lparr> pg_label = label, pg_dash = circ, pg_offset = js_sub circ (js_mul pct circ),
           pg_color = (if js_le (fl (999 / 1000)) pct then ''var(--success)''
                       else if js_le (fl (99 / 100)) pct then ''var(--warning)'' else ''var(--danger)''),
           pg_text = to_fixed 1 (js_mul pct (Fin 100)) @ ''%'' \<rparr>)"

section \<open>Backfill bar\<close>

record backfill_chart =
  bc_y :: number
  bc_track :: number
  bc_fill :: number
  bc_glow :: "(number \<times> number) option"
  bc_rows :: string
  bc_pct :: string

definition BackfillChart :: "(number \<Rightarrow> string) \<Rightarrow> number \<Rightarrow> number \<Rightarrow> backfill_chart" where
  "BackfillChart loc done total' =
     (let pct = (if js_lt (Fin 0) total' then js_percent done total' else Fin 0);
          w = Fin 280; h = Fin 100; barH = Fin 8;
          y = js_sub (js_sub h barH) (Fin 20);
          width = js_max (Fin 0) (js_div (js_mul (js_sub w (Fin 20)) pct) (Fin 100))
      in \<lparr> bc_y = y, bc_track = js_sub w (Fin 20), bc_fill = width,
           bc_glow = (if js_lt (Fin 0) pct then Some (js_sub y (Fin 2), width) else None),
           bc_rows = loc done @ '' / '' @ loc total' @ '' rows'',
           bc_pct = to_fixed 1 pct @ ''%'' \<rparr>)"

section \<open>Canary steps\<close>

definition canary_steps :: "nat list" where
  "canary_steps = [0, 1, 5, 25, 100]"

definition canary_x :: "nat \<Rightarrow> number" where
  "canary_x i = js_add (Fin 30) (js_mul (js_div (num_of_nat i) (num_of_nat (length canary_steps - 1))) (Fin 160))"

definition canary_y :: "nat \<Rightarrow> number" where
  "canary_y v = js_sub (js_add (Fin 10) (Fin 66)) (js_mul (js_div (num_of_nat v) (Fin 100)) (Fin 66))"

record canary_chart =
  cc_grid :: "number list"
  cc_points :: "(number \<times> number) list"
  cc_active :: "(number \<times> number) list"
  cc_dot :: "(number \<times> number) option"
  cc_labels :: "(string \<times> number) list"

definition active_idx :: "number \<Rightarrow> nat option" where
  "active_idx pct = find_index (\<lambda>s. js_le pct (num_of_nat s)) canary_steps"

definition current_step :: "number \<Rightarrow> nat" where
  "current_step pct = (case active_idx pct of Some i \<Rightarrow> canary_steps ! i | None \<Rightarrow> 100)"

definition CanaryChart :: "number \<Rightarrow> canary_chart" where
  "CanaryChart pct =
     (let pt = (\<lambda>(i, s). (canary_x i, canary_y s))
      in \<lparr> cc_grid = map canary_y [0, 25, 50, 75, 100],
           cc_points = map pt (enumerated canary_steps),
           cc_active = map pt (enumerated
             (case active_idx pct of Some i \<Rightarrow> take (i + 1) canary_steps | None \<Rightarrow> [])),
           cc_dot = map_option (\<lambda>i. (canary_x i, canary_y (current_step pct))) (active_idx pct),
           cc_labels = map (\<lambda>(i, s). (show_nat s @ ''%'', canary_x i)) (enumerated canary_steps) \<rparr>)"

section \<open>Rollback counter\<close>

record rollback_card =
  rc_color :: string
  rc_shadow :: string
  rc_count :: string
  rc_caption :: string

definition RollbackCard :: "number \<Rightarrow> rollback_card" where
  "RollbackCard cnt =
     (let some = js_lt (Fin 0) cnt
      in \<lparr> rc_color = (if some then ''var(--danger)'' else ''var(--success)''),
           rc_shadow = (if some then ''0 0 20px rgba(248,113,113,0.4)'' else ''none''),
           rc_count = num_text cnt,
           rc_caption = (if some then ''SLO breach triggered'' else ''No breaches'') \<rparr>)"

section \<open>Transition bars\<close>

text \<open>
  A count in arithmetic: one that became a text (see \<open>getTransitions\<close>) is not a number there. The
  colour of a state that has the name of an inherited member is no text, and is left out.
\<close>

fun count_num :: "count \<Rightarrow> number" where
  "count_num (Count n) = n"
| "count_num (Text f ns) = NaN"

definition bar_colors :: "(string \<times> string) list" where
  "bar_colors =
     [(''Pending'', ''#a1a1aa''), (''Expanding'', ''#818cf8''), (''Backfilling'', ''#fbbf24''),
      (''Verifying'', ''#34d399''), (''Canary'', ''#34d399''), (''Cutover'', ''#818cf8''),
      (''Contracting'', ''#34d399''), (''Done'', ''#34d399''), (''RollingBack'', ''#f87171''),
      (''RolledBack'', ''#f87171'')]"

definition bar_color :: "string \<Rightarrow> string option" where
  "bar_color st =
     (case map_of bar_colors st of
        Some c \<Rightarrow> Some c
      | None \<Rightarrow> if st \<in> set inherited_names then None else Some ''#818cf8'')"

record bar =
  br_x :: number
  br_y :: number
  br_width :: number
  br_height :: number
  br_color :: "string option"
  br_label :: string
  br_label_x :: number

definition bar_width :: "nat \<Rightarrow> number" where
  "bar_width n = js_min (Fin 24) (js_sub (js_div (Fin 180) (num_of_nat n)) (Fin 4))"

definition bar_of :: "nat \<Rightarrow> number \<Rightarrow> nat \<times> string \<times> count \<Rightarrow> bar" where
  "bar_of n mx t =
     (let (i, st, c) = t; barW = bar_width n;
          x = js_add (Fin 10) (js_mul (num_of_nat i) (js_add barW (Fin 4)));
          barH = js_mul (js_div (count_num c) mx) (Fin 50)
      in \<lparr> br_x = x, br_y = js_add (js_sub (Fin 50) barH) (Fin 8), br_width = barW,
           br_height = js_max (Fin 2) barH, br_color = bar_color st, br_label = take 4 st,
           br_label_x = js_add x (js_div barW (Fin 2)) \<rparr>)"

definition TransitionChart :: "(string \<times> count) list \<Rightarrow> bar list option" where
  "TransitionChart transitions =
     (if transitions = [] then None
      else let mx = js_max_list (map (\<lambda>t. count_num (snd t)) transitions @ [Fin 1])
           in Some (map (bar_of (length transitions) mx) (enumerated transitions)))"

section \<open>The panel\<close>

type_synonym metrics_props = "string \<times> string \<times> bool"

record metrics_panel =
  mt_props :: metrics_props
  mt_metrics :: "migration_metrics option"
  mt_error :: string
  mt_poll :: "metrics_props mount"
  mt_calls :: "(string \<times> string) list"
  mt_left :: bool

definition fresh_metrics :: "metrics_props \<Rightarrow> timers \<Rightarrow> metrics_panel" where
  "fresh_metrics p h =
     \<lparr> mt_props = p, mt_metrics = None, mt_error = [], mt_poll = unmounted h, mt_calls = [],
       mt_left = False \<rparr>"

text \<open>A call in flight remembers the two ids its closure captured.\<close>

definition fetchMetrics :: "metrics_panel \<Rightarrow> metrics_panel" where
  "fetchMetrics s = (case mt_props s of (i, p, live) \<Rightarrow> s\<lparr> mt_calls := mt_calls s @ [(i, p)] \<rparr>)"

definition metrics_fetched :: "string \<times> string \<Rightarrow> metric_map result \<Rightarrow> metrics_panel \<Rightarrow> metrics_panel" where
  "metrics_fetched ids r s =
     (case r of
        Inr raw \<Rightarrow> s\<lparr> mt_metrics := Some (extractMigrationMetrics raw (fst ids) (snd ids)), mt_error := [] \<rparr>
      | Inl e \<Rightarrow> s\<lparr> mt_error := e \<rparr>)"

definition metrics_live :: "metrics_props \<Rightarrow> bool" where
  "metrics_live p = snd (snd p)"

definition metrics_effect :: "metrics_props \<Rightarrow> nat option \<times> timers \<Rightarrow> nat option \<times> timers" where
  "metrics_effect p = poll_effect (metrics_live p)"

text \<open>
  The two effects after a render: the first fetches when one of the ids changed, the second restarts
  the polling when an id or \<^verbatim>\<open>isLive\<close> changed.
\<close>

definition same_ids :: "metrics_props \<Rightarrow> metrics_props \<Rightarrow> bool" where
  "same_ids p q \<longleftrightarrow> fst p = fst q \<and> fst (snd p) = fst (snd q)"

definition metrics_render :: "metrics_panel \<Rightarrow> metrics_panel" where
  "metrics_render s =
     (let fresh = (case mt_deps (mt_poll s) of None \<Rightarrow> True | Some q \<Rightarrow> \<not> same_ids (mt_props s) q);
          s' = (if fresh then fetchMetrics s else s)
      in s'\<lparr> mt_poll := life_step metrics_effect poll_cleanup (mt_poll s') (Render (mt_props s')) \<rparr>)"

datatype metrics_event =
    M_mount
  | M_props metrics_props
  | M_tick
  | M_fetched "string \<times> string" "metric_map result"
  | M_leave

definition mt_mounted :: "metrics_panel \<Rightarrow> bool" where
  "mt_mounted s \<longleftrightarrow> mt_deps (mt_poll s) \<noteq> None"

fun mt_enabled :: "metrics_panel \<Rightarrow> metrics_event \<Rightarrow> bool" where
  "mt_enabled s M_mount \<longleftrightarrow> \<not> mt_mounted s \<and> \<not> mt_left s"
| "mt_enabled s (M_props p) \<longleftrightarrow> mt_mounted s"
| "mt_enabled s M_tick \<longleftrightarrow> own_live (mt_poll s) \<noteq> []"
| "mt_enabled s (M_fetched ids r) \<longleftrightarrow> ids \<in> set (mt_calls s)"
| "mt_enabled s M_leave \<longleftrightarrow> mt_mounted s"

fun mt_handle :: "metrics_panel \<Rightarrow> metrics_event \<Rightarrow> metrics_panel" where
  "mt_handle s M_mount = metrics_render s"
| "mt_handle s (M_props p) = metrics_render (s\<lparr> mt_props := p \<rparr>)"
| "mt_handle s M_tick = fetchMetrics s"
| "mt_handle s (M_fetched ids r) = metrics_fetched ids r (s\<lparr> mt_calls := remove1 ids (mt_calls s) \<rparr>)"
| "mt_handle s M_leave =
     s\<lparr> mt_poll := life_step metrics_effect poll_cleanup (mt_poll s) Unmount, mt_left := True \<rparr>"

definition metrics_step :: "metrics_panel \<Rightarrow> metrics_event \<Rightarrow> metrics_panel" where
  "metrics_step s ev = (if mt_enabled s ev then mt_handle s ev else s)"

record metrics_cards =
  mc_backfill :: backfill_chart
  mc_canary :: canary_chart
  mc_parity :: parity_gauge
  mc_rollbacks :: rollback_card
  mc_transitions :: "bar list option"

datatype metrics_view = No_panel | No_data | Charts metrics_cards

definition has_data :: "migration_metrics \<Rightarrow> bool" where
  "has_data m \<longleftrightarrow>
     js_lt (Fin 0) (mm_backfillTotal m) \<or> js_lt (Fin 0) (mm_parity m) \<or> js_lt (Fin 0) (mm_canaryPct m) \<or>
     js_lt (Fin 0) (mm_rollbacks m) \<or> mm_transitions m \<noteq> []"

definition MetricsPanel :: "(number \<Rightarrow> string) \<Rightarrow> metrics_panel \<Rightarrow> metrics_view" where
  "MetricsPanel loc s =
     (if mt_error s \<noteq> [] then No_panel
      else case mt_metrics s of
          None \<Rightarrow> No_data
        | Some m \<Rightarrow> if \<not> has_data m then No_data
            else Charts \<lparr> mc_backfill = BackfillChart loc (mm_backfillDone m) (mm_backfillTotal m),
              mc_canary = CanaryChart (mm_canaryPct m),
              mc_parity = ParityGauge (mm_parity m) ''Shadow-read Parity'',
              mc_rollbacks = RollbackCard (mm_rollbacks m),
              mc_transitions = (if mm_transitions m \<noteq> [] then TransitionChart (mm_transitions m) else None) \<rparr>)"

section \<open>Polling facts\<close>

interpretation metrics_poll: interval_effect metrics_effect poll_cleanup metrics_live POLL_INTERVAL_MS
  by unfold_locales
    (use poll_effect_laws [where act = metrics_live] poll_cleanup_laws
      in \<open>unfold metrics_effect_def, blast\<close>)+

definition metrics_ok :: "metrics_panel \<Rightarrow> bool" where
  "metrics_ok s \<longleftrightarrow>
     metrics_poll.good (mt_poll s) \<and> (mt_deps (mt_poll s) = None \<or> mt_deps (mt_poll s) = Some (mt_props s))"

lemma mt_deps_render [simp]: "mt_deps (life_step eff cln p (Render d)) = Some d"
  by (auto simp: run_effect_def case_prod_beta Let_def split: option.split)

lemma mt_deps_unmount [simp]: "mt_deps (life_step eff cln p Unmount) = None"
  by (simp split: option.split)

lemma fetchMetrics_fields [simp]:
  "mt_poll (fetchMetrics s) = mt_poll s" "mt_props (fetchMetrics s) = mt_props s"
  by (simp_all add: fetchMetrics_def split: prod.split)

lemma metrics_fetched_fields [simp]:
  "mt_poll (metrics_fetched ids r s) = mt_poll s" "mt_props (metrics_fetched ids r s) = mt_props s"
  by (simp_all add: metrics_fetched_def split: sum.split)

lemma metrics_ok_render: "metrics_poll.good (mt_poll s) \<Longrightarrow> metrics_ok (metrics_render s)"
  by (simp add: metrics_ok_def metrics_render_def Let_def metrics_poll.good_step del: life_step.simps)

lemma metrics_ok_step:
  assumes "metrics_ok s"
  shows "metrics_ok (metrics_step s ev)"
proof (cases "mt_enabled s ev")
  case True
  have g: "metrics_poll.good (mt_poll s)" using assms by (simp add: metrics_ok_def)
  show ?thesis
  proof (cases ev)
    case M_mount
    then show ?thesis using True g by (simp add: metrics_step_def metrics_ok_render)
  next
    case (M_props p)
    then show ?thesis
      using True metrics_ok_render [of "s\<lparr> mt_props := p \<rparr>"] g by (simp add: metrics_step_def)
  next
    case M_leave
    then show ?thesis
      using True g by (simp add: metrics_step_def metrics_ok_def metrics_poll.good_step del: life_step.simps)
  qed (use assms in \<open>auto simp: metrics_step_def metrics_ok_def\<close>)
qed (simp add: metrics_step_def assms)

lemma metrics_ok_run:
  assumes "\<forall>e \<in> set (tm_live h). fst e < tm_next h"
  shows "metrics_ok (foldl metrics_step (fresh_metrics p h) evs)"
proof (induction evs rule: rev_induct)
  case Nil
  show ?case
    using metrics_poll.good_start [OF assms] by (simp add: metrics_ok_def fresh_metrics_def unmounted_def)
qed (simp add: metrics_ok_step)

section \<open>Facts about the displays\<close>

lemma find_index_least:
  "sorted xs \<Longrightarrow> find_index P xs = Some i \<Longrightarrow> x \<in> set xs \<Longrightarrow> P x \<Longrightarrow> (xs :: nat list) ! i \<le> x"
  unfolding find_index_Some_iff in_set_conv_nth by (metis linorder_not_le sorted_nth_mono)

lemma step_number: "s \<in> set canary_steps \<Longrightarrow> num_of_nat s = Fin (of_nat s)"
  by (auto simp: canary_steps_def)

lemma sorted_steps: "sorted canary_steps"
  by (simp add: canary_steps_def)

lemma active_idx_some:
  assumes "q \<le> 100"
  obtains i where "active_idx (Fin q) = Some i" "i < length canary_steps" "q \<le> of_nat (canary_steps ! i)"
proof (cases "active_idx (Fin q)")
  case None
  then have "\<not> js_le (Fin q) (num_of_nat 100)"
    unfolding active_idx_def find_index_None_iff by (auto simp: canary_steps_def)
  with assms show thesis by simp
next
  case (Some i)
  then have "i < length canary_steps" "js_le (Fin q) (num_of_nat (canary_steps ! i))"
    unfolding active_idx_def find_index_Some_iff by auto
  then show thesis using that Some step_number [of "canary_steps ! i"] by simp
qed

lemma active_idx_last: "25 < q \<Longrightarrow> q \<le> 100 \<Longrightarrow> active_idx (Fin q) = Some 4"
  by (simp add: active_idx_def canary_steps_def)

lemma bar_height_range:
  assumes "0 \<le> c" and "c \<le> m" and "1 \<le> m"
  shows "\<exists>h. js_mul (js_div (Fin c) (Fin m)) (Fin 50) = Fin h \<and> 0 \<le> h \<and> h \<le> 50"
proof -
  obtain y where y: "fl (c / m) = Fin y" "0 \<le> y" "y \<le> 1"
    using b64.ratio_unit [of c m] assms by auto
  then show ?thesis using b64.bounded [of "y * 50" 50] assms(3) by simp
qed

lemma bar_height_full: "1 \<le> m \<Longrightarrow> js_mul (js_div (Fin m) (Fin m)) (Fin 50) = Fin 50"
  using fl_of_nat [of 50] by simp

text \<open>The height a count has is its share of the largest one, up to rounding.\<close>

lemma bar_height_share:
  assumes "0 \<le> c" and "c \<le> m" and "1 \<le> m"
  obtains h where "js_mul (js_div (Fin c) (Fin m)) (Fin 50) = Fin h" "0 \<le> h" "h \<le> 50"
    "\<bar>h - 50 * c / m\<bar> \<le> 51 / 2 ^ 47"
proof -
  have r: "0 \<le> c / m" "c / m \<le> 1" using assms by simp_all
  obtain a where a: "fl (c / m) = Fin a" "0 \<le> a" "a \<le> 1" using b64.ratio_unit [of c m] assms by auto
  have ea: "\<bar>a - c / m\<bar> \<le> 1 / 2 ^ 47" using fl_error_64 [of "c / m"] r a(1) by force
  obtain h where h: "fl (a * 50) = Fin h" "\<bar>h - a * 50\<bar> \<le> 1 / 2 ^ 47" using fl_error_64 [of "a * 50"] a by auto
  have b: "0 \<le> h" "h \<le> 50" using b64.bounded [of "a * 50" 50] a h(1) by auto
  have "50 * c / m = 50 * (c / m)" by simp
  then have "\<bar>h - 50 * c / m\<bar> \<le> 51 / 2 ^ 47" using ea h(2) by linarith
  then show thesis using that [of h] a(1) h(1) b assms(3) by simp
qed

lemma foldl_max_nat: "foldl max (of_nat a) (map of_nat ns) = (of_nat (Max (insert a (set ns))) :: rat)"
proof -
  have "foldl max (of_nat a) (map of_nat ns) = (of_nat (foldl max a ns) :: rat)"
    by (induction ns arbitrary: a) (simp_all flip: of_nat_max)
  moreover have "foldl max a ns = Max (insert a (set ns))"
  proof (induction ns arbitrary: a)
    case (Cons n ns)
    have "Max (insert (max a n) (set ns)) = Max (insert a (insert n (set ns)))"
      by (cases "set ns = {}") (simp_all add: max.assoc)
    then show ?case using Cons.IH [of "max a n"] by simp
  qed simp
  ultimately show ?thesis by simp
qed

text \<open>The panel has one interval of two seconds while it is shown for a running migration, else none.\<close>

lemma metrics_periods:
  assumes ok: "metrics_ok s"
  shows "map snd (own_live (mt_poll s)) = (if mt_mounted s \<and> metrics_live (mt_props s) then [2000] else [])"
proof (cases "mt_mounted s")
  case True
  then have "mt_deps (mt_poll s) = Some (mt_props s)"
    using ok by (auto simp: metrics_ok_def mt_mounted_def)
  then show ?thesis
    using metrics_poll.interval_wanted [of "mt_poll s" "mt_props s"] ok True
    by (simp add: POLL_INTERVAL_MS_def metrics_ok_def)
next
  case False
  then have "mt_deps (mt_poll s) = None" unfolding mt_mounted_def by blast
  with False show ?thesis
    using metrics_poll.no_interval_unmounted [of "mt_poll s"] ok by (simp add: metrics_ok_def)
qed

lemma bar_in_box:
  assumes "0 \<le> q" and "q \<le> m" and "1 \<le> m"
  shows "\<exists>y h. br_y (bar_of n (Fin m) (i, l, Count (Fin q))) = Fin y \<and>
    br_height (bar_of n (Fin m) (i, l, Count (Fin q))) = Fin h \<and> 2 \<le> h \<and> h \<le> 50 \<and>
    \<bar>h - max 2 (50 * q / m)\<bar> \<le> 1 / 10 ^ 12 \<and> 8 \<le> y \<and> \<bar>y - (58 - 50 * q / m)\<bar> \<le> 1 / 10 ^ 12"
proof -
  obtain h where h: "js_mul (js_div (Fin q) (Fin m)) (Fin 50) = Fin h" "0 \<le> h" "h \<le> 50"
    "\<bar>h - 50 * q / m\<bar> \<le> 51 / 2 ^ 47"
    using bar_height_share assms by blast
  obtain u where u: "fl (50 - h) = Fin u" "\<bar>u - (50 - h)\<bar> \<le> 1 / 2 ^ 47" using fl_error_64 [of "50 - h"] h by auto
  have u': "0 \<le> u" "u \<le> 50" using b64.bounded [of "50 - h" 50] h u(1) by auto
  obtain y where y: "fl (u + 8) = Fin y" "\<bar>y - (u + 8)\<bar> \<le> 1 / 2 ^ 47" using fl_error_64 [of "u + 8"] u' by auto
  have y': "8 \<le> y" using b64.between [of 8 "u + 8" 58] u' y(1) by auto
  have hm: "\<bar>max 2 h - max 2 (50 * q / m)\<bar> \<le> 51 / 2 ^ 47" using h(4) by (auto simp: max_def)
  have e: "(53 :: rat) / 2 ^ 47 \<le> 1 / 10 ^ 12" "(51 :: rat) / 2 ^ 47 \<le> 1 / 10 ^ 12" by simp_all
  have "\<bar>y - (58 - 50 * q / m)\<bar> \<le> 53 / 2 ^ 47" using h(4) u(2) y(2) by linarith
  then have "\<bar>y - (58 - 50 * q / m)\<bar> \<le> 1 / 10 ^ 12" using e(1) by linarith
  moreover have "\<bar>max 2 h - max 2 (50 * q / m)\<bar> \<le> 1 / 10 ^ 12" using hm e(2) by linarith
  moreover have "br_y (bar_of n (Fin m) (i, l, Count (Fin q))) = Fin y"
    "br_height (bar_of n (Fin m) (i, l, Count (Fin q))) = Fin (max 2 h)"
    using h(1) u(1) y(1) by (simp_all add: bar_of_def Let_def)
  moreover have "2 \<le> max 2 h" "max 2 h \<le> 50" using h(3) by simp_all
  ultimately show ?thesis using y' by blast
qed

lemma bar_height_ends:
  "1 \<le> m \<Longrightarrow> br_height (bar_of n (Fin m) (i, l, Count (Fin m))) = Fin 50"
  "1 \<le> m \<Longrightarrow> br_height (bar_of n (Fin m) (i, l, Count (Fin 0))) = Fin 2"
  using bar_height_full [of m] by (simp_all add: bar_of_def Let_def)

section \<open>Properties\<close>

text \<open>
  The canary chart rounds the share of traffic up. It marks the least of the five drawn steps that
  is not below the share; above 25 per cent that is the last one, so a canary at 26 or 50 per cent is
  drawn exactly like one that takes all traffic.
\<close>

theorem canary_step_rounds_up:
  assumes "q \<le> 100"
  shows "current_step (Fin q) \<in> set canary_steps \<and> q \<le> of_nat (current_step (Fin q)) \<and>
    (\<forall>s \<in> set canary_steps. q \<le> of_nat s \<longrightarrow> current_step (Fin q) \<le> s) \<and>
    (25 < q \<longrightarrow> CanaryChart (Fin q) = CanaryChart (Fin 100))"
proof -
  obtain i where i: "active_idx (Fin q) = Some i" "i < length canary_steps" "q \<le> of_nat (canary_steps ! i)"
    using active_idx_some [OF assms] by blast
  have "current_step (Fin q) \<le> s" if "s \<in> set canary_steps" "q \<le> of_nat s" for s
  proof -
    have "js_le (Fin q) (num_of_nat s)" using that by (simp add: step_number)
    then show ?thesis
      using find_index_least [OF sorted_steps i(1) [unfolded active_idx_def] that(1)] i(1)
      by (simp add: current_step_def)
  qed
  moreover have "CanaryChart (Fin q) = CanaryChart (Fin 100)" if "25 < q"
    using active_idx_last [OF that assms] active_idx_last [of 100]
    by (simp add: CanaryChart_def current_step_def)
  ultimately show ?thesis using i by (simp add: current_step_def)
qed

theorem canary_step_rounds_up_witness: "CanaryChart (Fin 26) = CanaryChart (Fin 100)"
  using canary_step_rounds_up [of 26] by simp

text \<open>
  The backfill bar fits its track and is as wide as the track when all rows are done, rounding
  included.
\<close>

theorem backfill_bar_fits:
  assumes "0 \<le> d" and "d \<le> t" and "0 < t"
  shows "\<exists>w. bc_fill (BackfillChart loc (Fin d) (Fin t)) = Fin w \<and> 0 \<le> w \<and>
    bc_track (BackfillChart loc (Fin d) (Fin t)) = Fin 260 \<and> w \<le> 260 \<and> (d = t \<longrightarrow> w = 260)"
proof -
  have n: "fl 260 = Fin 260" "fl 26000 = Fin 26000"
    using fl_of_nat [of 260] fl_of_nat [of 26000] by simp_all
  obtain p where p: "js_percent (Fin d) (Fin t) = Fin p" "0 \<le> p" "p \<le> 100"
    using js_percent_range [OF assms] by blast
  obtain a where a: "fl (260 * p) = Fin a" "0 \<le> a" "a \<le> 26000"
    using b64.bounded [of "260 * p" 26000] p by auto
  obtain w where w: "fl (a / 100) = Fin w" "0 \<le> w" "w \<le> 260"
    using b64.bounded [of "a / 100" 260] a by auto
  have "w = 260" if "d = t"
  proof -
    have "p = 100" using p(1) js_percent_full [OF assms(3)] that by simp
    then have "a = 26000" using a(1) n by simp
    then show ?thesis using w(1) n by simp
  qed
  then show ?thesis
    using assms(3) p a w n by (simp add: BackfillChart_def Let_def)
qed

theorem backfill_bar_fits_witness:
  "bc_fill (BackfillChart num_text (Fin 300) (Fin 300)) = Fin 260"
  using backfill_bar_fits [of 300 300 num_text] by auto

text \<open>
  C39: the transition bars. For whole counts there is one bar for each state, in their order, with the
  state's colour and the first four letters of its name. Its height is its share of the largest count,
  times 50 and at least 2, up to \<open>10^-12\<close>, and its top is that share below the line 58. The bar of a largest
  positive count is exactly 50 high and the bar of a count of 0 exactly 2, so all bars are 2 high when
  all counts are 0.
\<close>

theorem transition_bars_scaled:
  assumes "ts \<noteq> []" and "mx = Max (insert 1 (snd ` set ts))"
  shows "\<exists>bs. TransitionChart (map (\<lambda>t. (fst t, Count (Fin (of_nat (snd t))))) ts) = Some bs \<and>
    length bs = length ts \<and>
    (\<forall>i < length ts. \<exists>h y.
       br_label (bs ! i) = take 4 (fst (ts ! i)) \<and> br_color (bs ! i) = bar_color (fst (ts ! i)) \<and>
       br_height (bs ! i) = Fin h \<and> 2 \<le> h \<and> h \<le> 50 \<and>
       \<bar>h - max 2 (50 * of_nat (snd (ts ! i)) / of_nat mx)\<bar> \<le> 1 / 10 ^ 12 \<and>
       br_y (bs ! i) = Fin y \<and> 8 \<le> y \<and> \<bar>y - (58 - 50 * of_nat (snd (ts ! i)) / of_nat mx)\<bar> \<le> 1 / 10 ^ 12 \<and>
       (0 < snd (ts ! i) \<and> (\<forall>t \<in> set ts. snd t \<le> snd (ts ! i)) \<longrightarrow> h = 50) \<and> (snd (ts ! i) = 0 \<longrightarrow> h = 2))"
proof -
  define tr where "tr = map (\<lambda>t. (fst t, Count (Fin (of_nat (snd t))))) ts"
  define m where "m = (of_nat mx :: rat)"
  have fin: "finite (insert 1 (snd ` set ts))" by simp
  have "1 \<le> mx" using Max_ge [OF fin, of 1] assms(2) by simp
  then have m1: "1 \<le> m" by (simp add: m_def)
  have "map (\<lambda>t. count_num (snd t)) tr = map Fin (map of_nat (map snd ts))" by (simp add: tr_def)
  then have mx: "js_max_list (map (\<lambda>t. count_num (snd t)) tr @ [Fin 1]) = Fin m"
    using foldl_max_nat [of 1 "map snd ts"] by (simp only: js_max_list_snoc m_def assms(2) of_nat_1 set_map)
  let ?bs = "map (bar_of (length ts) (Fin m)) (enumerated tr)"
  have eq: "TransitionChart tr = Some ?bs"
    using assms mx by (simp add: TransitionChart_def Let_def tr_def)
  have bar: "\<exists>h y.
       br_label (?bs ! i) = take 4 (fst (ts ! i)) \<and> br_color (?bs ! i) = bar_color (fst (ts ! i)) \<and>
       br_height (?bs ! i) = Fin h \<and> 2 \<le> h \<and> h \<le> 50 \<and> \<bar>h - max 2 (50 * of_nat (snd (ts ! i)) / m)\<bar> \<le> 1 / 10 ^ 12 \<and>
       br_y (?bs ! i) = Fin y \<and> 8 \<le> y \<and> \<bar>y - (58 - 50 * of_nat (snd (ts ! i)) / m)\<bar> \<le> 1 / 10 ^ 12 \<and>
       (0 < snd (ts ! i) \<and> (\<forall>t \<in> set ts. snd t \<le> snd (ts ! i)) \<longrightarrow> h = 50) \<and> (snd (ts ! i) = 0 \<longrightarrow> h = 2)"
    if i: "i < length ts" for i
  proof -
    obtain st n where t: "ts ! i = (st, n)" by fastforce
    have b: "?bs ! i = bar_of (length ts) (Fin m) (i, st, Count (Fin (of_nat n)))" using i t by (simp add: tr_def)
    have "n \<in> snd ` set ts" using nth_mem [OF i] t by force
    then have le: "n \<le> mx" using Max_ge [OF fin] assms(2) by simp
    then have "of_nat n \<le> m" by (simp add: m_def)
    then obtain y h where yh: "br_y (?bs ! i) = Fin y" "br_height (?bs ! i) = Fin h" "2 \<le> h" "h \<le> 50"
      "\<bar>h - max 2 (50 * of_nat n / m)\<bar> \<le> 1 / 10 ^ 12" "8 \<le> y" "\<bar>y - (58 - 50 * of_nat n / m)\<bar> \<le> 1 / 10 ^ 12"
      using bar_in_box [OF _ _ m1, of "of_nat n" "length ts" i st] b by auto
    have "h = 50" if "0 < n" "\<forall>t \<in> set ts. snd t \<le> n"
    proof -
      have "mx \<le> n" unfolding assms(2) using that by (subst Max_le_iff [OF fin]) auto
      then have "m = of_nat n" using le by (simp add: m_def)
      then show ?thesis using yh(2) b bar_height_ends(1) [OF m1, of "length ts" i st] by simp
    qed
    moreover have "h = 2" if "n = 0" using that yh(2) b bar_height_ends(2) [OF m1, of "length ts" i st] by simp
    moreover have "br_label (?bs ! i) = take 4 st" "br_color (?bs ! i) = bar_color st"
      by (simp_all add: b bar_of_def Let_def)
    ultimately show ?thesis using yh t by auto
  qed
  have "length ?bs = length ts" by (simp add: tr_def)
  then show ?thesis using eq bar unfolding tr_def m_def by blast
qed

theorem transition_bars_scaled_witness:
  "\<exists>bs. TransitionChart [(''Canary'', Count (Fin (of_nat 4))), (''Done'', Count (Fin (of_nat 2)))] = Some bs \<and>
    br_height (bs ! 0) = Fin 50 \<and> br_label (bs ! 1) = ''Done''"
  using transition_bars_scaled [of "[(''Canary'', 4), (''Done'', 2)]" 4] by (auto simp: All_less_Suc)

end
