(* ===== verification/PlanJson.thy ===== *)
theory PlanJson
  imports Json Constants
begin

text \<open>
  Plans as JSON values: what \<^verbatim>\<open>JSON.stringify\<close> sees of a \<^verbatim>\<open>MigrationPlan\<close>
  (\<^verbatim>\<open>frontend/src/types/index.ts\<close>; members that are undefined are left out), and how a page reads
  the id of a plan that was given as text (\<^verbatim>\<open>pages/NewPlan.tsx\<close>).
\<close>

section \<open>A plan as a value\<close>

definition opt_member :: "string \<Rightarrow> ('a \<Rightarrow> json) \<Rightarrow> 'a option \<Rightarrow> (string \<times> json) list" where
  "opt_member k f x = (case x of None \<Rightarrow> [] | Some a \<Rightarrow> [(k, f a)])"

definition column_json :: "column_spec \<Rightarrow> json" where
  "column_json c =
     JObj ([(''name'', JStr (cs_name c)), (''type'', JStr (cs_type c))] @
       opt_member ''expression'' JStr (cs_expression c) @ opt_member ''nullable'' JBool (cs_nullable c) @
       opt_member ''indexed'' JBool (cs_indexed c))"

definition strings_json :: "string list \<Rightarrow> json" where
  "strings_json ss = JArr (map JStr ss)"

definition plan_json :: "migration_plan \<Rightarrow> json" where
  "plan_json p =
     JObj ([(''id'', JStr (mp_id p)), (''version'', JNum (mp_version p)), (''table'', JStr (mp_table p)),
       (''strategy'', JStr (mp_strategy p)), (''expand'', strings_json (mp_expand p)),
       (''backfill'', JObj [(''column'', JStr (bf_column (mp_backfill p))),
          (''batch_size'', JNum (bf_batch_size (mp_backfill p))),
          (''throttle_ms'', JNum (bf_throttle_ms (mp_backfill p))),
          (''source_expr'', JStr (bf_source_expr (mp_backfill p)))]),
       (''verify'', JObj [(''mode'', JStr (vf_mode (mp_verify p))),
          (''parity_threshold'', JNum (vf_parity_threshold (mp_verify p))),
          (''sample_rate'', JNum (vf_sample_rate (mp_verify p)))]),
       (''canary'', JObj [(''steps'', JArr (map JNum (cn_steps (mp_canary p)))),
          (''bake_seconds'', JNum (cn_bake_seconds (mp_canary p)))]),
       (''slo'', JObj [(''max_p99_latency_ms'', JNum (slo_max_p99_latency_ms (mp_slo p))),
          (''max_error_rate_pct'', JNum (slo_max_error_rate_pct (mp_slo p))),
          (''min_parity'', JNum (slo_min_parity (mp_slo p)))]),
       (''contract'', strings_json (mp_contract p)), (''rollback'', strings_json (mp_rollback p)),
       (''on_failure'', JStr (mp_on_failure p))] @
       opt_member ''add_columns'' (\<lambda>cs. JArr (map column_json cs)) (mp_add_columns p) @
       opt_member ''drop_columns'' strings_json (mp_drop_columns p))"

text \<open>
  The plan card of \<^verbatim>\<open>pages/MigrationDetail.tsx\<close>: the version and the text of the plan.
\<close>

definition plan_card :: "migration_record \<Rightarrow> (string \<times> string) option" where
  "plan_card r =
     map_option (\<lambda>p. (''v'' @ num_text (mp_version p), json_write (plan_json p))) (mr_plan r)"

section \<open>A value in a template literal\<close>

text \<open>Reading a member of \<^verbatim>\<open>null\<close> throws.\<close>

definition null_read :: "string \<Rightarrow> string" where
  "null_read p = ''Cannot read properties of null (reading '' @ [CHR 0x27] @ p @ [CHR 0x27] @ '')''"

text \<open>
  A parsed object has no function members: one with a member of its own named \<^verbatim>\<open>toString\<close> cannot be
  converted.
\<close>

fun js_string :: "json \<Rightarrow> string result"
  and js_strings :: "json list \<Rightarrow> string list result" where
  "js_string JNull = Inr ''null''"
| "js_string (JBool b) = Inr (if b then ''true'' else ''false'')"
| "js_string (JNum n) = Inr (num_text n)"
| "js_string (JStr s) = Inr s"
| "js_string (JArr vs) = bind_result (js_strings vs) (\<lambda>ws. Inr (join '','' ws))"
| "js_string (JObj m) =
     (if om_get m ''toString'' \<noteq> None then Inl ''Cannot convert object to primitive value''
      else Inr ''[object Object]'')"
| "js_strings [] = Inr []"
| "js_strings (v # vs) =
     bind_result (if v = JNull then Inr [] else js_string v)
       (\<lambda>w. bind_result (js_strings vs) (\<lambda>ws. Inr (w # ws)))"

definition raw_id :: "json \<Rightarrow> string result" where
  "raw_id v =
     (case v of
        JNull \<Rightarrow> Inl (null_read ''id'')
      | JObj m \<Rightarrow> (case om_get m ''id'' of Some x \<Rightarrow> js_string x | None \<Rightarrow> Inr ''undefined'')
      | _ \<Rightarrow> Inr ''undefined'')"

section \<open>Facts\<close>

lemma raw_id_plan: "raw_id (plan_json p) = Inr (mp_id p)"
  by (simp add: raw_id_def plan_json_def om_get_def)

text \<open>A plan whose numbers are finite reads back from its text.\<close>

definition finite_plan :: "migration_plan \<Rightarrow> bool" where
  "finite_plan p \<longleftrightarrow>
     list_all double_number ([mp_version p, bf_batch_size (mp_backfill p), bf_throttle_ms (mp_backfill p),
       vf_parity_threshold (mp_verify p), vf_sample_rate (mp_verify p), cn_bake_seconds (mp_canary p),
       slo_max_p99_latency_ms (mp_slo p), slo_max_error_rate_pct (mp_slo p), slo_min_parity (mp_slo p)]
       @ cn_steps (mp_canary p))"

lemma plain_strings: "plain_json (strings_json ss)"
  by (simp add: strings_json_def)

lemma plain_column: "plain_json (column_json c)"
  by (auto simp: column_json_def opt_member_def om_ok_def letter_key is_digit_def split: option.split)

lemma plain_plan: "finite_plan p \<Longrightarrow> plain_json (plan_json p)"
  by (auto simp: plan_json_def finite_plan_def opt_member_def om_ok_def letter_key is_digit_def plain_strings
      plain_column list_all_iff split: option.split)

end
