(* ===== verification/NewPlan.thy ===== *)
theory NewPlan
  imports PlanJson Toast Http
begin

text \<open>
  \<^verbatim>\<open>frontend/src/pages/NewPlan.tsx\<close>: the form and JSON modes of the page that submits a plan. A
  handler gets the state of the render that created it where that can differ from the current one:
  \<^verbatim>\<open>handleKeyDown\<close> is created once and keeps the submit handler of the first render. The clock and
  the browser's syntax error message are parameters. Styling is not modelled.
\<close>

section \<open>State\<close>

definition SQL_TYPES :: "string list" where
  "SQL_TYPES = [''text'', ''integer'', ''bigint'', ''numeric'', ''boolean'', ''timestamp'',
     ''timestamptz'', ''uuid'', ''jsonb'', ''real'', ''double precision'', ''smallint'', ''date'', ''time'']"

definition emptyColumn :: column_spec where
  "emptyColumn = \<lparr> cs_name = [], cs_type = ''text'', cs_expression = Some [], cs_nullable = Some True,
     cs_indexed = Some False \<rparr>"

datatype plan_mode = Form_mode | Json_mode

text \<open>A submission sends the plan built from the form, or the value of the JSON text.\<close>

datatype plan_call = Load_schema string string | Submit plan_body

record new_plan =
  np_mode :: plan_mode
  np_table :: string
  np_planId :: string
  np_columns :: "column_spec list"
  np_dropColumns :: "string list"
  np_schemaColumns :: "schema_column list option"
  np_schemaLoaded :: bool
  np_sloP99 :: number
  np_sloErrorRate :: number
  np_sloParity :: number
  np_canarySteps :: string
  np_json :: string
  np_error :: string
  np_submitting :: bool
  np_loadingSchema :: bool
  np_calls :: "plan_call list"
  np_toaster :: toaster
  np_navs :: "string list"
  np_mounted :: bool
  np_crashed :: "string option"

definition fresh_plan :: "toaster \<Rightarrow> new_plan" where
  "fresh_plan t =
     \<lparr> np_mode = Form_mode, np_table = ''catalog_product'', np_planId = [], np_columns = [emptyColumn],
       np_dropColumns = [], np_schemaColumns = Some [], np_schemaLoaded = False, np_sloP99 = Fin 50,
       np_sloErrorRate = fl (1 / 10), np_sloParity = fl (999 / 1000), np_canarySteps = ''1, 5, 25, 100'',
       np_json = json_write (plan_json DEMO_PLAN), np_error = [], np_submitting = False,
       np_loadingSchema = False, np_calls = [], np_toaster = t, np_navs = [], np_mounted = True,
       np_crashed = None \<rparr>"

definition np_post :: "toast_type \<Rightarrow> string \<Rightarrow> new_plan \<Rightarrow> new_plan" where
  "np_post k m s = s\<lparr> np_toaster := toast k m (np_toaster s) \<rparr>"

definition np_call :: "plan_call \<Rightarrow> new_plan \<Rightarrow> new_plan" where
  "np_call c s = s\<lparr> np_calls := np_calls s @ [c] \<rparr>"

section \<open>The schema of the table\<close>

definition loadSchema :: "new_plan \<Rightarrow> new_plan" where
  "loadSchema s =
     (if trim (np_table s) = [] then np_post Toast_error ''Enter a table name first'' s
      else np_call (Load_schema (trim (np_table s)) (np_table s)) (s\<lparr> np_loadingSchema := True \<rparr>))"

text \<open>After the await; \<open>shown\<close> is the table name as it was typed when the request was made.\<close>

definition schema_loaded :: "string \<Rightarrow> schema_response result \<Rightarrow> new_plan \<Rightarrow> new_plan" where
  "schema_loaded shown r s =
     (case r of
        Inr res \<Rightarrow>
          (let s' = s\<lparr> np_schemaColumns := sr_columns res, np_schemaLoaded := True \<rparr>
           in case sr_columns res of
               Some cols \<Rightarrow> np_post Toast_success
                 (''Loaded '' @ show_nat (length cols) @ '' columns from '' @ shown) s'
             | None \<Rightarrow> np_post Toast_error (null_read ''length'') s')
      | Inl e \<Rightarrow> np_post Toast_error e s)\<lparr> np_loadingSchema := False \<rparr>"

section \<open>The columns to add\<close>

datatype col_edit =
    Edit_name string
  | Edit_type string
  | Edit_expression string
  | Edit_indexed bool
  | Edit_nullable bool

fun edit_column :: "col_edit \<Rightarrow> column_spec \<Rightarrow> column_spec" where
  "edit_column (Edit_name v) c = c\<lparr> cs_name := v \<rparr>"
| "edit_column (Edit_type v) c = c\<lparr> cs_type := v \<rparr>"
| "edit_column (Edit_expression v) c = c\<lparr> cs_expression := Some v \<rparr>"
| "edit_column (Edit_indexed v) c = c\<lparr> cs_indexed := Some v \<rparr>"
| "edit_column (Edit_nullable v) c = c\<lparr> cs_nullable := Some v \<rparr>"

definition updateColumn :: "nat \<Rightarrow> col_edit \<Rightarrow> new_plan \<Rightarrow> new_plan" where
  "updateColumn idx ed s =
     s\<lparr> np_columns := map (\<lambda>(i, c). if i = idx then edit_column ed c else c) (enumerated (np_columns s)) \<rparr>"

definition addColumn :: "new_plan \<Rightarrow> new_plan" where
  "addColumn s = s\<lparr> np_columns := np_columns s @ [emptyColumn] \<rparr>"

definition removeColumn :: "nat \<Rightarrow> new_plan \<Rightarrow> new_plan" where
  "removeColumn idx s =
     s\<lparr> np_columns := map snd (filter (\<lambda>(i, c). i \<noteq> idx) (enumerated (np_columns s))) \<rparr>"

definition toggleDrop :: "string \<Rightarrow> new_plan \<Rightarrow> new_plan" where
  "toggleDrop name s =
     s\<lparr> np_dropColumns := (if name \<notin> set (np_dropColumns s) then np_dropColumns s @ [name]
          else filter (\<lambda>n. n \<noteq> name) (np_dropColumns s)) \<rparr>"

section \<open>The plan of the form\<close>

definition canary_steps_of :: "string \<Rightarrow> number list" where
  "canary_steps_of txt =
     filter (\<lambda>n. js_lt (Fin 0) n \<and> js_le n (Fin 100)) (map (\<lambda>s. parse_int (trim s)) (split_on CHR '','' txt))"

definition buildPlan :: "number \<Rightarrow> new_plan \<Rightarrow> migration_plan" where
  "buildPlan now s =
     (let validCols = filter (\<lambda>c. trim (cs_name c) \<noteq> []) (np_columns s)
      in \<lparr> mp_id = (if np_planId s = [] then ''migration-'' @ num_text now else np_planId s),
           mp_version = Fin 1,
           mp_table = trim (np_table s),
           mp_strategy = ''expand-contract'',
           mp_expand = [],
           mp_backfill = \<lparr> bf_column = [], bf_batch_size = Fin 5000, bf_throttle_ms = Fin 20, bf_source_expr = [] \<rparr>,
           mp_verify = \<lparr> vf_mode = ''shadow-read'', vf_parity_threshold = np_sloParity s,
             vf_sample_rate = fl (5 / 100) \<rparr>,
           mp_canary = \<lparr> cn_steps = canary_steps_of (np_canarySteps s), cn_bake_seconds = Fin 120 \<rparr>,
           mp_slo = \<lparr> slo_max_p99_latency_ms = np_sloP99 s, slo_max_error_rate_pct = np_sloErrorRate s,
             slo_min_parity = np_sloParity s \<rparr>,
           mp_contract = [],
           mp_rollback = [],
           mp_on_failure = ''rollback'',
           mp_add_columns = (if length validCols > 0 then Some validCols else None),
           mp_drop_columns = (if length (np_dropColumns s) > 0 then Some (np_dropColumns s) else None) \<rparr>)"

section \<open>Submitting\<close>

text \<open>What is shown for an error message.\<close>

definition plan_error :: "string \<Rightarrow> string" where
  "plan_error e =
     (if str_includes e ''JSON'' then ''Invalid JSON: '' @ trim (join '':'' (drop 1 (split_on CHR '':'' e)))
      else e)"

definition submit_failed :: "string \<Rightarrow> new_plan \<Rightarrow> new_plan" where
  "submit_failed e s =
     (np_post Toast_error (plan_error e) (s\<lparr> np_error := plan_error e \<rparr>))\<lparr> np_submitting := False \<rparr>"

text \<open>
  \<^verbatim>\<open>handleSubmit\<close> up to its request: the plan comes from the state \<open>c\<close> of the render the handler
  belongs to, the changes are made to the current state.
\<close>

definition plan_of :: "(string \<Rightarrow> string) \<Rightarrow> number \<Rightarrow> new_plan \<Rightarrow> plan_body result" where
  "plan_of msg now c =
     (if np_mode c = Json_mode then bind_result (json_parse msg (np_json c)) (\<lambda>v. Inr (Raw v))
      else Inr (Built (buildPlan now c)))"

definition handleSubmit :: "(string \<Rightarrow> string) \<Rightarrow> number \<Rightarrow> new_plan \<Rightarrow> new_plan \<Rightarrow> new_plan" where
  "handleSubmit msg now c s =
     (let s' = s\<lparr> np_error := [], np_submitting := True \<rparr>
      in case plan_of msg now c of
          Inl e \<Rightarrow> submit_failed e s'
        | Inr b \<Rightarrow> np_call (Submit b) s')"

text \<open>After the request. The page is left by the navigation.\<close>

fun body_id :: "plan_body \<Rightarrow> string result" where
  "body_id (Built p) = Inr (mp_id p)"
| "body_id (Raw v) = raw_id v"

definition plan_submitted :: "plan_body \<Rightarrow> plan_submission result \<Rightarrow> new_plan \<Rightarrow> new_plan" where
  "plan_submitted b r s =
     (case bind_result r (\<lambda>res. bind_result (body_id b) (\<lambda>i. Inr (i, ps_migration_id res))) of
        Inl e \<Rightarrow> submit_failed e s
      | Inr (i, mid) \<Rightarrow>
          (np_post Toast_success (''Migration \"'' @ i @ ''\" submitted'') s)
            \<lparr> np_navs := np_navs s @ [''/migrations/'' @ mid], np_mounted := False, np_submitting := False \<rparr>)"

definition handleFormat :: "new_plan \<Rightarrow> new_plan" where
  "handleFormat s =
     (case json_read (np_json s) of
        Some v \<Rightarrow> np_post Toast_info ''JSON formatted'' (s\<lparr> np_json := json_write v \<rparr>)
      | None \<Rightarrow> s\<lparr> np_error := ''Invalid JSON'' \<rparr>)"

text \<open>
  \<^verbatim>\<open>handleKeyDown\<close> is memoised without dependencies: it calls the submit handler of the first render,
  whose closure has the hooks' first values for good. They are those of \<open>fresh_plan\<close>, whatever the page
  shows by now; the changes are made to the current state.
\<close>

definition handleKeyDown :: "(string \<Rightarrow> string) \<Rightarrow> number \<Rightarrow> new_plan \<Rightarrow> new_plan" where
  "handleKeyDown msg now s = handleSubmit msg now (fresh_plan (np_toaster s)) s"

section \<open>What is shown\<close>

record column_editor =
  ce_name :: string
  ce_type :: string
  ce_expression :: string
  ce_indexed :: bool
  ce_nullable :: bool
  ce_removable :: bool

definition column_editor_of :: "nat \<Rightarrow> column_spec \<Rightarrow> column_editor" where
  "column_editor_of n c =
     \<lparr> ce_name = cs_name c, ce_type = cs_type c,
       ce_expression = (case cs_expression c of Some e \<Rightarrow> e | None \<Rightarrow> []),
       ce_indexed = (cs_indexed c = Some True), ce_nullable = (cs_nullable c \<noteq> Some False),
       ce_removable = (n > 1) \<rparr>"

record form_view =
  fv_table :: string
  fv_introspect :: "string \<times> bool"
  fv_schema :: "(string \<times> string) list option"
  fv_id :: string
  fv_columns :: "column_editor list"
  fv_drops :: "(string \<times> bool) list option"
  fv_slo :: "string \<times> string \<times> string \<times> string"

definition slo_inputs :: "new_plan \<Rightarrow> string \<times> string \<times> string \<times> string" where
  "slo_inputs s = (num_text (np_sloP99 s), num_text (np_sloErrorRate s), num_text (np_sloParity s), np_canarySteps s)"

text \<open>Mapping over columns that are \<^verbatim>\<open>null\<close> throws.\<close>

definition form_of :: "new_plan \<Rightarrow> form_view result" where
  "form_of s =
     (if np_schemaLoaded s \<and> np_schemaColumns s = None then Inl (null_read ''map'')
      else let cols = (case np_schemaColumns s of Some l \<Rightarrow> l | None \<Rightarrow> [])
        in Inr \<lparr> fv_table = np_table s,
             fv_introspect = (if np_loadingSchema s then ''Loading...'' else ''Introspect'', np_loadingSchema s),
             fv_schema = (if np_schemaLoaded s then Some (map (\<lambda>c. (sc_name c, sc_type c)) cols) else None),
             fv_id = np_planId s,
             fv_columns = map (column_editor_of (length (np_columns s))) (np_columns s),
             fv_drops = (if np_schemaLoaded s \<and> length cols > 0
               then Some (map (\<lambda>c. (sc_name c, sc_name c \<in> set (np_dropColumns s))) cols) else None),
             fv_slo = slo_inputs s \<rparr>)"

datatype plan_input = Form_input form_view | Json_input string string

definition json_input :: "new_plan \<Rightarrow> plan_input" where
  "json_input s = Json_input (show_nat (length (split_on CHR 0x0A (np_json s))) @ '' lines'') (np_json s)"

record plan_page =
  pp_subtitle :: string
  pp_mode_label :: string
  pp_format :: bool
  pp_submit :: "string \<times> bool"
  pp_error :: "string option"
  pp_input :: plan_input

definition plan_page_view :: "new_plan \<Rightarrow> plan_page result" where
  "plan_page_view s =
     bind_result (if np_mode s = Form_mode then bind_result (form_of s) (\<lambda>f. Inr (Form_input f))
        else Inr (json_input s))
      (\<lambda>inp. Inr
        \<lparr> pp_subtitle = (if np_mode s = Form_mode then ''Describe your schema change declaratively''
            else ''Submit a raw JSON migration plan''),
          pp_mode_label = (if np_mode s = Form_mode then ''Advanced Mode'' else ''Form Mode''),
          pp_format = (np_mode s = Json_mode),
          pp_submit = (if np_submitting s then ''Submitting...'' else ''Submit Plan'', np_submitting s),
          pp_error = (if np_error s = [] then None else Some (np_error s)),
          pp_input = inp \<rparr>)"

section \<open>Events\<close>

datatype plan_event =
    P_toggle_mode
  | P_set_table string
  | P_introspect
  | P_schema string string "schema_response result"
  | P_set_id string
  | P_add_column
  | P_edit_column nat col_edit
  | P_remove_column nat
  | P_toggle_drop string
  | P_set_p99 string
  | P_set_error_rate string
  | P_set_parity string
  | P_set_steps string
  | P_set_json string
  | P_format
  | P_submit number
  | P_shortcut number
  | P_submitted plan_body "plan_submission result"
  | P_leave

text \<open>
  A number input hands out a valid decimal number or the empty text, which \<^verbatim>\<open>Number\<close> reads as 0.
\<close>

definition input_number :: "string \<Rightarrow> number" where
  "input_number v = (if v = [] then Fin 0 else parse_float v)"

definition shown_form :: "new_plan \<Rightarrow> bool" where
  "shown_form s \<longleftrightarrow> np_mounted s \<and> np_mode s = Form_mode"

definition listed_columns :: "new_plan \<Rightarrow> string list" where
  "listed_columns s =
     (if np_schemaLoaded s then map sc_name (case np_schemaColumns s of Some l \<Rightarrow> l | None \<Rightarrow> []) else [])"

fun np_enabled :: "new_plan \<Rightarrow> plan_event \<Rightarrow> bool" where
  "np_enabled s P_toggle_mode \<longleftrightarrow> np_mounted s"
| "np_enabled s (P_set_table v) \<longleftrightarrow> shown_form s"
| "np_enabled s P_introspect \<longleftrightarrow> shown_form s \<and> \<not> np_loadingSchema s"
| "np_enabled s (P_schema tbl shown r) \<longleftrightarrow> Load_schema tbl shown \<in> set (np_calls s)"
| "np_enabled s (P_set_id v) \<longleftrightarrow> shown_form s"
| "np_enabled s P_add_column \<longleftrightarrow> shown_form s"
| "np_enabled s (P_edit_column i ed) \<longleftrightarrow> shown_form s \<and> i < length (np_columns s) \<and>
     (case ed of Edit_type t \<Rightarrow> t \<in> set SQL_TYPES | _ \<Rightarrow> True)"
| "np_enabled s (P_remove_column i) \<longleftrightarrow> shown_form s \<and> i < length (np_columns s) \<and> length (np_columns s) > 1"
| "np_enabled s (P_toggle_drop n) \<longleftrightarrow> shown_form s \<and> n \<in> set (listed_columns s)"
| "np_enabled s (P_set_p99 v) \<longleftrightarrow> shown_form s"
| "np_enabled s (P_set_error_rate v) \<longleftrightarrow> shown_form s"
| "np_enabled s (P_set_parity v) \<longleftrightarrow> shown_form s"
| "np_enabled s (P_set_steps v) \<longleftrightarrow> shown_form s"
| "np_enabled s (P_set_json v) \<longleftrightarrow> np_mounted s \<and> np_mode s = Json_mode"
| "np_enabled s P_format \<longleftrightarrow> np_mounted s \<and> np_mode s = Json_mode"
| "np_enabled s (P_submit now) \<longleftrightarrow> np_mounted s \<and> \<not> np_submitting s"
| "np_enabled s (P_shortcut now) \<longleftrightarrow> np_mounted s"
| "np_enabled s (P_submitted b r) \<longleftrightarrow> Submit b \<in> set (np_calls s)"
| "np_enabled s P_leave \<longleftrightarrow> np_mounted s"

definition np_settle :: "plan_call \<Rightarrow> new_plan \<Rightarrow> new_plan" where
  "np_settle c s = s\<lparr> np_calls := remove1 c (np_calls s) \<rparr>"

fun np_handle :: "(string \<Rightarrow> string) \<Rightarrow> new_plan \<Rightarrow> plan_event \<Rightarrow> new_plan" where
  "np_handle msg s P_toggle_mode =
     s\<lparr> np_mode := (if np_mode s = Form_mode then Json_mode else Form_mode) \<rparr>"
| "np_handle msg s (P_set_table v) = s\<lparr> np_table := v, np_schemaLoaded := False \<rparr>"
| "np_handle msg s P_introspect = loadSchema s"
| "np_handle msg s (P_schema tbl shown r) = schema_loaded shown r (np_settle (Load_schema tbl shown) s)"
| "np_handle msg s (P_set_id v) = s\<lparr> np_planId := v \<rparr>"
| "np_handle msg s P_add_column = addColumn s"
| "np_handle msg s (P_edit_column i ed) = updateColumn i ed s"
| "np_handle msg s (P_remove_column i) = removeColumn i s"
| "np_handle msg s (P_toggle_drop n) = toggleDrop n s"
| "np_handle msg s (P_set_p99 v) = s\<lparr> np_sloP99 := input_number v \<rparr>"
| "np_handle msg s (P_set_error_rate v) = s\<lparr> np_sloErrorRate := input_number v \<rparr>"
| "np_handle msg s (P_set_parity v) = s\<lparr> np_sloParity := input_number v \<rparr>"
| "np_handle msg s (P_set_steps v) = s\<lparr> np_canarySteps := v \<rparr>"
| "np_handle msg s (P_set_json v) = s\<lparr> np_json := v \<rparr>"
| "np_handle msg s P_format = handleFormat s"
| "np_handle msg s (P_submit now) = handleSubmit msg now s s"
| "np_handle msg s (P_shortcut now) = handleKeyDown msg now s"
| "np_handle msg s (P_submitted b r) = plan_submitted b r (np_settle (Submit b) s)"
| "np_handle msg s P_leave = s\<lparr> np_mounted := False \<rparr>"

text \<open>A render that throws takes the page down.\<close>

definition np_commit :: "new_plan \<Rightarrow> new_plan" where
  "np_commit s =
     (if \<not> np_mounted s then s
      else case plan_page_view s of
          Inl e \<Rightarrow> s\<lparr> np_mounted := False, np_crashed := Some e \<rparr>
        | Inr v \<Rightarrow> s)"

definition plan_step :: "(string \<Rightarrow> string) \<Rightarrow> new_plan \<Rightarrow> plan_event \<Rightarrow> new_plan" where
  "plan_step msg s ev = (if np_enabled s ev then np_commit (np_handle msg s ev) else s)"

end
