(* ===== verification/NewPlanProps.thy ===== *)
theory NewPlanProps
  imports NewPlan
begin

text \<open>
  What holds on every run of the plan page (\<^verbatim>\<open>NewPlan.thy\<close>): the plan its form builds, what a
  submission sends, and where the page fails.
\<close>


section \<open>What every run keeps\<close>

lemmas np_defs = loadSchema_def schema_loaded_def submit_failed_def handleSubmit_def plan_submitted_def
  handleFormat_def handleKeyDown_def np_post_def np_call_def np_settle_def addColumn_def removeColumn_def
  updateColumn_def toggleDrop_def Let_def

definition column_ok :: "column_spec \<Rightarrow> bool" where
  "column_ok c \<longleftrightarrow> cs_type c \<in> set SQL_TYPES"

definition form_ok :: "new_plan \<Rightarrow> bool" where
  "form_ok s \<longleftrightarrow> np_columns s \<noteq> [] \<and> list_all column_ok (np_columns s) \<and> distinct (np_dropColumns s)"

lemma empty_ok: "column_ok emptyColumn"
  by (simp add: column_ok_def emptyColumn_def SQL_TYPES_def)

lemma form_ok_fresh: "form_ok (fresh_plan t)"
  by (simp add: form_ok_def fresh_plan_def empty_ok)

lemma submit_fields:
  "np_columns (handleSubmit msg now c s) = np_columns s"
  "np_dropColumns (handleSubmit msg now c s) = np_dropColumns s"
  by (simp_all add: handleSubmit_def submit_failed_def np_post_def np_call_def Let_def split: sum.split)

lemma answer_fields:
  "np_columns (schema_loaded shown r s) = np_columns s" "np_dropColumns (schema_loaded shown r s) = np_dropColumns s"
  "np_columns (plan_submitted b r' s) = np_columns s" "np_dropColumns (plan_submitted b r' s) = np_dropColumns s"
  "np_columns (handleFormat s) = np_columns s" "np_dropColumns (handleFormat s) = np_dropColumns s"
  "np_columns (loadSchema s) = np_columns s" "np_dropColumns (loadSchema s) = np_dropColumns s"
  by (simp_all add: np_defs split: sum.split option.split prod.split)

lemma edited_ok:
  "column_ok c \<Longrightarrow> (case ed of Edit_type t \<Rightarrow> t \<in> set SQL_TYPES | _ \<Rightarrow> True) \<Longrightarrow> column_ok (edit_column ed c)"
  by (cases ed) (simp_all add: column_ok_def)

lemma set_enumerated_snd: "(i, c) \<in> set (enumerated xs) \<Longrightarrow> c \<in> set xs"
  by (simp add: set_enumerated)

lemma removed_ne: "length xs > 1 \<Longrightarrow> map snd (filter (\<lambda>(i, c). i \<noteq> idx) (enumerated xs)) \<noteq> []"
proof -
  assume l: "length xs > 1"
  define j :: nat where "j = (if idx = 0 then 1 else 0)"
  have "(j, xs ! j) \<in> set (enumerated xs)" "j \<noteq> idx" using l by (auto simp: set_enumerated j_def)
  then have "(j, xs ! j) \<in> set (filter (\<lambda>(i, c). i \<noteq> idx) (enumerated xs))" by simp
  then show ?thesis by (metis empty_iff list.map_disc_iff list.set(1))
qed

lemma form_ok_handle:
  assumes "form_ok s" and "np_enabled s ev"
  shows "form_ok (np_handle msg s ev)"
proof (cases ev)
  case (P_edit_column i ed)
  have "column_ok (edit_column ed c)" if "c \<in> set (np_columns s)" for c
    using assms that by (intro edited_ok) (auto simp: P_edit_column form_ok_def list_all_iff)
  then show ?thesis
    using assms(1) by (auto simp: P_edit_column form_ok_def updateColumn_def list_all_iff enumerated_def
        dest!: set_zip_rightD)
next
  case (P_remove_column i)
  then show ?thesis
    using assms removed_ne [of "np_columns s" i]
    by (auto simp: form_ok_def removeColumn_def list_all_iff dest: set_enumerated_snd)
qed (use assms in \<open>auto simp: form_ok_def submit_fields answer_fields handleKeyDown_def np_settle_def
    addColumn_def toggleDrop_def empty_ok\<close>)

lemma form_ok_commit: "form_ok s \<Longrightarrow> form_ok (np_commit s)"
  by (simp add: np_commit_def form_ok_def split: sum.split)

interpretation plan_run: run_invariant "plan_step msg" form_ok for msg
  by unfold_locales (simp add: plan_step_def form_ok_handle form_ok_commit)

lemma commit_calls: "np_calls (np_commit s) = np_calls s"
  by (simp add: np_commit_def split: sum.split)

lemma fl_whole_small:
  assumes "js_lt (Fin 0) (fl (of_int k))" and "js_le (fl (of_int k)) (Fin 100)"
  shows "\<exists>n. fl (of_int k) = Fin (of_nat n) \<and> 1 \<le> n \<and> n \<le> 100"
proof -
  have pos: "0 < k"
  proof (rule ccontr)
    assume "\<not> 0 < k"
    then have "js_le (fl (of_int k)) (fl 0)" by (intro fl_mono) simp
    then show False using assms(1) by (cases "fl (of_int k)") (auto simp: js_le_def)
  qed
  have "k \<le> 100"
  proof (rule ccontr)
    assume "\<not> k \<le> 100"
    then have "js_le (fl (of_nat 101)) (fl (of_int k))" by (intro fl_mono) simp
    then show False using assms(2) fl_of_nat [of 101] by (cases "fl (of_int k)") (auto simp: js_le_def)
  qed
  moreover have "fl (of_int k) = Fin (of_nat (nat k))"
    using pos calculation fl_of_nat [of "nat k"] by (simp add: of_nat_nat)
  ultimately show ?thesis using pos by (intro exI [of _ "nat k"]) (simp, linarith)
qed

lemma parse_int_shape: "parse_int s = NaN \<or> (\<exists>k :: int. parse_int s = fl (of_int k))"
  by (auto simp: parse_int_def Let_def split: prod.split intro: exI [of _ "int _"] exI [of _ "- int _"])

lemma canary_steps_whole:
  assumes "n \<in> set (canary_steps_of txt)"
  shows "\<exists>k. n = Fin (of_nat k) \<and> 1 \<le> k \<and> k \<le> 100"
proof -
  obtain t where "n = parse_int t" "js_lt (Fin 0) n" "js_le n (Fin 100)"
    using assms by (auto simp: canary_steps_of_def)
  then show ?thesis using parse_int_shape [of t] fl_whole_small by auto
qed

section \<open>Properties\<close>

lemma default_steps: "canary_steps_of ''1, 5, 25, 100'' = [Fin 1, Fin 5, Fin 25, Fin 100]"
proof -
  have parts: "map trim (split_on CHR '','' ''1, 5, 25, 100'') = [show_nat 1, show_nat 5, show_nat 25, show_nat 100]"
    by code_simp
  have "map parse_int [show_nat 1, show_nat 5, show_nat 25, show_nat 100] = [Fin 1, Fin 5, Fin 25, Fin 100]"
    by (simp del: One_nat_def add: parse_int_show_nat)
  then have "map (\<lambda>s. parse_int (trim s)) (split_on CHR '','' ''1, 5, 25, 100'') = [Fin 1, Fin 5, Fin 25, Fin 100]"
    unfolding parts [symmetric] by (simp only: map_map o_def)
  then show ?thesis unfolding canary_steps_of_def by (simp only:) simp
qed

lemma fresh_plan_fields:
  "np_mode (fresh_plan t) = Form_mode" "np_table (fresh_plan t) = ''catalog_product''" "np_planId (fresh_plan t) = []"
  "np_columns (fresh_plan t) = [emptyColumn]" "np_dropColumns (fresh_plan t) = []" "np_sloP99 (fresh_plan t) = Fin 50"
  "np_sloErrorRate (fresh_plan t) = fl (1 / 10)" "np_sloParity (fresh_plan t) = fl (999 / 1000)"
  "np_canarySteps (fresh_plan t) = ''1, 5, 25, 100''"
  by (simp_all only: fresh_plan_def new_plan.select_convs)

text \<open>
  C36: the shortcut submits the wrong plan. Whatever is on the form or in the JSON text, pressing
  Ctrl+Enter sends exactly one plan, that of the untouched form: table catalog_product, the thresholds
  and canary steps the form starts with, no column to add or to drop, and an id made from the clock. It
  does so in JSON mode and during another submission too.
\<close>

theorem shortcut_submits_defaults:
  assumes "np_mounted s"
  shows "np_calls (plan_step msg s (P_shortcut now)) = np_calls s @ [Submit (Built
    \<lparr> mp_id = ''migration-'' @ num_text now, mp_version = Fin 1, mp_table = ''catalog_product'',
      mp_strategy = ''expand-contract'', mp_expand = [],
      mp_backfill = \<lparr> bf_column = [], bf_batch_size = Fin 5000, bf_throttle_ms = Fin 20, bf_source_expr = [] \<rparr>,
      mp_verify = \<lparr> vf_mode = ''shadow-read'', vf_parity_threshold = fl (999 / 1000), vf_sample_rate = fl (5 / 100) \<rparr>,
      mp_canary = \<lparr> cn_steps = [Fin 1, Fin 5, Fin 25, Fin 100], cn_bake_seconds = Fin 120 \<rparr>,
      mp_slo = \<lparr> slo_max_p99_latency_ms = Fin 50, slo_max_error_rate_pct = fl (1 / 10),
        slo_min_parity = fl (999 / 1000) \<rparr>,
      mp_contract = [], mp_rollback = [], mp_on_failure = ''rollback'',
      mp_add_columns = None, mp_drop_columns = None \<rparr>)]"
proof -
  let ?p = "buildPlan now (fresh_plan (np_toaster s))"
  have "plan_of msg now (fresh_plan (np_toaster s)) = Inr (Built ?p)"
    by (simp add: plan_of_def fresh_plan_fields(1))
  then have "np_calls (plan_step msg s (P_shortcut now)) = np_calls s @ [Submit (Built ?p)]"
    using assms by (simp add: plan_step_def commit_calls handleKeyDown_def handleSubmit_def np_call_def Let_def)
  moreover have "trim ''catalog_product'' = ''catalog_product''" by code_simp
  moreover have "canary_steps_of ''1, 5, 25, 100'' = [Fin 1, Fin 5, Fin 25, Fin 100]" by (rule default_steps)
  moreover have "filter (\<lambda>c. trim (cs_name c) \<noteq> []) [emptyColumn] = []" by (simp add: emptyColumn_def)
  ultimately show ?thesis
    by (simp only: buildPlan_def fresh_plan_fields Let_def list.size less_irrefl if_True if_False simp_thms)
qed

theorem shortcut_submits_defaults_witness:
  "\<exists>p. np_calls (plan_step (\<lambda>_. ''JSON'')
      ((fresh_plan (fresh_toaster 0))\<lparr> np_table := ''orders'', np_sloP99 := Fin 9 \<rparr>) (P_shortcut (Fin 7))) = [Submit (Built p)] \<and>
    mp_table p = ''catalog_product'' \<and> slo_max_p99_latency_ms (mp_slo p) = Fin 50"
  using shortcut_submits_defaults [of "(fresh_plan (fresh_toaster 0))\<lparr> np_table := ''orders'', np_sloP99 := Fin 9 \<rparr>" "\<lambda>_. ''JSON''" "Fin 7"]
  by (auto simp: fresh_plan_def)

text \<open>
  C26: the button submits what is shown. On the form it sends the plan of the form; in JSON mode it
  sends the value of the text, and if the text is not JSON it sends nothing, shows the error and can be
  pressed again.
\<close>

theorem submit_sends_what_is_shown:
  assumes "np_mounted s" and "\<not> np_submitting s" and "s' = plan_step msg s (P_submit now)"
  shows "(np_mode s = Form_mode \<longrightarrow> np_calls s' = np_calls s @ [Submit (Built (buildPlan now s))] \<and> np_submitting s') \<and>
    (np_mode s = Json_mode \<longrightarrow>
      (case json_read (np_json s) of
         Some v \<Rightarrow> np_calls s' = np_calls s @ [Submit (Raw v)] \<and> np_submitting s'
       | None \<Rightarrow> np_calls s' = np_calls s \<and> np_error s' = plan_error (msg (np_json s)) \<and> \<not> np_submitting s'))"
  using assms(1,2)
  by (auto simp: assms(3) plan_step_def np_commit_def handleSubmit_def plan_of_def json_parse_def np_call_def
      submit_failed_def np_post_def Let_def split: option.split sum.split)

theorem submit_sends_what_is_shown_witness:
  "np_calls (plan_step (\<lambda>_. ''JSON'') ((fresh_plan (fresh_toaster 0))\<lparr> np_mode := Json_mode, np_json := ''x'' \<rparr>) (P_submit (Fin 7))) = []"
proof -
  have "json_read ''x'' = None" by code_simp
  then show ?thesis
    using submit_sends_what_is_shown [of "(fresh_plan (fresh_toaster 0))\<lparr> np_mode := Json_mode, np_json := ''x'' \<rparr>" _ "\<lambda>_. ''JSON''" "Fin 7"]
    by (simp add: fresh_plan_def)
qed

text \<open>
  C9: the plan of the form is well formed after any run of the page: its canary steps are whole
  percentages from 1 to 100, an added column has a name and one of the listed types, dropped columns
  are distinct, and an empty list of either kind is left out.
\<close>

theorem built_plan_typed:
  assumes "s = foldl (plan_step msg) (fresh_plan t) evs"
  shows "(\<forall>n \<in> set (cn_steps (mp_canary (buildPlan now s))). \<exists>k. n = Fin (of_nat k) \<and> 1 \<le> k \<and> k \<le> 100) \<and>
    (\<forall>cs. mp_add_columns (buildPlan now s) = Some cs \<longrightarrow> cs \<noteq> [] \<and>
      (\<forall>c \<in> set cs. trim (cs_name c) \<noteq> [] \<and> cs_type c \<in> set SQL_TYPES)) \<and>
    (\<forall>ds. mp_drop_columns (buildPlan now s) = Some ds \<longrightarrow> ds \<noteq> [] \<and> distinct ds)"
proof -
  have "form_ok s" unfolding assms by (rule plan_run.run_inv [OF form_ok_fresh])
  then show ?thesis
    by (auto simp: buildPlan_def Let_def form_ok_def list_all_iff column_ok_def
        dest: canary_steps_whole split: if_splits)
qed

theorem built_plan_typed_witness:
  "mp_add_columns (buildPlan (Fin 7) (foldl (plan_step (\<lambda>_. ''JSON'')) (fresh_plan (fresh_toaster 0)) [P_edit_column 0 (Edit_name ''c'')]))
     = Some [emptyColumn\<lparr> cs_name := ''c'' \<rparr>] \<and> cs_type (emptyColumn\<lparr> cs_name := ''c'' \<rparr>) \<in> set SQL_TYPES"
proof -
  let ?s = "foldl (plan_step (\<lambda>_. ''JSON'')) (fresh_plan (fresh_toaster 0)) [P_edit_column 0 (Edit_name ''c'')]"
  have "trim ''c'' = ''c''" by code_simp
  then have "mp_add_columns (buildPlan (Fin 7) ?s) = Some [emptyColumn\<lparr> cs_name := ''c'' \<rparr>]"
    by (simp add: plan_step_def shown_form_def fresh_plan_def updateColumn_def enumerated_def np_commit_def
        plan_page_view_def json_input_def slo_inputs_def form_of_def buildPlan_def Let_def)
  then show ?thesis using built_plan_typed [of ?s "\<lambda>_. ''JSON''" "fresh_toaster 0" "[P_edit_column 0 (Edit_name ''c'')]" "Fin 7"] by auto
qed

text \<open>
  Columns to drop survive a change of the table. A column that was marked to be dropped stays in
  the plan when another table name is entered, although the page no longer shows its mark: the plan
  then drops the column from a table it was never read from.
\<close>

theorem drops_survive_table_change:
  assumes "shown_form s" and "d \<in> set (np_dropColumns s)" and "s' = plan_step msg s (P_set_table tbl)"
  shows "(\<exists>ds. mp_drop_columns (buildPlan now s') = Some ds \<and> d \<in> set ds) \<and>
    mp_table (buildPlan now s') = trim tbl \<and>
    (\<exists>f. form_of s' = Inr f \<and> fv_drops f = None \<and> fv_schema f = None) \<and> np_mounted s'"
proof -
  have "np_commit (s\<lparr> np_table := tbl, np_schemaLoaded := False \<rparr>) = s\<lparr> np_table := tbl, np_schemaLoaded := False \<rparr>"
    using assms(1) by (simp add: np_commit_def plan_page_view_def json_input_def slo_inputs_def form_of_def shown_form_def Let_def)
  then have "s' = s\<lparr> np_table := tbl, np_schemaLoaded := False \<rparr>"
    using assms(1,3) by (simp add: plan_step_def)
  then show ?thesis
    using assms(1,2) by (auto simp: buildPlan_def form_of_def slo_inputs_def shown_form_def Let_def)
qed

theorem drops_survive_table_change_witness:
  "mp_table (buildPlan (Fin 7) (plan_step (\<lambda>_. ''JSON'') ((fresh_plan (fresh_toaster 0))\<lparr> np_dropColumns := [''old''] \<rparr>) (P_set_table ''orders'')))
     = trim ''orders''"
  using drops_survive_table_change [of "(fresh_plan (fresh_toaster 0))\<lparr> np_dropColumns := [''old''] \<rparr>" "''old''" _ "\<lambda>_. ''JSON''" "''orders''" "Fin 7"]
  by (simp add: shown_form_def fresh_plan_def)

text \<open>
  An unknown table takes the page down. The engine sends \<^verbatim>\<open>null\<close> for the columns of a table it does
  not know; when that answer arrives on the form, the next render throws and the page with everything
  typed is gone.
\<close>

theorem unknown_table_crashes:
  assumes "shown_form s" and "Load_schema tbl shown \<in> set (np_calls s)" and "sr_columns res = None"
  shows "np_crashed (plan_step msg s (P_schema tbl shown (Inr res))) = Some (null_read ''map'') \<and>
    \<not> np_mounted (plan_step msg s (P_schema tbl shown (Inr res)))"
  using assms
  by (simp add: plan_step_def schema_loaded_def np_settle_def np_post_def np_commit_def plan_page_view_def
      form_of_def shown_form_def Let_def)

theorem unknown_table_crashes_witness:
  "np_crashed (foldl (plan_step (\<lambda>_. ''JSON'')) (fresh_plan (fresh_toaster 0))
     [P_introspect, P_schema ''catalog_product'' ''catalog_product''
        (Inr \<lparr> sr_table = ''catalog_product'', sr_columns = None \<rparr>)]) = Some (null_read ''map'')"
proof -
  have tr: "trim ''catalog_product'' = ''catalog_product''" by code_simp
  let ?s = "plan_step (\<lambda>_. ''JSON'') (fresh_plan (fresh_toaster 0)) P_introspect"
  have "?s = np_call (Load_schema ''catalog_product'' ''catalog_product'') ((fresh_plan (fresh_toaster 0))\<lparr> np_loadingSchema := True \<rparr>)"
    by (simp add: plan_step_def shown_form_def fresh_plan_def loadSchema_def tr np_commit_def np_call_def
        plan_page_view_def json_input_def slo_inputs_def form_of_def Let_def)
  then have "shown_form ?s" "Load_schema ''catalog_product'' ''catalog_product'' \<in> set (np_calls ?s)"
    by (simp_all add: shown_form_def np_call_def fresh_plan_def)
  then show ?thesis
    using unknown_table_crashes [of ?s "''catalog_product''" "''catalog_product''"
        "\<lparr> sr_table = ''catalog_product'', sr_columns = None \<rparr>" "\<lambda>_. ''JSON''"] by simp
qed

text \<open>
  Formatting keeps the plan. Formatting a JSON text does not change the value it stands for, and
  formatting twice is formatting once (for finite numbers and keys that are no array indices); a text
  that is not JSON is left alone.
\<close>

theorem format_keeps_value:
  assumes "json_read (np_json s) = Some v" and "plain_json v"
  shows "json_read (np_json (handleFormat s)) = Some v \<and>
    np_json (handleFormat (handleFormat s)) = np_json (handleFormat s)"
  using assms by (simp add: handleFormat_def np_post_def read_written)

theorem format_keeps_value_witness:
  "json_read (np_json (handleFormat ((fresh_plan (fresh_toaster 0))\<lparr> np_json := ''[ true,\"a\"]'' \<rparr>))) = Some (JArr [JBool True, JStr ''a''])"
proof -
  have "json_read ''[ true,\"a\"]'' = Some (JArr [JBool True, JStr ''a''])" by code_simp
  then show ?thesis
    using format_keeps_value [of "(fresh_plan (fresh_toaster 0))\<lparr> np_json := ''[ true,\"a\"]'' \<rparr>"] by simp
qed

text \<open>
  The browser's message is lost where it holds no colon: the page then says that the JSON is invalid
  and nothing else.
\<close>

lemma syntax_message_lost:
  assumes "str_includes e ''JSON''" and "CHR '':'' \<notin> set e"
  shows "plan_error e = ''Invalid JSON: ''"
  using assms by (simp add: plan_error_def)

end
