(* ===== verification/DriftScan.thy ===== *)
theory DriftScan
  imports PlanJson Toast
begin

text \<open>
  \<^verbatim>\<open>frontend/src/pages/DriftScanPage.tsx\<close>: the page that sends a plan for a read-only parity check
  and shows the report. The browser's syntax error message and the locale's number formatting are
  parameters. Styling and icons are not modelled.
\<close>

section \<open>State and handlers\<close>

record drift_page =
  ds_json :: string
  ds_error :: string
  ds_scanning :: bool
  ds_report :: "drift_report option"
  ds_calls :: "json list"
  ds_toaster :: toaster
  ds_mounted :: bool

definition fresh_drift :: "toaster \<Rightarrow> drift_page" where
  "fresh_drift t =
     \<lparr> ds_json = json_write (plan_json DEMO_PLAN), ds_error = [], ds_scanning = False, ds_report = None,
       ds_calls = [], ds_toaster = t, ds_mounted = True \<rparr>"

definition ds_post :: "toast_type \<Rightarrow> string \<Rightarrow> drift_page \<Rightarrow> drift_page" where
  "ds_post k m s = s\<lparr> ds_toaster := toast k m (ds_toaster s) \<rparr>"

definition scan_failed :: "string \<Rightarrow> drift_page \<Rightarrow> drift_page" where
  "scan_failed e s = (ds_post Toast_error e (s\<lparr> ds_error := e \<rparr>))\<lparr> ds_scanning := False \<rparr>"

definition handleScan :: "(string \<Rightarrow> string) \<Rightarrow> drift_page \<Rightarrow> drift_page" where
  "handleScan msg s =
     (let s' = s\<lparr> ds_error := [], ds_report := None, ds_scanning := True \<rparr>
      in case json_parse msg (ds_json s) of
          Inl e \<Rightarrow> scan_failed e s'
        | Inr plan \<Rightarrow> s'\<lparr> ds_calls := ds_calls s' @ [plan] \<rparr>)"

definition scan_done :: "drift_report result \<Rightarrow> drift_page \<Rightarrow> drift_page" where
  "scan_done r s =
     (case r of
        Inr res \<Rightarrow> (ds_post Toast_success ''Drift scan completed'' (s\<lparr> ds_report := Some res \<rparr>))\<lparr> ds_scanning := False \<rparr>
      | Inl e \<Rightarrow> scan_failed e s)"

section \<open>What is shown\<close>

definition parity_color :: "number \<Rightarrow> string" where
  "parity_color p =
     (if js_le (fl (999 / 1000)) p then ''var(--success)''
      else if js_le (fl (99 / 100)) p then ''var(--warning)'' else ''var(--danger)'')"

definition parity_fill :: "number \<Rightarrow> string" where
  "parity_fill p =
     (if js_le (fl (999 / 1000)) p then ''var(--gradient-success)''
      else if js_le (fl (99 / 100)) p then ''var(--gradient-primary)'' else ''var(--gradient-danger)'')"

definition parity_text :: "number \<Rightarrow> string" where
  "parity_text p = to_fixed 1 (js_mul p (Fin 100)) @ ''%''"

record report_view =
  rp_total :: string
  rp_nulls :: "string \<times> string"
  rp_drifted :: "string \<times> string"
  rp_parity :: "string \<times> string"
  rp_bar_now :: number
  rp_bar_width :: number
  rp_bar_fill :: string
  rp_table :: string
  rp_column :: string
  rp_status :: "string \<times> string"

definition clean :: "drift_report \<Rightarrow> bool" where
  "clean r \<longleftrightarrow> js_eq (dr_drifted r) (Fin 0) \<and> js_eq (dr_nulls r) (Fin 0)"

definition report_of :: "(number \<Rightarrow> string) \<Rightarrow> drift_report \<Rightarrow> report_view" where
  "report_of loc r =
     \<lparr> rp_total = loc (dr_total r),
       rp_nulls = (loc (dr_nulls r), if js_lt (Fin 0) (dr_nulls r) then ''var(--warning)'' else ''var(--success)''),
       rp_drifted = (loc (dr_drifted r), if js_lt (Fin 0) (dr_drifted r) then ''var(--danger)'' else ''var(--success)''),
       rp_parity = (parity_text (dr_parity r), parity_color (dr_parity r)),
       rp_bar_now = js_round (js_mul (dr_parity r) (Fin 100)),
       rp_bar_width = js_min (js_mul (dr_parity r) (Fin 100)) (Fin 100),
       rp_bar_fill = parity_fill (dr_parity r),
       rp_table = dr_table r,
       rp_column = dr_column r,
       rp_status = (if clean r then (''Clean'', ''var(--success)'') else (''Drift Detected'', ''var(--danger)'')) \<rparr>"

record drift_view =
  dw_button :: "string \<times> bool"
  dw_error :: "string option"
  dw_columns :: string
  dw_json :: string
  dw_report :: "report_view option"

definition DriftScanPage :: "(number \<Rightarrow> string) \<Rightarrow> drift_page \<Rightarrow> drift_view" where
  "DriftScanPage loc s =
     \<lparr> dw_button = (if ds_scanning s then ''Scanning...'' else ''Run Scan'', ds_scanning s),
       dw_error = (if ds_error s = [] then None else Some (ds_error s)),
       dw_columns = (if ds_report s = None then ''1fr'' else ''1fr 1fr''),
       dw_json = ds_json s,
       dw_report = map_option (report_of loc) (ds_report s) \<rparr>"

section \<open>Events\<close>

datatype drift_event = S_edit string | S_scan | S_scanned json "drift_report result" | S_leave

fun ds_enabled :: "drift_page \<Rightarrow> drift_event \<Rightarrow> bool" where
  "ds_enabled s (S_edit v) \<longleftrightarrow> ds_mounted s"
| "ds_enabled s S_scan \<longleftrightarrow> ds_mounted s \<and> \<not> ds_scanning s"
| "ds_enabled s (S_scanned p r) \<longleftrightarrow> p \<in> set (ds_calls s)"
| "ds_enabled s S_leave \<longleftrightarrow> ds_mounted s"

fun ds_handle :: "(string \<Rightarrow> string) \<Rightarrow> drift_page \<Rightarrow> drift_event \<Rightarrow> drift_page" where
  "ds_handle msg s (S_edit v) = s\<lparr> ds_json := v \<rparr>"
| "ds_handle msg s S_scan = handleScan msg s"
| "ds_handle msg s (S_scanned p r) = scan_done r (s\<lparr> ds_calls := remove1 p (ds_calls s) \<rparr>)"
| "ds_handle msg s S_leave = s\<lparr> ds_mounted := False \<rparr>"

definition drift_step :: "(string \<Rightarrow> string) \<Rightarrow> drift_page \<Rightarrow> drift_event \<Rightarrow> drift_page" where
  "drift_step msg s ev = (if ds_enabled s ev then ds_handle msg s ev else s)"

section \<open>What every run keeps\<close>

definition scan_ok :: "drift_page \<Rightarrow> bool" where
  "scan_ok s \<longleftrightarrow>
     length (ds_calls s) = (if ds_scanning s then 1 else 0) \<and>
     (ds_error s = [] \<or> ds_report s = None) \<and>
     (ds_scanning s \<longrightarrow> ds_error s = [] \<and> ds_report s = None)"

lemmas ds_defs = handleScan_def scan_done_def scan_failed_def ds_post_def Let_def

lemma scan_ok_failed:
  "ds_calls s = [] \<Longrightarrow> ds_report s = None \<Longrightarrow> scan_ok (scan_failed e s)"
  by (simp add: scan_ok_def scan_failed_def ds_post_def)

lemma scan_ok_handleScan: "ds_calls s = [] \<Longrightarrow> scan_ok (handleScan msg s)"
  unfolding handleScan_def Let_def
  by (cases "json_parse msg (ds_json s)") (simp_all add: scan_ok_failed, simp add: scan_ok_def)

lemma scan_ok_done:
  "ds_calls s = [] \<Longrightarrow> ds_error s = [] \<Longrightarrow> ds_report s = None \<Longrightarrow> scan_ok (scan_done r s)"
  by (cases r) (simp_all add: scan_done_def scan_ok_failed, simp add: scan_ok_def ds_post_def)

lemma scan_ok_step: "scan_ok s \<Longrightarrow> scan_ok (drift_step msg s ev)"
proof (cases "ds_enabled s ev")
  case True
  assume ok: "scan_ok s"
  show ?thesis
  proof (cases ev)
    case S_scan
    then have "ds_calls s = []" using ok True by (simp add: scan_ok_def)
    then show ?thesis using True by (simp add: S_scan drift_step_def scan_ok_handleScan)
  next
    case (S_scanned p r)
    then have "ds_calls s = [p]" "ds_scanning s"
      using ok True by (auto simp: scan_ok_def length_Suc_conv split: if_splits)
    moreover from this have "ds_error s = []" "ds_report s = None" using ok by (simp_all add: scan_ok_def)
    ultimately show ?thesis using True by (simp add: S_scanned drift_step_def scan_ok_done)
  qed (use ok True in \<open>simp_all add: drift_step_def scan_ok_def\<close>)
qed (simp add: drift_step_def)

interpretation drift_run: run_invariant "drift_step msg" scan_ok for msg
  by unfold_locales (rule scan_ok_step)

text \<open>A parity just below one.\<close>

lemma parity_rounds:
  assumes "9996 / 10000 \<le> p" and "p \<le> 1"
  shows "\<exists>x. js_mul (Fin p) (Fin 100) = Fin x \<and> 99 + 61 / 64 \<le> x \<and> x \<le> 100"
proof -
  have "fl (of_nat 6397 * pow2 (- 6)) = Fin (of_nat 6397 * pow2 (- 6))" by (rule fl_exact) simp_all
  then have e: "fl (6397 / 64) = Fin (6397 / 64)" by (simp add: pow2_def)
  have "js_le (fl (6397 / 64)) (fl (p * 100))" "js_le (fl (p * 100)) (fl 100)"
    using assms by (intro fl_mono; simp)+
  then obtain x where "fl (p * 100) = Fin x" "6397 / 64 \<le> x" "x \<le> 100"
    unfolding e fl_100 using js_le_between by blast
  then show ?thesis by simp
qed

lemma fixed_99_96: "99 + 61 / 64 \<le> x \<Longrightarrow> x \<le> 100 \<Longrightarrow> to_fixed 1 (Fin x) = ''100.0''"
proof -
  assume x: "99 + 61 / 64 \<le> x" "x \<le> 100"
  have "\<lfloor>x * 10 + 1 / 2\<rfloor> = 1000"
    using x by (simp add: floor_eq_iff)
  then have "fixed_nat 1 x = 1000" by (simp add: fixed_nat_def)
  moreover have "fixed_text 1 1000 = ''100.0''" by code_simp
  ultimately show ?thesis using x by simp
qed

section \<open>Properties\<close>

text \<open>
  C31: one scan at a time, and its outcome is clear: after any run at most one request is in flight,
  exactly while the button says so; an error and a report are never shown together, and neither is
  shown during a scan.
\<close>

theorem drift_outcome_clear:
  assumes "s = foldl (drift_step msg) (fresh_drift t) evs"
  shows "length (ds_calls s) = (if snd (dw_button (DriftScanPage loc s)) then 1 else 0) \<and>
    (dw_error (DriftScanPage loc s) = None \<or> dw_report (DriftScanPage loc s) = None) \<and>
    (snd (dw_button (DriftScanPage loc s)) \<longrightarrow>
       dw_error (DriftScanPage loc s) = None \<and> dw_report (DriftScanPage loc s) = None)"
proof -
  have "scan_ok (fresh_drift t)" by (simp add: scan_ok_def fresh_drift_def)
  then have "scan_ok s" unfolding assms by (rule drift_run.run_inv)
  then show ?thesis by (auto simp: scan_ok_def DriftScanPage_def)
qed

theorem drift_outcome_clear_witness:
  "dw_report (DriftScanPage num_text (foldl (drift_step (\<lambda>_. ''bad JSON'')) (fresh_drift (fresh_toaster 0)) [S_edit ''x'', S_scan])) = None"
proof -
  let ?s = "foldl (drift_step (\<lambda>_. ''bad JSON'')) (fresh_drift (fresh_toaster 0)) [S_edit ''x'', S_scan]"
  have "json_read ''x'' = None" by code_simp
  then have "dw_error (DriftScanPage num_text ?s) = Some ''bad JSON''"
    by (simp add: drift_step_def fresh_drift_def ds_defs json_parse_def DriftScanPage_def)
  then show ?thesis
    using drift_outcome_clear [of ?s "\<lambda>_. ''bad JSON''" "fresh_toaster 0" "[S_edit ''x'', S_scan]" num_text] by simp
qed

text \<open>
  A small drift reads as full parity. A parity of at least 0.9996 is shown as 100.0% on a green
  bar; the same report with a drifted row says that drift was detected.
\<close>

theorem small_drift_reads_full:
  assumes "9996 / 10000 \<le> p" and "p \<le> 1" and "dr_parity r = Fin p" and "js_lt (Fin 0) (dr_drifted r)"
  shows "fst (rp_parity (report_of loc r)) = ''100.0%'' \<and>
    rp_status (report_of loc r) = (''Drift Detected'', ''var(--danger)'')"
proof -
  obtain x where x: "js_mul (Fin p) (Fin 100) = Fin x" "99 + 61 / 64 \<le> x" "x \<le> 100"
    using parity_rounds [OF assms(1,2)] by blast
  have "parity_text (Fin p) = ''100.0%''"
    using fixed_99_96 [OF x(2,3)] by (simp only: parity_text_def x(1)) simp
  moreover have "\<not> clean r" using assms(4) by (cases "dr_drifted r") (auto simp: clean_def)
  ultimately show ?thesis using assms(3) by (simp add: report_of_def)
qed

theorem small_drift_reads_full_witness:
  "fst (rp_parity (report_of num_text \<lparr> dr_table = ''t'', dr_column = ''c'', dr_total = Fin 10000,
      dr_nulls = Fin 0, dr_drifted = Fin 3, dr_parity = Fin (9997 / 10000) \<rparr>)) = ''100.0%''"
  using small_drift_reads_full [of "9997 / 10000"] by simp

end
