(* ===== verification/Base64.thy ===== *)
theory Base64
  imports Json
begin

text \<open>
  The browser's \<^verbatim>\<open>atob\<close>, with which \<^verbatim>\<open>frontend/src/App.tsx\<close> reads the role out of a stored token, and
  as its counterpart the encoding a token's parts have (base64url without padding, RFC 4648 and 7515).
  A decoded byte is a character below 256. The theorem says for which texts the first undoes the second.
\<close>

section \<open>The forgiving decoder\<close>

text \<open>\<^verbatim>\<open>atob\<close> drops ASCII white space, but not the vertical tab.\<close>

definition b64_ws :: "char \<Rightarrow> bool" where
  "b64_ws c \<longleftrightarrow> c \<in> {CHR 0x09, CHR 0x0A, CHR 0x0C, CHR 0x0D, CHR '' ''}"

definition b64_val :: "char \<Rightarrow> nat option" where
  "b64_val c =
     (let n = (of_char c :: nat)
      in if 65 \<le> n \<and> n \<le> 90 then Some (n - 65)
         else if 97 \<le> n \<and> n \<le> 122 then Some (n - 71)
         else if 48 \<le> n \<and> n \<le> 57 then Some (n + 4)
         else if n = 43 then Some 62 else if n = 47 then Some 63 else None)"

definition drop_pad :: "string \<Rightarrow> string" where
  "drop_pad s = (if length s mod 4 = 0 then strip_last CHR ''='' (strip_last CHR ''='' s) else s)"

fun bytes_of :: "nat list \<Rightarrow> string" where
  "bytes_of (a # b # c # d # r) =
     char_of (a * 4 + b div 16) # char_of ((b mod 16) * 16 + c div 4) # char_of ((c mod 4) * 64 + d) # bytes_of r"
| "bytes_of [a, b, c] = [char_of (a * 4 + b div 16), char_of ((b mod 16) * 16 + c div 4)]"
| "bytes_of [a, b] = [char_of (a * 4 + b div 16)]"
| "bytes_of _ = []"

text \<open>\<open>None\<close> is the \<^verbatim>\<open>InvalidCharacterError\<close>.\<close>

definition atob :: "string \<Rightarrow> string option" where
  "atob s =
     (let t = drop_pad (filter (\<lambda>c. \<not> b64_ws c) s)
      in if length t mod 4 = 1 \<or> (\<exists>c \<in> set t. b64_val c = None) then None
         else Some (bytes_of (map (\<lambda>c. the (b64_val c)) t)))"

section \<open>The encoding of a token's parts\<close>

fun sextets :: "nat list \<Rightarrow> nat list" where
  "sextets (x # y # z # r) =
     x div 4 # ((x mod 4) * 16 + y div 16) # ((y mod 16) * 4 + z div 64) # z mod 64 # sextets r"
| "sextets [x, y] = [x div 4, (x mod 4) * 16 + y div 16, (y mod 16) * 4]"
| "sextets [x] = [x div 4, (x mod 4) * 16]"
| "sextets [] = []"

definition url_digit :: "nat \<Rightarrow> char" where
  "url_digit n =
     (if n < 26 then char_of (n + 65) else if n < 52 then char_of (n + 71)
      else if n < 62 then char_of (n - 4) else if n = 62 then CHR ''-'' else CHR ''_'')"

definition base64url :: "string \<Rightarrow> string" where
  "base64url s = map url_digit (sextets (map of_char s))"

section \<open>Decoding what was encoded\<close>

lemma of_char_less [simp]: "(of_char c :: nat) < 256"
  using of_char_mod_256 [of c, where 'a = nat] mod_less_divisor [of 256 "of_char c :: nat"] by simp

lemma of_char_of_small: "n < 256 \<Longrightarrow> of_char (char_of n :: char) = (n :: nat)"
  by simp

lemma url_digit_val: "n < 64 \<Longrightarrow> b64_val (url_digit n) = (if n < 62 then Some n else None)"
  by (auto simp: url_digit_def b64_val_def Let_def)

lemma url_digit_plain: "n < 64 \<Longrightarrow> \<not> b64_ws (url_digit n) \<and> url_digit n \<noteq> CHR ''='' \<and> url_digit n \<noteq> CHR ''.''"
proof -
  assume n: "n < 64"
  have "(of_char (url_digit n) :: nat) \<notin> {9, 10, 12, 13, 32, 61, 46}"
    using n by (auto simp: url_digit_def)
  then show ?thesis by (auto simp: b64_ws_def)
qed

lemma sextets_small: "\<forall>x \<in> set xs. x < 256 \<Longrightarrow> \<forall>n \<in> set (sextets xs). n < 64"
  by (induction xs rule: sextets.induct) auto

lemma length_sextets: "length (sextets xs) mod 4 \<noteq> 1"
  by (induction xs rule: sextets.induct) auto

lemma regroup:
  assumes "(x :: nat) < 256" and "y < 256" and "z < 256"
  shows "x div 4 * 4 + ((x mod 4) * 16 + y div 16) div 16 = x"
    and "((x mod 4) * 16 + y div 16) mod 16 * 16 + ((y mod 16) * 4 + z div 64) div 4 = y"
    and "((y mod 16) * 4 + z div 64) mod 4 * 64 + z mod 64 = z"
proof -
  have d: "x div 4 * 4 + x mod 4 = x" "y div 16 * 16 + y mod 16 = y" "z div 64 * 64 + z mod 64 = z"
    by (rule div_mult_mod_eq)+
  have s: "y div 16 < 16" "z div 64 < 4" using assms by auto
  then show "x div 4 * 4 + ((x mod 4) * 16 + y div 16) div 16 = x"
    "((x mod 4) * 16 + y div 16) mod 16 * 16 + ((y mod 16) * 4 + z div 64) div 4 = y"
    "((y mod 16) * 4 + z div 64) mod 4 * 64 + z mod 64 = z"
    using d by auto
qed

lemma bytes_of_sextets: "\<forall>x \<in> set xs. x < 256 \<Longrightarrow> bytes_of (sextets xs) = map char_of xs"
proof (induction xs rule: sextets.induct)
  case (1 x y z r)
  then show ?case using regroup [of x y z] by simp
next
  case (2 x y)
  then show ?case using regroup [of x y 0] by simp
next
  case (3 x)
  then show ?case using regroup [of x 0 0] by simp
qed simp

lemma drop_pad_plain: "CHR ''='' \<notin> set s \<Longrightarrow> drop_pad s = s"
  by (auto simp: drop_pad_def strip_last_def dest: last_in_set)

lemma base64url_chars:
  assumes "c \<in> set (base64url s)"
  shows "\<not> b64_ws c \<and> c \<noteq> CHR ''='' \<and> c \<noteq> CHR ''.''"
proof -
  have "\<forall>x \<in> set (map of_char s :: nat list). x < 256" by simp
  then have "\<forall>n \<in> set (sextets (map of_char s)). n < 64" by (rule sextets_small)
  then show ?thesis using assms url_digit_plain by (auto simp: base64url_def)
qed

lemma atob_base64url:
  "atob (base64url s) = (if \<forall>n \<in> set (sextets (map of_char s)). n < 62 then Some s else None)"
proof -
  let ?xs = "map of_char s :: nat list"
  have small: "\<forall>x \<in> set ?xs. x < 256" by simp
  note lt = sextets_small [OF small]
  have "filter (\<lambda>c. \<not> b64_ws c) (base64url s) = base64url s"
    using base64url_chars by (simp add: filter_id_conv)
  moreover have "drop_pad (base64url s) = base64url s"
    using base64url_chars by (intro drop_pad_plain) blast
  moreover have "length (base64url s) mod 4 \<noteq> 1" using length_sextets by (simp add: base64url_def)
  moreover have "(\<exists>c \<in> set (base64url s). b64_val c = None) \<longleftrightarrow> \<not> (\<forall>n \<in> set (sextets ?xs). n < 62)"
    using lt by (auto simp: base64url_def url_digit_val split: if_splits)
  moreover have "map (\<lambda>c. the (b64_val c)) (base64url s) = sextets ?xs" if "\<forall>n \<in> set (sextets ?xs). n < 62"
    using lt that by (auto simp: base64url_def url_digit_val intro: map_idI)
  ultimately show ?thesis
    using bytes_of_sextets [OF small] by (auto simp: atob_def Let_def o_def)
qed

text \<open>In ASCII the two digits outside the decoder's alphabet come from four characters only.\<close>

definition jwt_safe :: "char \<Rightarrow> bool" where
  "jwt_safe c \<longleftrightarrow> (of_char c :: nat) < 128 \<and> c \<notin> {CHR ''>'', CHR ''?'', CHR ''~'', CHR 0x7F}"

lemma low_bits: "(z :: nat) < 128 \<Longrightarrow> z \<noteq> 62 \<Longrightarrow> z \<noteq> 63 \<Longrightarrow> z \<noteq> 126 \<Longrightarrow> z \<noteq> 127 \<Longrightarrow> z mod 64 < 62"
  by (cases "z < 64") (simp_all add: mod_if [of z])

lemma char_code_iff: "c = d \<longleftrightarrow> (of_char c :: nat) = of_char d"
  by (auto intro: char_eqI)

lemma safe_sextets:
  "\<forall>x \<in> set xs. x < 128 \<and> x \<notin> {62, 63, 126, 127} \<Longrightarrow> \<forall>n \<in> set (sextets xs). n < 62"
proof (induction xs rule: sextets.induct)
  case (1 x y z r)
  have "z mod 64 < 62"
    using 1 by (intro low_bits) auto
  moreover have "x div 4 < 32" "y div 16 < 8" "z div 64 < 2" using 1 by auto
  moreover have "(y mod 16) * 4 \<le> 60" "(x mod 4) * 16 \<le> 48" by auto
  ultimately show ?case using 1 by auto
qed auto

lemma atob_safe: "\<forall>c \<in> set s. jwt_safe c \<Longrightarrow> atob (base64url s) = Some s"
proof -
  assume s: "\<forall>c \<in> set s. jwt_safe c"
  have "(of_char c :: nat) \<notin> {62, 63, 126, 127}" if "jwt_safe c" for c
    using that by (auto simp: jwt_safe_def char_code_iff [of c])
  then have "\<forall>n \<in> set (sextets (map of_char s)). n < 62"
    using s by (intro safe_sextets) (auto simp: jwt_safe_def)
  then show ?thesis by (simp add: atob_base64url)
qed

section \<open>Properties\<close>

text \<open>
  The decoder reads back a token's part exactly when its encoding has neither \<^verbatim>\<open>-\<close> nor \<^verbatim>\<open>_\<close>: it returns
  the text then and raises otherwise, whatever the bytes are.
\<close>

theorem atob_reads_token_part:
  "atob (base64url s) = (if CHR ''-'' \<in> set (base64url s) \<or> CHR ''_'' \<in> set (base64url s) then None else Some s)"
proof -
  have "\<forall>x \<in> set (map of_char s :: nat list). x < 256" by simp
  note lt = sextets_small [OF this]
  have "url_digit n \<in> {CHR ''-'', CHR ''_''} \<longleftrightarrow> 62 \<le> n" if "n < 64" for n
  proof -
    have "(of_char (url_digit n) :: nat) \<in> {45, 95} \<longleftrightarrow> 62 \<le> n" using that by (auto simp: url_digit_def)
    then show ?thesis by (simp add: char_code_iff [of "url_digit n"])
  qed
  then have digit: "url_digit n \<in> {CHR ''-'', CHR ''_''} \<longleftrightarrow> \<not> n < 62" if "n \<in> set (sextets (map of_char s))" for n
    using lt that by (simp add: not_less)
  have "(CHR ''-'' \<in> set (base64url s) \<or> CHR ''_'' \<in> set (base64url s)) \<longleftrightarrow>
      (\<exists>c \<in> set (base64url s). c \<in> {CHR ''-'', CHR ''_''})" by blast
  also have "\<dots> \<longleftrightarrow> (\<exists>n \<in> set (sextets (map of_char s)). url_digit n \<in> {CHR ''-'', CHR ''_''})"
    by (simp add: base64url_def)
  also have "\<dots> \<longleftrightarrow> \<not> (\<forall>n \<in> set (sextets (map of_char s)). n < 62)" using digit by blast
  finally have "(CHR ''-'' \<in> set (base64url s) \<or> CHR ''_'' \<in> set (base64url s)) \<longleftrightarrow>
      \<not> (\<forall>n \<in> set (sextets (map of_char s)). n < 62)" .
  then show ?thesis by (simp add: atob_base64url)
qed

end
