(* ===== verification/Session.thy ===== *)
theory Session
  imports Base64 Api Toast
begin

text \<open>
  \<^verbatim>\<open>frontend/src/App.tsx\<close> with the handlers of \<^verbatim>\<open>frontend/src/pages/LoginPage.tsx\<close>: who is signed in.
  The state is App's three hooks, the API client (whose local storage outlives a reload), the login
  page's hooks while it is mounted, its calls in flight, the address and the toasts. One rule per event;
  an event is possible where the code renders the control that raises it and does not disable it.
  What the network answers, the router's matching and the pages themselves are parameters. Another tab
  writing to the storage is not modelled.
\<close>

section \<open>State\<close>

record login_page =
  lp_username :: string
  lp_password :: string
  lp_loading :: bool
  lp_error :: string
  lp_showLogin :: bool

definition fresh_login :: login_page where
  "fresh_login = \<lparr> lp_username = [], lp_password = [], lp_loading = False, lp_error = [], lp_showLogin = False \<rparr>"

text \<open>A pending call of \<^verbatim>\<open>api.login\<close>: the handler that waits for it, user name and password.\<close>

datatype login_call = By_form string string | By_demo string string

record session =
  se_client :: api_client
  se_auth :: bool
  se_role :: "json option"
  se_wizard :: bool
  se_login :: login_page
  se_calls :: "login_call list"
  se_path :: string
  se_toaster :: toaster

definition ONBOARDED_KEY :: string where
  "ONBOARDED_KEY = ''mse_onboarded''"

text \<open>A property read of a decoded value: \<^verbatim>\<open>undefined\<close> unless an object has it, a \<^verbatim>\<open>TypeError\<close> on null.\<close>

fun role_of :: "json \<Rightarrow> json option result" where
  "role_of JNull = Inl ''Cannot read properties of null (reading 'role')''"
| "role_of (JObj m) = Inr (om_get m ''role'')"
| "role_of v = Inr None"

text \<open>\<^verbatim>\<open>token.split('.')[1]\<close>; a missing part is passed to \<^verbatim>\<open>atob\<close> as the text \<^verbatim>\<open>undefined\<close>.\<close>

definition token_part :: "string \<Rightarrow> string" where
  "token_part tok = (case split_on CHR ''.'' tok of _ # p # _ \<Rightarrow> p | _ \<Rightarrow> ''undefined'')"

definition token_role :: "string \<Rightarrow> json option" where
  "token_role tok =
     (case atob (token_part tok) of
        None \<Rightarrow> Some (JStr ''viewer'')
      | Some text \<Rightarrow>
          (case json_read text of
             None \<Rightarrow> Some (JStr ''viewer'')
           | Some payload \<Rightarrow> (case role_of payload of Inl _ \<Rightarrow> Some (JStr ''viewer'') | Inr r \<Rightarrow> r)))"

section \<open>Handlers of App\<close>

text \<open>The effect of the first render.\<close>

definition load_effect :: "session \<Rightarrow> session" where
  "load_effect s =
     (let (tok, c) = getToken (se_client s); s' = s\<lparr> se_client := c \<rparr>
      in if truthy_str tok then s'\<lparr> se_auth := True, se_role := token_role (the tok) \<rparr> else s')"

definition open_app :: "(string \<Rightarrow> string option) \<Rightarrow> string \<Rightarrow> nat \<Rightarrow> session" where
  "open_app storage path now =
     load_effect \<lparr> se_client = fresh_client storage, se_auth = False, se_role = None, se_wizard = False,
       se_login = fresh_login, se_calls = [], se_path = path, se_toaster = fresh_toaster now \<rparr>"

definition handleLogin :: "string option \<Rightarrow> session \<Rightarrow> session" where
  "handleLogin role s =
     (let s' = s\<lparr> se_auth := True, se_role := map_option JStr role \<rparr>
      in if truthy_str (ac_storage (se_client s) ONBOARDED_KEY) then s' else s'\<lparr> se_wizard := True \<rparr>)"

text \<open>Signing out mounts a new login page.\<close>

definition handleLogout :: "session \<Rightarrow> session" where
  "handleLogout s =
     s\<lparr> se_client := logout (se_client s), se_auth := False, se_role := None, se_login := fresh_login \<rparr>"

definition handleOnboardingComplete :: "session \<Rightarrow> session" where
  "handleOnboardingComplete s =
     s\<lparr> se_client := (se_client s)\<lparr> ac_storage := (ac_storage (se_client s))(ONBOARDED_KEY := Some ''1'') \<rparr>,
        se_wizard := False \<rparr>"

section \<open>Handlers of the login page\<close>

definition se_post :: "toast_type \<Rightarrow> string \<Rightarrow> session \<Rightarrow> session" where
  "se_post k m s = s\<lparr> se_toaster := toast k m (se_toaster s) \<rparr>"

definition se_page :: "(login_page \<Rightarrow> login_page) \<Rightarrow> session \<Rightarrow> session" where
  "se_page f s = s\<lparr> se_login := f (se_login s) \<rparr>"

definition handleSubmit :: "session \<Rightarrow> session" where
  "handleSubmit s =
     (se_page (\<lambda>l. l\<lparr> lp_loading := True, lp_error := [] \<rparr>) s)
       \<lparr> se_calls := se_calls s @ [By_form (lp_username (se_login s)) (lp_password (se_login s))] \<rparr>"

definition handleInstantDemo :: "session \<Rightarrow> session" where
  "handleInstantDemo s =
     (se_page (\<lambda>l. l\<lparr> lp_loading := True \<rparr>) s)\<lparr> se_calls := se_calls s @ [By_demo ''admin'' ''admin123''] \<rparr>"

text \<open>What both do once the call succeeded: tell the user, sign in, go to the dashboard.\<close>

definition signed_in :: "string \<Rightarrow> string option \<Rightarrow> session \<Rightarrow> session" where
  "signed_in m role s = (handleLogin role (se_post Toast_success m s))\<lparr> se_path := ''/'' \<rparr>"

definition role_text :: "string option \<Rightarrow> string" where
  "role_text r = (case r of Some t \<Rightarrow> t | None \<Rightarrow> ''undefined'')"

fun login_settled :: "login_call \<Rightarrow> login_reply response result \<Rightarrow> session \<Rightarrow> session" where
  "login_settled (By_form u p) resp s =
     se_page (\<lambda>l. l\<lparr> lp_loading := False \<rparr>)
       (case login (\<lambda>_. resp) u p (se_client s) of
          (Inr res, c) \<Rightarrow> signed_in (''Logged in as '' @ role_text (lr_role res)) (lr_role res) (s\<lparr> se_client := c \<rparr>)
        | (Inl e, c) \<Rightarrow> se_post Toast_error e (se_page (\<lambda>l. l\<lparr> lp_error := e \<rparr>) (s\<lparr> se_client := c \<rparr>)))"
| "login_settled (By_demo u p) resp s =
     se_page (\<lambda>l. l\<lparr> lp_loading := False \<rparr>)
       (case login (\<lambda>_. resp) u p (se_client s) of
          (Inr res, c) \<Rightarrow> signed_in ''Sandbox loaded'' (lr_role res) (s\<lparr> se_client := c \<rparr>)
        | (Inl e, c) \<Rightarrow> se_post Toast_error e (s\<lparr> se_client := c \<rparr>))"

section \<open>What is shown\<close>

datatype page = Page_Dashboard | Page_MigrationDetail | Page_NewPlan | Page_DriftScan | Page_NotFound

definition App_routes :: "(string \<times> page) list" where
  "App_routes =
     [(''/'', Page_Dashboard), (''/migrations/:id'', Page_MigrationDetail), (''/plans/new'', Page_NewPlan),
      (''/drift-scan'', Page_DriftScan), (''*'', Page_NotFound)]"

definition nav_links :: "(string \<times> string) list" where
  "nav_links =
     [(''MSE'', ''/''), (''Migrations'', ''/''), (''New Plan'', ''/plans/new''), (''Drift Scan'', ''/drift-scan'')]"

text \<open>The sign-in form of the login page: error banner, fields, button.\<close>

record login_form =
  lf_error :: "string option"
  lf_fields :: "string \<times> string"
  lf_button :: "string \<times> bool"

record login_view =
  lv_hero_demo :: "string option \<times> bool"
  lv_bottom_demo :: "string option \<times> bool"
  lv_form :: "login_form option"

definition LoginPage :: "login_page \<Rightarrow> login_view" where
  "LoginPage l =
     \<lparr> lv_hero_demo = (if lp_loading l then None else Some ''Launch Sandbox Demo'', lp_loading l),
       lv_bottom_demo = (if lp_loading l then None else Some ''Launch Instant Sandbox Demo'', lp_loading l),
       lv_form =
         (if lp_showLogin l then
            Some \<lparr> lf_error = (if lp_error l = [] then None else Some (lp_error l)),
                   lf_fields = (lp_username l, lp_password l),
                   lf_button = (if lp_loading l then ''Signing in...'' else ''Sign In'', lp_loading l) \<rparr>
          else None) \<rparr>"

datatype app_view =
    Shows_login login_view
  | Shows_app (av_wizard: bool) (av_links: "(string \<times> string) list") (av_role: string) (av_page: page)

text \<open>
  React shows a text or number as it is and nothing for a boolean or \<^verbatim>\<open>null\<close>, shows the members of an
  array one after the other, and throws on an object; the text of that error, which depends on React's
  build, is the parameter \<open>cerr\<close>.
\<close>

fun react_text :: "(json \<Rightarrow> string) \<Rightarrow> json \<Rightarrow> string result"
  and react_texts :: "(json \<Rightarrow> string) \<Rightarrow> json list \<Rightarrow> string result" where
  "react_text cerr JNull = Inr []"
| "react_text cerr (JBool b) = Inr []"
| "react_text cerr (JNum n) = Inr (num_text n)"
| "react_text cerr (JStr t) = Inr t"
| "react_text cerr (JArr vs) = react_texts cerr vs"
| "react_text cerr (JObj m) = Inl (cerr (JObj m))"
| "react_texts cerr [] = Inr []"
| "react_texts cerr (v # vs) =
     bind_result (react_text cerr v) (\<lambda>t. bind_result (react_texts cerr vs) (\<lambda>u. Inr (t @ u)))"

definition role_shown :: "(json \<Rightarrow> string) \<Rightarrow> session \<Rightarrow> string result" where
  "role_shown cerr s = (case se_role s of None \<Rightarrow> Inr [] | Some v \<Rightarrow> react_text cerr v)"

text \<open>What the router shows for the address: \<open>pick\<close> stands for its matching.\<close>

definition App ::
  "(json \<Rightarrow> string) \<Rightarrow> ((string \<times> page) list \<Rightarrow> string \<Rightarrow> page) \<Rightarrow> session \<Rightarrow> app_view result" where
  "App cerr pick s =
     (if \<not> se_auth s then Inr (Shows_login (LoginPage (se_login s)))
      else bind_result (role_shown cerr s) (\<lambda>role.
        Inr (Shows_app (se_wizard s) nav_links role (pick App_routes (se_path s)))))"

section \<open>Steps\<close>

definition form_open :: "session \<Rightarrow> bool" where
  "form_open s \<longleftrightarrow> \<not> se_auth s \<and> lp_showLogin (se_login s)"

text \<open>
  The form's fields are \<^verbatim>\<open>required\<close>: the browser does not submit it while one is empty. The address can
  change at any time (links, the browser's own buttons, a page's delayed navigation), and so can the
  client's cache: a page that was left may still send a request.
\<close>

inductive app_step :: "session \<Rightarrow> session \<Rightarrow> bool" where
  Username: "form_open s \<Longrightarrow> app_step s (se_page (\<lambda>l. l\<lparr> lp_username := v \<rparr>) s)"
| Password: "form_open s \<Longrightarrow> app_step s (se_page (\<lambda>l. l\<lparr> lp_password := v \<rparr>) s)"
| Close: "form_open s \<Longrightarrow> app_step s (se_page (\<lambda>l. l\<lparr> lp_showLogin := False \<rparr>) s)"
| Submit: "form_open s \<Longrightarrow> \<not> lp_loading (se_login s) \<Longrightarrow> lp_username (se_login s) \<noteq> [] \<Longrightarrow>
    lp_password (se_login s) \<noteq> [] \<Longrightarrow> app_step s (handleSubmit s)"
| Demo: "\<not> se_auth s \<Longrightarrow> \<not> lp_loading (se_login s) \<Longrightarrow> app_step s (handleInstantDemo s)"
| Settled: "call \<in> set (se_calls s) \<Longrightarrow>
    app_step s (login_settled call resp (s\<lparr> se_calls := remove1 call (se_calls s) \<rparr>))"
| Complete: "se_auth s \<Longrightarrow> se_wizard s \<Longrightarrow> app_step s (handleOnboardingComplete s)"
| Logout: "se_auth s \<Longrightarrow> app_step s (handleLogout s)"
| Go: "app_step s (s\<lparr> se_path := path \<rparr>)"
| Api_call: "app_step s (s\<lparr> se_client := snd (getToken (se_client s)) \<rparr>)"
| Toasts: "app_step s (s\<lparr> se_toaster := toast_step (se_toaster s) ev \<rparr>)"
| Reload: "app_step s (open_app (ac_storage (se_client s)) (se_path s) now)"

inductive app_run :: "session \<Rightarrow> session \<Rightarrow> bool" where
  Start: "app_run s s"
| Step: "app_run s t \<Longrightarrow> app_step t u \<Longrightarrow> app_run s u"

section \<open>Events\<close>

text \<open>
  The same as labelled events: what the controls of App and of the login page raise, where they are on
  the screen, and what else happens to the session (\<open>Control\<close> apart).
\<close>

datatype app_event =
    Typed_username string
  | Typed_password string
  | Close_form
  | Submit_form
  | Demo_button
  | Login_settled login_call "login_reply response result"
  | Tour_complete
  | Logout_button

fun app_enabled :: "session \<Rightarrow> app_event \<Rightarrow> bool" where
  "app_enabled s (Typed_username v) \<longleftrightarrow> form_open s"
| "app_enabled s (Typed_password v) \<longleftrightarrow> form_open s"
| "app_enabled s Close_form \<longleftrightarrow> form_open s"
| "app_enabled s Submit_form \<longleftrightarrow> form_open s \<and> \<not> lp_loading (se_login s) \<and> lp_username (se_login s) \<noteq> [] \<and>
     lp_password (se_login s) \<noteq> []"
| "app_enabled s Demo_button \<longleftrightarrow> \<not> se_auth s \<and> \<not> lp_loading (se_login s)"
| "app_enabled s (Login_settled q resp) \<longleftrightarrow> q \<in> set (se_calls s)"
| "app_enabled s Tour_complete \<longleftrightarrow> se_auth s \<and> se_wizard s"
| "app_enabled s Logout_button \<longleftrightarrow> se_auth s"

fun app_handle :: "session \<Rightarrow> app_event \<Rightarrow> session" where
  "app_handle s (Typed_username v) = se_page (\<lambda>l. l\<lparr> lp_username := v \<rparr>) s"
| "app_handle s (Typed_password v) = se_page (\<lambda>l. l\<lparr> lp_password := v \<rparr>) s"
| "app_handle s Close_form = se_page (\<lambda>l. l\<lparr> lp_showLogin := False \<rparr>) s"
| "app_handle s Submit_form = handleSubmit s"
| "app_handle s Demo_button = handleInstantDemo s"
| "app_handle s (Login_settled q resp) = login_settled q resp (s\<lparr> se_calls := remove1 q (se_calls s) \<rparr>)"
| "app_handle s Tour_complete = handleOnboardingComplete s"
| "app_handle s Logout_button = handleLogout s"

datatype app_action =
    Control app_event
  | Address string
  | Client_call
  | Toaster_event toast_event
  | Page_reload nat

fun action_enabled :: "session \<Rightarrow> app_action \<Rightarrow> bool" where
  "action_enabled s (Control e) \<longleftrightarrow> app_enabled s e"
| "action_enabled s _ \<longleftrightarrow> True"

fun app_act :: "session \<Rightarrow> app_action \<Rightarrow> session" where
  "app_act s (Control e) = app_handle s e"
| "app_act s (Address path) = s\<lparr> se_path := path \<rparr>"
| "app_act s Client_call = s\<lparr> se_client := snd (getToken (se_client s)) \<rparr>"
| "app_act s (Toaster_event ev) = s\<lparr> se_toaster := toast_step (se_toaster s) ev \<rparr>"
| "app_act s (Page_reload now) = open_app (ac_storage (se_client s)) (se_path s) now"

end
