(* ===== verification/SessionProps.thy ===== *)
theory SessionProps
  imports Session
begin

text \<open>
  What every run of the session keeps, by rule induction over its steps: which credentials are sent,
  how being signed in, the stored token and the tour's flag are related, and that the whole is an
  implementation of an abstract gate.
\<close>

inductive_cases app_stepE: "app_step s t"

section \<open>The parts of a state\<close>

definition stored_token :: "session \<Rightarrow> string option" where
  "stored_token s = ac_storage (se_client s) TOKEN_KEY"

definition toured :: "session \<Rightarrow> bool" where
  "toured s \<longleftrightarrow> truthy_str (ac_storage (se_client s) ONBOARDED_KEY)"

definition demo_call :: login_call where
  "demo_call = By_demo ''admin'' ''admin123''"

definition session_ok :: "session \<Rightarrow> bool" where
  "session_ok s \<longleftrightarrow>
     \<not> lp_showLogin (se_login s) \<and>
     se_calls s = (if \<not> se_auth s \<and> lp_loading (se_login s) then [demo_call] else []) \<and>
     (truthy_str (stored_token s) \<longrightarrow> se_auth s) \<and>
     (truthy_str (ac_token (se_client s)) \<longrightarrow> stored_token s = ac_token (se_client s))"

lemmas session_defs = session_ok_def stored_token_def toured_def demo_call_def

lemma keys_differ [simp]: "ONBOARDED_KEY \<noteq> TOKEN_KEY" "TOKEN_KEY \<noteq> ONBOARDED_KEY"
  by (simp_all add: ONBOARDED_KEY_def TOKEN_KEY_def)

lemma ok_form: "session_ok s \<Longrightarrow> \<not> form_open s"
  by (simp add: session_ok_def form_open_def)

section \<open>Opening the page\<close>

lemma open_app_simps [simp]:
  "se_login (open_app storage path now) = fresh_login"
  "se_calls (open_app storage path now) = []"
  "se_wizard (open_app storage path now) = False"
  "ac_storage (se_client (open_app storage path now)) = storage"
  "ac_token (se_client (open_app storage path now)) = storage TOKEN_KEY"
  "se_auth (open_app storage path now) \<longleftrightarrow> truthy_str (storage TOKEN_KEY)"
  "se_role (open_app storage path now) =
     (if truthy_str (storage TOKEN_KEY) then token_role (the (storage TOKEN_KEY)) else None)"
  by (simp_all add: open_app_def load_effect_def getToken_def fresh_client_def Let_def)

lemma ok_open_app: "session_ok (open_app storage path now)"
  by (simp add: session_defs fresh_login_def)

section \<open>The answer to a call\<close>

lemma handleLogin_simps [simp]:
  "se_client (handleLogin r s) = se_client s"
  "se_auth (handleLogin r s)"
  "se_calls (handleLogin r s) = se_calls s"
  "se_login (handleLogin r s) = se_login s"
  "se_role (handleLogin r s) = map_option JStr r"
  "se_wizard (handleLogin r s) \<longleftrightarrow> se_wizard s \<or> \<not> toured s"
  by (simp_all add: handleLogin_def Let_def toured_def)

text \<open>An answer admits the user when its status is fine and its body can be decoded.\<close>

definition admits :: "login_reply response result \<Rightarrow> login_reply option" where
  "admits resp =
     (case json_or (check_status_text ''login failed'') resp of Inr res \<Rightarrow> Some res | Inl _ \<Rightarrow> None)"

lemma login_fst:
  "case login (\<lambda>_. resp) u p c of (r, c') \<Rightarrow>
     (case admits resp of
        Some res \<Rightarrow> r = Inr res \<and> c' = setToken (lr_token res) c
      | None \<Rightarrow> c' = c \<and> (\<exists>e. r = Inl e \<and> json_or (check_status_text ''login failed'') resp = Inl e))"
  by (auto simp: login_def admits_def Let_def split: sum.split)

lemma demo_settled:
  "login_settled demo_call resp s =
     se_page (\<lambda>l. l\<lparr> lp_loading := False \<rparr>)
       (case admits resp of
          Some res \<Rightarrow> signed_in ''Sandbox loaded'' (lr_role res) (s\<lparr> se_client := setToken (lr_token res) (se_client s) \<rparr>)
        | None \<Rightarrow> se_post Toast_error (projl (json_or (check_status_text ''login failed'') resp)) s)"
  by (auto simp: demo_call_def login_def admits_def Let_def split: sum.split)

lemma setToken_simps [simp]:
  "ac_token (setToken tok c) = tok"
  "ac_storage (setToken tok c) = (ac_storage c)(TOKEN_KEY := (if truthy_str tok then tok else None))"
  by (simp_all add: setToken_def)

lemma settled_simps:
  "se_login (login_settled demo_call resp s) = (se_login s)\<lparr> lp_loading := False \<rparr>"
  "se_calls (login_settled demo_call resp s) = se_calls s"
  "se_auth (login_settled demo_call resp s) \<longleftrightarrow> se_auth s \<or> admits resp \<noteq> None"
  "se_client (login_settled demo_call resp s) =
     (case admits resp of Some res \<Rightarrow> setToken (lr_token res) (se_client s) | None \<Rightarrow> se_client s)"
  "se_wizard (login_settled demo_call resp s) \<longleftrightarrow> se_wizard s \<or> admits resp \<noteq> None \<and> \<not> toured s"
  by (auto simp: demo_settled se_page_def signed_in_def se_post_def toured_def split: option.split)

section \<open>Every step keeps the invariant\<close>

lemma ok_settled:
  assumes "session_ok s" and "call \<in> set (se_calls s)"
  shows "call = demo_call \<and> \<not> se_auth s \<and> se_calls s = [demo_call] \<and>
    session_ok (login_settled call resp (s\<lparr> se_calls := remove1 call (se_calls s) \<rparr>))"
proof -
  have c: "call = demo_call" "\<not> se_auth s" "se_calls s = [demo_call]"
    using assms by (auto simp: session_ok_def split: if_splits)
  moreover have "session_ok (login_settled demo_call resp (s\<lparr> se_calls := [] \<rparr>))"
    using assms(1) c(2) by (auto simp: session_ok_def stored_token_def settled_simps split: option.split)
  ultimately show ?thesis by simp
qed

lemma ok_step: "session_ok s \<Longrightarrow> app_step s t \<Longrightarrow> session_ok t"
proof (erule app_stepE)
  fix call resp
  assume "session_ok s" "t = login_settled call resp (s\<lparr> se_calls := remove1 call (se_calls s) \<rparr>)"
    "call \<in> set (se_calls s)"
  then show "session_ok t" using ok_settled by blast
next
  fix now
  show "t = open_app (ac_storage (se_client s)) (se_path s) now \<Longrightarrow> session_ok t" by (simp add: ok_open_app)
next
  assume "session_ok s" "t = s\<lparr> se_client := snd (getToken (se_client s)) \<rparr>"
  then show "session_ok t" by (auto simp: session_defs getToken_def Let_def)
qed (auto simp: ok_form session_defs handleInstantDemo_def handleOnboardingComplete_def handleLogout_def
       logout_def se_page_def fresh_login_def)

lemma ok_run: "app_run s t \<Longrightarrow> session_ok s \<Longrightarrow> session_ok t"
  by (induction rule: app_run.induct) (auto intro: ok_step)

lemma ok_reached: "app_run (open_app storage path now) s \<Longrightarrow> session_ok s"
  by (erule ok_run) (rule ok_open_app)

section \<open>The tour's flag\<close>

text \<open>Once the tour's flag is stored it stays, and the tour is not shown.\<close>

definition tour_over :: "session \<Rightarrow> bool" where
  "tour_over s \<longleftrightarrow> toured s \<and> \<not> se_wizard s"

lemma tour_over_step:
  assumes "session_ok s" and "app_step s t" and "tour_over s"
  shows "tour_over t"
  using assms(2)
proof cases
  case (Settled call resp)
  then have "call = demo_call" using ok_settled [OF assms(1)] by blast
  then show ?thesis
    using Settled(1) assms(3) by (auto simp: tour_over_def toured_def settled_simps split: option.split)
qed (use assms(1,3) in \<open>auto simp: ok_form tour_over_def toured_def handleInstantDemo_def
       handleOnboardingComplete_def handleLogout_def logout_def se_page_def\<close>)

lemma tour_over_run: "app_run s t \<Longrightarrow> session_ok s \<Longrightarrow> tour_over s \<Longrightarrow> tour_over t"
proof (induction rule: app_run.induct)
  case (Step s t u)
  then show ?case using ok_run tour_over_step by blast
qed

section \<open>The gate\<close>

text \<open>
  The abstract view, with no login page, storage or client: outside, waiting for an answer, or inside,
  with or without a token that lets a reload keep the user there. The gate says which events it allows
  in each position and where each leads.
\<close>

datatype gate = Outside | Waiting | Inside bool

datatype gate_event = Asks | Answers "bool option" | Leaves | Reopens | Passes

fun gate_act :: "gate \<Rightarrow> gate_event \<Rightarrow> gate option" where
  "gate_act Outside Asks = Some Waiting"
| "gate_act Waiting (Answers None) = Some Outside"
| "gate_act Waiting (Answers (Some kept)) = Some (Inside kept)"
| "gate_act (Inside kept) Leaves = Some Outside"
| "gate_act (Inside True) Reopens = Some (Inside True)"
| "gate_act g Reopens = Some Outside"
| "gate_act g Passes = Some g"
| "gate_act g _ = None"

definition gate_of :: "session \<Rightarrow> gate" where
  "gate_of s =
     (if se_auth s then Inside (truthy_str (stored_token s)) else if se_calls s \<noteq> [] then Waiting else Outside)"

text \<open>
  What the events of the application are for the gate. An answer admits the user when its status is fine
  and its body can be decoded; the flag says whether the reply holds a token. It is read off the
  response alone.
\<close>

definition admission :: "login_reply response result \<Rightarrow> bool option" where
  "admission resp =
     (case resp of
        Inl e \<Rightarrow> None
      | Inr r \<Rightarrow>
          if 200 \<le> rs_status r \<and> rs_status r \<le> 299 then
            (case rs_json r of Inl e \<Rightarrow> None | Inr reply \<Rightarrow> Some (truthy_str (lr_token reply)))
          else None)"

fun gate_event_of :: "app_action \<Rightarrow> gate_event" where
  "gate_event_of (Control Submit_form) = Asks"
| "gate_event_of (Control Demo_button) = Asks"
| "gate_event_of (Control (Login_settled q resp)) = Answers (admission resp)"
| "gate_event_of (Control Logout_button) = Leaves"
| "gate_event_of (Page_reload now) = Reopens"
| "gate_event_of a = Passes"

lemma admission_admits: "admission resp = map_option (\<lambda>r. truthy_str (lr_token r)) (admits resp)"
  by (auto simp: admission_def admits_def json_or_def bind_result_def check_status_text_def rs_ok_def
      split: sum.split)

lemma app_step_act: "app_step s t \<longleftrightarrow> (\<exists>a. action_enabled s a \<and> t = app_act s a)"
proof
  assume "app_step s t"
  then show "\<exists>a. action_enabled s a \<and> t = app_act s a"
  proof cases
    case Username then show ?thesis by (metis action_enabled.simps(1) app_act.simps(1) app_enabled.simps(1) app_handle.simps(1))
  next
    case Password then show ?thesis by (metis action_enabled.simps(1) app_act.simps(1) app_enabled.simps(2) app_handle.simps(2))
  next
    case Close then show ?thesis by (intro exI [of _ "Control Close_form"]) simp
  next
    case Submit then show ?thesis by (intro exI [of _ "Control Submit_form"]) simp
  next
    case Demo then show ?thesis by (intro exI [of _ "Control Demo_button"]) simp
  next
    case (Settled q resp) then show ?thesis by (intro exI [of _ "Control (Login_settled q resp)"]) simp
  next
    case Complete then show ?thesis by (intro exI [of _ "Control Tour_complete"]) simp
  next
    case Logout then show ?thesis by (intro exI [of _ "Control Logout_button"]) simp
  next
    case (Go path) then show ?thesis by (intro exI [of _ "Address path"]) simp
  next
    case Api_call then show ?thesis by (intro exI [of _ Client_call]) simp
  next
    case (Toasts ev) then show ?thesis by (intro exI [of _ "Toaster_event ev"]) simp
  next
    case (Reload now) then show ?thesis by (intro exI [of _ "Page_reload now"]) simp
  qed
next
  assume "\<exists>a. action_enabled s a \<and> t = app_act s a"
  then obtain a where a: "action_enabled s a" "t = app_act s a" by blast
  show "app_step s t"
  proof (cases a)
    case (Control e)
    with a show ?thesis by (cases e) (auto intro: app_step.intros)
  qed (use a in \<open>auto intro: app_step.intros\<close>)
qed

text \<open>The events of the application move the gate, one event at a time.\<close>

lemma gate_of_control:
  assumes ok: "session_ok s" and on: "app_enabled s e"
  shows "gate_act (gate_of s) (gate_event_of (Control e)) = Some (gate_of (app_handle s e))"
proof (cases e)
  case Demo_button
  then show ?thesis
    using ok on by (simp add: gate_of_def handleInstantDemo_def se_page_def session_ok_def)
next
  case (Login_settled q resp)
  then have c: "q = demo_call" "\<not> se_auth s" "se_calls s = [demo_call]" using ok_settled [OF ok] on by auto
  have "\<not> truthy_str (stored_token s)" using ok c(2) by (auto simp: session_ok_def)
  then show ?thesis
    using Login_settled c
    by (cases "admits resp") (auto simp: gate_of_def settled_simps admission_admits stored_token_def truthy_str_def)
next
  case Logout_button
  then show ?thesis
    using ok on by (cases "truthy_str (stored_token s)") (simp_all add: gate_of_def handleLogout_def session_ok_def)
qed (use ok on in \<open>auto simp: ok_form gate_of_def handleOnboardingComplete_def stored_token_def\<close>)

lemma gate_of_action:
  assumes ok: "session_ok s" and on: "action_enabled s a"
  shows "gate_act (gate_of s) (gate_event_of a) = Some (gate_of (app_act s a))"
proof (cases a)
  case (Control e)
  then show ?thesis using gate_of_control [OF ok] on by simp
next
  case (Page_reload now)
  have "truthy_str (stored_token s) \<Longrightarrow> se_auth s" using ok by (simp add: session_ok_def)
  then show ?thesis using Page_reload by (auto simp: gate_of_def stored_token_def)
qed (use ok in \<open>auto simp: gate_of_def stored_token_def getToken_def Let_def\<close>)

section \<open>Properties\<close>

text \<open>
  C27: only the sandbox's credentials are ever sent. In every state the application can reach the
  sign-in form is closed, so whatever the user does, each call of \<^verbatim>\<open>api.login\<close> in flight is the demo
  button's with admin and admin123.
\<close>

theorem only_demo_credentials:
  assumes "app_run (open_app storage path now) s"
  shows "(\<forall>call \<in> set (se_calls s). call = By_demo ''admin'' ''admin123'') \<and> length (se_calls s) \<le> 1 \<and>
    (case App cerr pick s of Inr (Shows_login v) \<Rightarrow> lv_form v = None | _ \<Rightarrow> True)"
  using ok_reached [OF assms] by (auto simp: session_ok_def demo_call_def App_def LoginPage_def bind_result_def split: sum.splits)

lemma demo_runs: "app_run (open_app Map.empty path now) (handleInstantDemo (open_app Map.empty path now))"
  by (rule app_run.Step [OF app_run.Start Demo]) (simp_all add: fresh_login_def)

theorem only_demo_credentials_witness:
  "case App (\<lambda>_. []) (\<lambda>_ _. Page_Dashboard) (handleInstantDemo (open_app Map.empty ''/'' 0)) of
     Inr (Shows_login v) \<Rightarrow> lv_form v = None | _ \<Rightarrow> True"
  using only_demo_credentials [OF demo_runs] by blast

text \<open>
  C21: signed out means without a token. While the login page is shown no request carries a token, and
  loading the page again shows the login page again.
\<close>

theorem signed_out_has_no_token:
  assumes "app_run (open_app storage path now) s" and "\<not> se_auth s"
  shows "fst (headers extra (se_client s)) = extra \<and>
    \<not> se_auth (open_app (ac_storage (se_client s)) (se_path s) later)"
proof -
  have "\<not> truthy_str (stored_token s)" "\<not> truthy_str (ac_token (se_client s))"
    using ok_reached [OF assms(1)] assms(2) by (auto simp: session_ok_def)
  then show ?thesis by (auto simp: headers_def getToken_def stored_token_def Let_def)
qed

theorem signed_out_has_no_token_witness:
  "fst (headers XHR (se_client (handleLogout (open_app [TOKEN_KEY \<mapsto> ''t''] ''/'' 0)))) = XHR"
proof -
  let ?s = "open_app [TOKEN_KEY \<mapsto> ''t''] ''/'' 0"
  have "app_run ?s (handleLogout ?s)" by (rule app_run.Step [OF app_run.Start Logout]) simp
  moreover have "\<not> se_auth (handleLogout ?s)" by (simp add: handleLogout_def)
  ultimately show ?thesis using signed_out_has_no_token by blast
qed

text \<open>
  C30: the tour is shown once. After the tour was completed or skipped no later state shows it, through
  any sequence of signing out and in, page changes and reloads.
\<close>

theorem tour_shown_once:
  assumes "app_run (open_app storage path now) s" and "se_auth s" and "se_wizard s"
    and "app_run (handleOnboardingComplete s) t"
  shows "case App cerr pick t of Inr (Shows_app wizard _ _ _) \<Rightarrow> \<not> wizard | _ \<Rightarrow> True"
proof -
  have "app_step s (handleOnboardingComplete s)" using assms(2,3) by (rule Complete)
  then have "session_ok (handleOnboardingComplete s)" using ok_reached [OF assms(1)] ok_step by blast
  moreover have "tour_over (handleOnboardingComplete s)"
    by (simp add: tour_over_def toured_def handleOnboardingComplete_def)
  ultimately have "tour_over t" using assms(4) tour_over_run by blast
  then show ?thesis by (auto simp: App_def tour_over_def bind_result_def split: sum.splits)
qed

definition fine :: "string \<Rightarrow> string \<Rightarrow> login_reply response result" where
  "fine tok role =
     Inr \<lparr> rs_status = 200, rs_text = Inl ''read'', rs_json = Inr \<lparr> lr_token = Some tok, lr_role = Some role \<rparr> \<rparr>"

definition sandbox :: session where
  "sandbox = login_settled demo_call (fine ''t'' ''admin'')
     ((handleInstantDemo (open_app Map.empty ''/'' 0))\<lparr> se_calls := [] \<rparr>)"

lemma admits_fine: "admits (fine tok role) = Some \<lparr> lr_token = Some tok, lr_role = Some role \<rparr>"
  by (simp add: admits_def fine_def json_or_def check_status_text_def rs_ok_def)

lemma demo_pending: "se_calls (handleInstantDemo (open_app Map.empty path now)) = [demo_call]"
  by (simp add: handleInstantDemo_def se_page_def demo_call_def)

lemma sandbox_reached: "app_run (open_app Map.empty ''/'' 0) sandbox"
  using app_run.Step [OF demo_runs Settled [of demo_call _ "fine ''t'' ''admin''"]]
  by (simp add: demo_pending sandbox_def)

lemma sandbox_simps: "se_auth sandbox" "se_wizard sandbox" "se_calls sandbox = []"
  by (simp_all add: sandbox_def settled_simps admits_fine toured_def handleInstantDemo_def se_page_def)

theorem tour_shown_once_witness:
  "case App (\<lambda>_. []) (\<lambda>_ _. Page_Dashboard) (handleOnboardingComplete sandbox) of
     Inr (Shows_app wizard _ _ _) \<Rightarrow> \<not> wizard | _ \<Rightarrow> True"
  using tour_shown_once [OF sandbox_reached] sandbox_simps app_run.Start by blast

lemma token_part_mid: "CHR ''.'' \<notin> set h \<Longrightarrow> token_part (h @ CHR ''.'' # base64url text @ CHR ''.'' # sig) = base64url text"
proof -
  assume "CHR ''.'' \<notin> set h"
  moreover have "CHR ''.'' \<notin> set (base64url text)" using base64url_chars by blast
  ultimately show ?thesis by (simp add: token_part_def split_on_append)
qed

text \<open>
  C28: the role is read back from the stored token. When the encoding of a token's middle part has
  neither \<^verbatim>\<open>-\<close> nor \<^verbatim>\<open>_\<close> and its bytes, one character each, are the text of a JSON object, loading the
  page signs the user in with the role that object names (none, if it names none). An encoding with one
  of the two is not understood at all: such a token gives the role viewer.
\<close>

theorem role_read_back:
  assumes "storage TOKEN_KEY = Some (h @ CHR ''.'' # base64url text @ CHR ''.'' # sig)"
    and "CHR ''.'' \<notin> set h" and "CHR ''-'' \<notin> set (base64url text) \<and> CHR ''_'' \<notin> set (base64url text)"
    and "json_read text = Some (JObj m)"
  shows "se_auth (open_app storage path now) \<and> se_role (open_app storage path now) = om_get m ''role''"
  using assms(1,3,4) by (simp add: token_role_def token_part_mid [OF assms(2)] atob_reads_token_part)

theorem role_read_back_witness:
  "se_role (open_app [TOKEN_KEY \<mapsto> ''e30.'' @ base64url ''{\"role\":\"operator\"}'' @ ''.sig''] ''/'' 0) =
     Some (JStr ''operator'')"
proof -
  have "json_read ''{\"role\":\"operator\"}'' = Some (JObj [(''role'', JStr ''operator'')])" by code_simp
  moreover have "CHR ''-'' \<notin> set (base64url ''{\"role\":\"operator\"}'') \<and> CHR ''_'' \<notin> set (base64url ''{\"role\":\"operator\"}'')"
    by code_simp
  ultimately show ?thesis
    using role_read_back [of "[TOKEN_KEY \<mapsto> ''e30.'' @ base64url ''{\"role\":\"operator\"}'' @ ''.sig'']" "''e30''"
        "''{\"role\":\"operator\"}''" "''sig''" _ "''/''" 0]
    by (simp add: om_get_def)
qed

text \<open>
  C29: a token part with \<^verbatim>\<open>-\<close> or \<^verbatim>\<open>_\<close> is not understood. Token parts are base64url; when the encoding of
  the payload has one of its two own digits, loading the page signs the user in with the role viewer,
  whatever role the payload names.
\<close>

theorem url_digits_read_viewer:
  assumes "storage TOKEN_KEY = Some (h @ CHR ''.'' # base64url text @ CHR ''.'' # sig)"
    and "CHR ''.'' \<notin> set h" and "CHR ''-'' \<in> set (base64url text) \<or> CHR ''_'' \<in> set (base64url text)"
  shows "se_auth (open_app storage path now) \<and> se_role (open_app storage path now) = Some (JStr ''viewer'')"
  using assms(1,3)
  by (simp add: token_role_def token_part_mid [OF assms(2)] atob_reads_token_part)

theorem url_digits_read_viewer_witness:
  "json_read ''{\"sub\":\"~~~\",\"role\":\"admin\"}'' = Some (JObj [(''sub'', JStr ''~~~''), (''role'', JStr ''admin'')]) \<and>
   se_role (open_app [TOKEN_KEY \<mapsto> ''e30.'' @ base64url ''{\"sub\":\"~~~\",\"role\":\"admin\"}'' @ ''.sig''] ''/'' 0) =
     Some (JStr ''viewer'')"
proof
  show "json_read ''{\"sub\":\"~~~\",\"role\":\"admin\"}'' = Some (JObj [(''sub'', JStr ''~~~''), (''role'', JStr ''admin'')])"
    by code_simp
  have "CHR ''-'' \<in> set (base64url ''{\"sub\":\"~~~\",\"role\":\"admin\"}'')"
    by (simp add: base64url_def url_digit_def)
  then show "se_role (open_app [TOKEN_KEY \<mapsto> ''e30.'' @ base64url ''{\"sub\":\"~~~\",\"role\":\"admin\"}'' @ ''.sig''] ''/'' 0) =
      Some (JStr ''viewer'')"
    using url_digits_read_viewer [of "[TOKEN_KEY \<mapsto> ''e30.'' @ base64url ''{\"sub\":\"~~~\",\"role\":\"admin\"}'' @ ''.sig'']"
        "''e30''" "''{\"sub\":\"~~~\",\"role\":\"admin\"}''" "''sig''" "''/''" 0]
    by (simp del: open_app_simps)
qed

text \<open>
  C6: the session refines a gate. For every event that can happen in a state the application reaches, the
  position after the event is the one the gate prescribes for it: a sign-in is asked for only outside and
  starts the waiting; an answer is possible only while one waits for it and leads inside exactly when its
  status is fine and its body decodes, and back outside otherwise; signing out is possible only inside
  and leads outside; a reload keeps the user inside if a token was kept and puts everyone else outside;
  no other event moves the gate. The steps of the application are exactly these events.
\<close>

theorem session_refines_gate:
  assumes "app_run (open_app storage path now) s" and "action_enabled s a"
  shows "gate_act (gate_of s) (gate_event_of a) = Some (gate_of (app_act s a)) \<and> app_step s (app_act s a)"
  using gate_of_action [OF ok_reached [OF assms(1)] assms(2)] assms(2) by (auto simp: app_step_act)

theorem session_refines_gate_witness:
  "gate_of sandbox = Inside True \<and> gate_of (handleLogout sandbox) = Outside \<and>
   gate_of (open_app (ac_storage (se_client sandbox)) (se_path sandbox) 5) = Inside True"
proof -
  have g: "gate_of sandbox = Inside True"
    by (simp add: gate_of_def sandbox_def settled_simps admits_fine stored_token_def truthy_str_def)
  moreover have "gate_of (handleLogout sandbox) = Outside"
    using session_refines_gate [OF sandbox_reached, of "Control Logout_button"] g by (simp add: sandbox_simps)
  moreover have "gate_of (open_app (ac_storage (se_client sandbox)) (se_path sandbox) 5) = Inside True"
    using session_refines_gate [OF sandbox_reached, of "Page_reload 5"] g by simp
  ultimately show ?thesis by blast
qed

text \<open>
  C24: how a sign-in ends. The answer to a pending call always ends the waiting. It admits the user when
  the status is fine and the body can be decoded: then the answer's role is taken over, its token is
  stored, and the tour is opened unless it was completed before. Otherwise the user stays outside,
  nothing is stored and one error is posted.
\<close>

theorem answer_ends_waiting:
  assumes "app_run (open_app storage path now) s" and "call \<in> set (se_calls s)"
    and "t = login_settled call resp (s\<lparr> se_calls := remove1 call (se_calls s) \<rparr>)"
  shows "\<not> lp_loading (se_login t) \<and> se_calls t = [] \<and>
    (case json_or (check_status_text ''login failed'') resp of
       Inr res \<Rightarrow> se_auth t \<and> se_role t = map_option JStr (lr_role res) \<and> se_path t = ''/'' \<and>
         (se_wizard t \<longleftrightarrow> se_wizard s \<or> \<not> truthy_str (ac_storage (se_client s) ONBOARDED_KEY)) \<and>
         (truthy_str (lr_token res) \<longrightarrow> ac_storage (se_client t) TOKEN_KEY = lr_token res)
     | Inl e \<Rightarrow> \<not> se_auth t \<and> se_client t = se_client s \<and> se_toaster t = toast Toast_error e (se_toaster s))"
proof -
  have c: "call = demo_call" "\<not> se_auth s" "se_calls s = [demo_call]"
    using ok_settled [OF ok_reached [OF assms(1)] assms(2)] by auto
  show ?thesis
  proof (cases "json_or (check_status_text ''login failed'') resp")
    case (Inl e)
    then show ?thesis
      using c by (simp add: assms(3) demo_settled admits_def se_page_def se_post_def)
  next
    case (Inr res)
    then show ?thesis
      using c by (simp add: assms(3) demo_settled admits_def se_page_def se_post_def signed_in_def toured_def)
  qed
qed

theorem answer_ends_waiting_witness:
  "\<not> lp_loading (se_login sandbox)"
  using answer_ends_waiting [OF demo_runs [of "''/''" 0], of demo_call sandbox "fine ''t'' ''admin''"]
  by (simp add: demo_pending sandbox_def)

end
