(* ===== verification/Landing.thy ===== *)
theory Landing
  imports JsText
begin

text \<open>
  The animations of the landing page in \<^verbatim>\<open>frontend/src/pages/LoginPage.tsx\<close>: the mock terminal, the
  backfill counter and the parity list. Each is a state with the events that change it; an interval is
  live while it is in the state. Characters outside Latin-1 in the terminal's texts are transliterated
  (arrow as \<^verbatim>\<open>->\<close>, check mark as \<^verbatim>\<open>v\<close>, warning sign as \<^verbatim>\<open>!\<close>). Styling and static text are left out.
\<close>

section \<open>The mock terminal\<close>

datatype demo_mode = Demo_success | Demo_rollback

record term_line =
  tl_text :: string
  tl_type :: string

definition line :: "string \<Rightarrow> string \<Rightarrow> term_line" where
  "line ty tx = \<lparr> tl_text = tx, tl_type = ty \<rparr>"

definition TERMINAL_LINES :: "term_line list" where
  "TERMINAL_LINES =
     [line ''command'' ''$ mse deploy --table orders --strategy canary'',
      line ''output'' ''Connecting to postgres://prod-db:5432/meridian...'',
      line ''output'' ''Analyzing table schema... found 13 columns, 2.1M rows'',
      line ''output'' [],
      line ''phase'' ''Phase 1/4  Expanding schema'',
      line ''sql'' ''  ALTER TABLE orders ADD COLUMN shipping_class text;'',
      line ''meta'' ''  Lock acquired in 12ms  |  Statement timeout: 60s'',
      line ''success'' ''  Schema expanded successfully'',
      line ''output'' [],
      line ''phase'' ''Phase 2/4  Backfilling 2,147,832 rows'',
      line ''progress'' ''  Batch 1/215  rows=10,000  throttle=50ms  health=0.94'',
      line ''progress'' ''  Batch 107/215  rows=1,070,000  throttle=45ms  health=0.97'',
      line ''success'' ''  Backfill complete  2,147,832 rows in 4m32s'',
      line ''output'' [],
      line ''phase'' ''Phase 3/4  Canary  1% -> 5% -> 25% -> 100%'',
      line ''canary'' ''  Traffic 1%    p99=42ms  err=0.00%  parity=100%  v'',
      line ''canary'' ''  Traffic 5%    p99=38ms  err=0.00%  parity=100%  v'',
      line ''canary'' ''  Traffic 25%   p99=41ms  err=0.01%  parity=100%  v'',
      line ''canary'' ''  Traffic 100%  p99=44ms  err=0.00%  parity=100%  v'',
      line ''output'' [],
      line ''phase'' ''Phase 4/4  Contracting schema'',
      line ''sql'' ''  ALTER TABLE orders DROP COLUMN legacy_shipping;'',
      line ''success'' ''  Legacy column dropped'',
      line ''output'' [],
      line ''final'' ''Migration complete. Zero downtime. Zero data loss.'']"

definition ROLLBACK_LINES :: "term_line list" where
  "ROLLBACK_LINES =
     [line ''command'' ''$ mse deploy --table checkout --strategy canary'',
      line ''output'' ''Connecting to postgres://prod-db:5432/velocity...'',
      line ''output'' [],
      line ''phase'' ''Phase 3/4  Canary  1% -> 5% -> 25% -> 100%'',
      line ''canary'' ''  Traffic 1%    p99=38ms  err=0.00%  parity=100%  v'',
      line ''canary'' ''  Traffic 5%    p99=41ms  err=0.02%  parity=100%  v'',
      line ''warning'' ''  Traffic 25%   p99=187ms err=0.14%  parity=99.8%  !'',
      line ''output'' [],
      line ''error'' ''  SLO BREACH: p99 latency 187ms exceeds 100ms threshold'',
      line ''error'' ''  Triggering automatic rollback...'',
      line ''rollback'' ''  Rolling back canary traffic to 0%'',
      line ''sql'' ''  ALTER TABLE checkout DROP COLUMN IF EXISTS promo_v2;'',
      line ''success'' ''  Schema restored to pre-migration state'',
      line ''output'' [],
      line ''final'' ''Rollback complete. Production unaffected. No user impact.'']"

definition mode_lines :: "demo_mode \<Rightarrow> term_line list" where
  "mode_lines m = (case m of Demo_success \<Rightarrow> TERMINAL_LINES | Demo_rollback \<Rightarrow> ROLLBACK_LINES)"

text \<open>A live interval: its id, its counter \<open>i\<close> and the number of lines its callback captured.\<close>

record terminal =
  tm_mode :: demo_mode
  tm_visible :: nat
  tm_cursor :: bool
  tm_nextId :: nat
  tm_intervals :: "(nat \<times> nat \<times> nat) list"
  tm_blinks :: nat

definition runDemo :: "terminal \<Rightarrow> terminal" where
  "runDemo t =
     t\<lparr> tm_visible := 0, tm_cursor := True, tm_nextId := tm_nextId t + 1,
        tm_intervals := tm_intervals t @ [(tm_nextId t, 0, length (mode_lines (tm_mode t)))] \<rparr>"

text \<open>Two effects run the demo, at mount and again when the mode changes, after both cleanups.\<close>

definition term_effects :: "terminal \<Rightarrow> terminal" where
  "term_effects t = runDemo (runDemo (t\<lparr> tm_intervals := [] \<rparr>))"

definition fresh_terminal :: terminal where
  "fresh_terminal = term_effects
     \<lparr> tm_mode = Demo_success, tm_visible = 0, tm_cursor = True, tm_nextId = 1, tm_intervals = [], tm_blinks = 0 \<rparr>"

definition toggleMode :: "terminal \<Rightarrow> terminal" where
  "toggleMode t =
     term_effects (t\<lparr> tm_mode := (case tm_mode t of Demo_success \<Rightarrow> Demo_rollback | Demo_rollback \<Rightarrow> Demo_success) \<rparr>)"

text \<open>The interval's callback. \<open>tm_blinks\<close> counts the timeouts that will stop the cursor.\<close>

definition demo_tick :: "nat \<Rightarrow> terminal \<Rightarrow> terminal" where
  "demo_tick k t =
     (case map_of (tm_intervals t) k of
        None \<Rightarrow> t
      | Some (i, n) \<Rightarrow>
          if i + 1 \<ge> n then
            t\<lparr> tm_intervals := filter (\<lambda>e. fst e \<noteq> k) (tm_intervals t), tm_blinks := tm_blinks t + 1 \<rparr>
          else
            t\<lparr> tm_intervals := map (\<lambda>e. if fst e = k then (k, i + 1, n) else e) (tm_intervals t),
               tm_visible := i + 1 \<rparr>)"

definition demo_blink :: "terminal \<Rightarrow> terminal" where
  "demo_blink t = (if tm_blinks t = 0 then t else t\<lparr> tm_cursor := False, tm_blinks := tm_blinks t - 1 \<rparr>)"

record term_view =
  tv_toggle :: string
  tv_lines :: "(string \<times> bool \<times> string) list"
  tv_cursor :: bool

definition term_shown :: "terminal \<Rightarrow> term_line list" where
  "term_shown t = slice 0 (tm_visible t) (mode_lines (tm_mode t))"

definition TerminalMock :: "terminal \<Rightarrow> term_view" where
  "TerminalMock t =
     \<lparr> tv_toggle = (case tm_mode t of Demo_success \<Rightarrow> ''Show Rollback'' | Demo_rollback \<Rightarrow> ''Show Success''),
       tv_lines = map (\<lambda>l. (''tm-line tm-line--'' @ tl_type l, tl_type l = ''command'', tl_text l)) (term_shown t),
       tv_cursor = tm_cursor t \<rparr>"

datatype term_event = T_tick nat | T_blink | T_toggle

fun term_step :: "terminal \<Rightarrow> term_event \<Rightarrow> terminal" where
  "term_step t (T_tick k) = demo_tick k t"
| "term_step t T_blink = demo_blink t"
| "term_step t T_toggle = toggleMode t"

section \<open>The backfill counter\<close>

record counter =
  bf_paused :: bool
  bf_rows :: number
  bf_ticking :: bool

definition fresh_counter :: counter where
  "fresh_counter = \<lparr> bf_paused = False, bf_rows = Fin 67240, bf_ticking = True \<rparr>"

text \<open>\<^verbatim>\<open>Math.floor(Math.random() * 200 + 100)\<close> for the random number drawn.\<close>

definition row_bump :: "rat \<Rightarrow> number" where
  "row_bump r = js_floor (js_add (js_mul (Fin r) (Fin 200)) (Fin 100))"

datatype counter_event = B_tick rat | B_pause

fun counter_step :: "counter \<Rightarrow> counter_event \<Rightarrow> counter" where
  "counter_step b (B_tick r) =
     (if \<not> bf_ticking b then b
      else if js_le (Fin 100000) (bf_rows b) then b\<lparr> bf_rows := Fin 100000, bf_ticking := False \<rparr>
      else b\<lparr> bf_rows := js_add (bf_rows b) (row_bump r) \<rparr>)"
| "counter_step b B_pause = b\<lparr> bf_paused := \<not> bf_paused b, bf_ticking := bf_paused b \<rparr>"

definition row_pct :: "counter \<Rightarrow> number" where
  "row_pct b = js_min (js_mul (js_div (bf_rows b) (Fin 100000)) (Fin 100)) (Fin 100)"

record counter_view =
  cv_counter :: string
  cv_pct :: string
  cv_width :: string
  cv_checkpoint :: string
  cv_button :: string
  cv_resuming :: bool

definition BentoBackfill :: "(number \<Rightarrow> string) \<Rightarrow> counter \<Rightarrow> counter_view" where
  "BentoBackfill loc b =
     \<lparr> cv_counter = loc (bf_rows b) @ '' / 100,000 rows'',
       cv_pct = num_text (js_round (row_pct b)) @ ''%'',
       cv_width = num_text (row_pct b) @ ''%'',
       cv_checkpoint = ''Checkpoint: last_id='' @ loc (bf_rows b),
       cv_button = (if bf_paused b then ''Resume'' else ''Simulate Crash''),
       cv_resuming = bf_paused b \<rparr>"

section \<open>The parity list\<close>

definition parity_checks :: "(string \<times> string) list" where
  "parity_checks =
     [(''Row Count'', ''Match''), (''CRC32 Checksum'', ''Match''), (''NULL Handling'', ''Match''),
      (''Type Conversion'', ''Match''), (''FK Integrity'', ''Verified'')]"

text \<open>The number revealed and whether the interval lives.\<close>

definition parity_tick :: "nat \<times> bool \<Rightarrow> nat \<times> bool" where
  "parity_tick s =
     (if \<not> snd s then s else if fst s \<ge> length parity_checks then (fst s, False) else (fst s + 1, True))"

definition BentoParity :: "nat \<Rightarrow> (string \<times> bool \<times> string option) list \<times> string option" where
  "BentoParity revealed =
     (map (\<lambda>(i, c). (fst c, i < revealed, if i < revealed then Some (''[ '' @ snd c @ '' ]'') else None))
        (enumerated parity_checks),
      if revealed \<ge> length parity_checks then Some ''100%'' else None)"

section \<open>The testimonials\<close>

record testimonial =
  ts_quote :: string
  ts_name :: string
  ts_role :: string

definition TESTIMONIALS :: "testimonial list" where
  "TESTIMONIALS =
     [\<lparr> ts_quote = ''We had a 200M row backfill that kept crashing at 3am. MSE picked up exactly where it left off. No data loss, no rework.'',
        ts_name = ''Sarah Chen'', ts_role = ''Staff Engineer, Infrastructure'' \<rparr>,
      \<lparr> ts_quote = ''Our last schema migration took down checkout for 12 minutes. With MSE's canary + auto-rollback, we deployed the same change at midnight with zero issues.'',
        ts_name = ''Marcus Rivera'', ts_role = ''CTO'' \<rparr>]"

definition testimonial_cards :: "(string \<times> char \<times> string \<times> string) list" where
  "testimonial_cards = map (\<lambda>t. (ts_quote t, ts_name t ! 0, ts_name t, ts_role t)) TESTIMONIALS"

section \<open>The terminal's invariant\<close>

lemma length_mode_lines: "2 \<le> length (mode_lines m)"
  by (cases m) (simp_all add: mode_lines_def TERMINAL_LINES_def ROLLBACK_LINES_def)

text \<open>No more than all but one line, and all but one once no interval has anything left to show.\<close>

definition term_ok :: "terminal \<Rightarrow> bool" where
  "term_ok t \<longleftrightarrow>
     (let n = length (mode_lines (tm_mode t))
      in tm_visible t < n \<and> distinct (map fst (tm_intervals t)) \<and>
         (\<forall>(k, i, m) \<in> set (tm_intervals t). i < n \<and> m = n \<and> k < tm_nextId t) \<and>
         (tm_visible t = n - 1 \<or> (\<exists>(k, i, m) \<in> set (tm_intervals t). i + 1 < n)))"

lemma ok_effects: "term_ok (term_effects t)"
  using length_mode_lines [of "tm_mode t"] by (auto simp: term_ok_def term_effects_def runDemo_def Let_def)

lemma ok_tick: "term_ok t \<Longrightarrow> term_ok (demo_tick k t)"
proof (cases "map_of (tm_intervals t) k")
  case (Some v)
  assume ok: "term_ok t"
  obtain i m where v: "v = (i, m)" by fastforce
  let ?n = "length (mode_lines (tm_mode t))"
  have mem: "(k, i, m) \<in> set (tm_intervals t)" using Some v by (simp add: map_of_SomeD)
  then have m: "m = ?n" "i < ?n" using ok by (auto simp: term_ok_def Let_def)
  have only: "e = (k, i, m)" if "e \<in> set (tm_intervals t)" "fst e = k" for e
    using ok mem that by (metis (no_types, lifting) Some eq_key_imp_eq_value fst_conv prod.collapse term_ok_def Let_def)
  show ?thesis
  proof (cases "i + 1 \<ge> m")
    case True
    have "tm_visible t = ?n - 1 \<or> (\<exists>(k', i', m') \<in> set (filter (\<lambda>e. fst e \<noteq> k) (tm_intervals t)). i' + 1 < ?n)"
      using ok only True m by (fastforce simp: term_ok_def Let_def)
    then show ?thesis
      using ok True by (auto simp: demo_tick_def Some v term_ok_def Let_def distinct_map_filter)
  next
    case False
    define ivs where "ivs = map (\<lambda>e. if fst e = k then (k, i + 1, m) else e) (tm_intervals t)"
    have ivs: "map fst ivs = map fst (tm_intervals t)" "(k, i + 1, m) \<in> set ivs"
      "\<And>e. e \<in> set ivs \<Longrightarrow> e \<in> set (tm_intervals t) \<or> e = (k, i + 1, m)"
      unfolding ivs_def using mem by (auto simp: o_def if_distrib [of fst] cong: if_cong intro!: rev_image_eqI)
    have t': "tm_visible (demo_tick k t) = i + 1" "tm_mode (demo_tick k t) = tm_mode t"
      "tm_nextId (demo_tick k t) = tm_nextId t" "tm_intervals (demo_tick k t) = ivs"
      using False by (simp_all add: demo_tick_def Some v ivs_def)
    have "i + 1 = ?n - 1 \<or> i + 1 + 1 < ?n" using False m by linarith
    then have "i + 1 = ?n - 1 \<or> (\<exists>(k, i, m) \<in> set ivs. i + 1 < ?n)" using ivs(2) by blast
    moreover have "\<forall>(k, i, m) \<in> set ivs. i < ?n \<and> m = ?n \<and> k < tm_nextId t"
      using ivs(3) ok mem False m by (fastforce simp: term_ok_def Let_def)
    moreover have "distinct (map fst ivs)" using ok by (simp add: ivs(1) term_ok_def Let_def)
    ultimately show ?thesis using False m by (simp add: term_ok_def Let_def t')
  qed
qed (simp add: demo_tick_def)

lemma ok_term_step: "term_ok t \<Longrightarrow> term_ok (term_step t ev)"
proof (cases ev)
  case T_blink
  assume "term_ok t"
  then show ?thesis by (simp add: T_blink demo_blink_def term_ok_def)
qed (simp_all add: ok_tick ok_effects toggleMode_def)

interpretation term_run: run_invariant term_step term_ok
  by unfold_locales (rule ok_term_step)

section \<open>The counter's invariant\<close>

lemma row_bump_bounds:
  assumes "0 \<le> r" and "r < 1"
  shows "\<exists>k. row_bump r = Fin (of_nat k) \<and> 100 \<le> k \<and> k \<le> 300"
proof -
  obtain a where a: "fl (r * 200) = Fin a" "0 \<le> a" "a \<le> 200"
    using b64.bounded [of "r * 200" 200] assms by auto
  obtain b where b: "fl (a + 100) = Fin b" "100 \<le> b" "b \<le> 300"
    using b64.between [of 100 "a + 100" 300] a by auto
  have f: "100 \<le> \<lfloor>b\<rfloor>" "\<lfloor>b\<rfloor> \<le> 300" using b by (simp add: le_floor_iff, simp add: floor_le_iff)
  then have "(of_int \<lfloor>b\<rfloor> :: rat) = of_nat (nat \<lfloor>b\<rfloor>)" by simp
  then have "row_bump r = Fin (of_nat (nat \<lfloor>b\<rfloor>))" using a b by (simp add: row_bump_def)
  moreover have "100 \<le> nat \<lfloor>b\<rfloor>" "nat \<lfloor>b\<rfloor> \<le> 300" using f by linarith+
  ultimately show ?thesis by blast
qed

definition counter_ok :: "counter \<Rightarrow> bool" where
  "counter_ok b \<longleftrightarrow> (\<exists>n. bf_rows b = Fin (of_nat n) \<and> 67240 \<le> n \<and> n \<le> 100299)"

fun random_ok :: "counter_event \<Rightarrow> bool" where
  "random_ok (B_tick r) \<longleftrightarrow> 0 \<le> r \<and> r < 1"
| "random_ok B_pause \<longleftrightarrow> True"

lemma ok_counter_step: "random_ok ev \<Longrightarrow> counter_ok b \<Longrightarrow> counter_ok (counter_step b ev)"
proof (cases ev)
  case (B_tick r)
  assume r: "random_ok ev" and "counter_ok b"
  then obtain n where n: "bf_rows b = Fin (of_nat n)" "67240 \<le> n" "n \<le> 100299" by (auto simp: counter_ok_def)
  obtain k where k: "row_bump r = Fin (of_nat k)" "k \<le> 300" using row_bump_bounds r B_tick by auto
  have le: "js_le (Fin 100000) (bf_rows b) \<longleftrightarrow> 100000 \<le> n"
    using of_nat_le_iff [of 100000 n, where 'a = rat] by (simp add: n)
  have "fl (of_nat n + of_nat k) = Fin (of_nat (n + k))"
    using fl_of_nat [of "n + k"] n k by simp
  then have add: "js_add (bf_rows b) (row_bump r) = Fin (of_nat (n + k))" by (simp add: n(1) k(1))
  consider "\<not> bf_ticking b" | "bf_ticking b" "100000 \<le> n" | "bf_ticking b" "n < 100000" by linarith
  then show ?thesis
  proof cases
    case 1
    then show ?thesis using \<open>counter_ok b\<close> by (simp add: B_tick)
  next
    case 2
    then have "bf_rows (counter_step b ev) = Fin (of_nat 100000)" by (simp add: B_tick le)
    then show ?thesis unfolding counter_ok_def by (intro exI [of _ 100000]) simp
  next
    case 3
    then have "bf_rows (counter_step b ev) = Fin (of_nat (n + k))" by (simp add: B_tick le add)
    then show ?thesis using 3 n k unfolding counter_ok_def by (intro exI [of _ "n + k"]) simp
  qed
qed (simp add: counter_ok_def)

lemma counter_ok_run: "\<forall>ev \<in> set evs. random_ok ev \<Longrightarrow> counter_ok b \<Longrightarrow> counter_ok (foldl counter_step b evs)"
  by (induction evs arbitrary: b) (simp_all add: ok_counter_step)

text \<open>With the smallest random number each time the counter passes its goal.\<close>

lemma counter_climbs:
  "k \<le> 328 \<Longrightarrow> foldl counter_step fresh_counter (replicate k (B_tick 0)) =
     \<lparr> bf_paused = False, bf_rows = Fin (of_nat (67240 + 100 * k)), bf_ticking = True \<rparr>"
proof (induction k)
  case (Suc k)
  have bump: "row_bump 0 = Fin 100" by (simp add: row_bump_def)
  have "fl (of_nat (67240 + 100 * k + 100)) = Fin (of_nat (67240 + 100 * k + 100))"
    using Suc.prems by (intro fl_of_nat) simp
  then have "fl (of_nat (67240 + 100 * k) + 100) = Fin (of_nat (67240 + 100 * Suc k))" by (simp add: algebra_simps)
  moreover have "\<not> 100000 \<le> (of_nat (67240 + 100 * k) :: rat)"
    using Suc.prems of_nat_le_iff [of 100000 "67240 + 100 * k", where 'a = rat] by simp
  moreover have "replicate (Suc k) (B_tick 0) = replicate k (B_tick 0) @ [B_tick 0]"
    by (simp add: replicate_append_same)
  ultimately show ?case using Suc by (simp del: replicate.simps add: bump)
qed (simp add: fresh_counter_def)

lemma counter_overshoots:
  "bf_rows (foldl counter_step fresh_counter (replicate 328 (B_tick 0))) = Fin 100040"
  by (simp add: counter_climbs)

section \<open>Properties\<close>

lemma last_line_once: "last (mode_lines m) \<notin> set (butlast (mode_lines m))"
  by (cases m) (simp_all add: mode_lines_def TERMINAL_LINES_def ROLLBACK_LINES_def line_def)

text \<open>
  The mock terminal never finishes. Whatever the order of its interval callbacks, timeouts and mode
  changes, it shows a proper prefix of the lines: the final line of the demo is never among them. Once
  all intervals are cleared exactly that line is missing.
\<close>

theorem terminal_stops_one_short:
  assumes "t = foldl term_step fresh_terminal evs"
  shows "last (mode_lines (tm_mode t)) \<notin> set (term_shown t) \<and>
    length (term_shown t) < length (mode_lines (tm_mode t)) \<and>
    (tm_intervals t = [] \<longrightarrow> term_shown t = butlast (mode_lines (tm_mode t)))"
proof -
  have "term_ok fresh_terminal" unfolding fresh_terminal_def by (rule ok_effects)
  then have ok: "term_ok t" unfolding assms by (rule term_run.run_inv)
  let ?ls = "mode_lines (tm_mode t)"
  have v: "tm_visible t \<le> length ?ls - 1" "tm_visible t < length ?ls" using ok by (auto simp: term_ok_def Let_def)
  then have "term_shown t = take (tm_visible t) (butlast ?ls)"
    by (simp add: term_shown_def slice_def take_butlast)
  then have "set (term_shown t) \<subseteq> set (butlast ?ls)" by (simp add: set_take_subset)
  then have "last ?ls \<notin> set (term_shown t)" using last_line_once by blast
  moreover have "length (term_shown t) < length ?ls" using v by (simp add: term_shown_def slice_def)
  moreover have "term_shown t = butlast ?ls" if "tm_intervals t = []"
    using ok that by (simp add: term_ok_def Let_def term_shown_def slice_def butlast_conv_take)
  ultimately show ?thesis by blast
qed

text \<open>
  The backfill counter stays in bounds. For every choice of the random numbers and every pause its
  rows lie between 67240 and 100299 (it may pass its goal of 100000 before it is set back), and the
  bar's percentage lies between 0 and 100.
\<close>

theorem backfill_counter_bounded:
  assumes "\<forall>ev \<in> set evs. random_ok ev" and "b = foldl counter_step fresh_counter evs"
  shows "(\<exists>n. bf_rows b = Fin (of_nat n) \<and> 67240 \<le> n \<and> n \<le> 100299) \<and>
    (\<exists>p. row_pct b = Fin p \<and> 0 \<le> p \<and> p \<le> 100)"
proof -
  have "counter_ok fresh_counter"
    unfolding counter_ok_def by (intro exI [of _ 67240]) (simp add: fresh_counter_def)
  then have "counter_ok b" unfolding assms(2) by (rule counter_ok_run [OF assms(1)])
  then obtain n where n: "bf_rows b = Fin (of_nat n)" "67240 \<le> n" "n \<le> 100299" by (auto simp: counter_ok_def)
  have "(of_nat n :: rat) \<le> of_nat 100299" using n(3) by (simp only: of_nat_le_iff)
  then have "(of_nat n :: rat) / 100000 \<le> of_nat 2" by simp
  then obtain q where q: "fl (of_nat n / 100000) = Fin q" "0 \<le> q" "q \<le> of_nat 2"
    using b64.bounded [of "of_nat n / 100000" 2] by auto
  then obtain p where "fl (q * 100) = Fin p" "0 \<le> p"
    using b64.bounded [of "q * 100" 200] by auto
  then have "row_pct b = Fin (min p 100)" "0 \<le> min p 100" "min p 100 \<le> 100"
    by (simp_all add: row_pct_def n(1) q(1))
  then show ?thesis using n by blast
qed

theorem backfill_counter_bounded_witness:
  "\<exists>p. row_pct (foldl counter_step fresh_counter [B_tick (1 / 2), B_pause]) = Fin p \<and> 0 \<le> p \<and> p \<le> 100"
  using backfill_counter_bounded [OF _ refl, of "[B_tick (1 / 2), B_pause]"] by simp

end
