(* ===== verification/Widgets.thy ===== *)
theory Widgets
  imports Types
begin

text \<open>
  The small components around the pages: \<^verbatim>\<open>components/ConfirmDialog.tsx\<close> with its key listener,
  \<^verbatim>\<open>components/OnboardingWizard.tsx\<close>, \<^verbatim>\<open>components/ErrorBoundary.tsx\<close> and \<^verbatim>\<open>pages/NotFoundPage.tsx\<close>.
  Callbacks are values of a type parameter: the model says which one is called. Icons and styling are
  not modelled beyond the colours that depend on the properties.
\<close>

section \<open>Confirm dialog\<close>

record 'c dialog_props =
  dp_open :: bool
  dp_title :: string
  dp_message :: string
  dp_confirmLabel :: "string option"
  dp_cancelLabel :: "string option"
  dp_danger :: "bool option"
  dp_onConfirm :: 'c
  dp_onCancel :: 'c

record 'c dialog_view =
  dv_title :: string
  dv_message :: string
  dv_backdrop :: 'c
  dv_cancel :: "string \<times> 'c"
  dv_confirm :: "string \<times> 'c"
  dv_icon :: "string \<times> string \<times> string"
  dv_button :: "string \<times> string"

definition ConfirmDialog :: "'c dialog_props \<Rightarrow> 'c dialog_view option" where
  "ConfirmDialog p =
     (let danger = (case dp_danger p of Some d \<Rightarrow> d | None \<Rightarrow> False)
      in if \<not> dp_open p then None
         else Some
           \<lparr> dv_title = dp_title p, dv_message = dp_message p, dv_backdrop = dp_onCancel p,
             dv_cancel = (case dp_cancelLabel p of Some l \<Rightarrow> l | None \<Rightarrow> ''Cancel'', dp_onCancel p),
             dv_confirm = (case dp_confirmLabel p of Some l \<Rightarrow> l | None \<Rightarrow> ''Confirm'', dp_onConfirm p),
             dv_icon =
               (if danger then (''rgba(239,68,68,0.1)'', ''1px solid rgba(239,68,68,0.2)'', ''#ef4444'')
                else (''rgba(59,130,246,0.1)'', ''1px solid rgba(59,130,246,0.2)'', ''#3b82f6'')),
             dv_button =
               (if danger then (''linear-gradient(135deg, #ef4444, #f97316)'', ''0 4px 20px rgba(239,68,68,0.3)'')
                else (''linear-gradient(135deg, #3b82f6, #8b5cf6)'', ''0 4px 20px rgba(59,130,246,0.3)'')) \<rparr>)"

text \<open>
  The window's \<^verbatim>\<open>keydown\<close> listeners, each registration a new function; the dialog's effect keeps its own
  in the cleanup closure. Its dependencies are the flag and the identity of \<^verbatim>\<open>onCancel\<close>.
\<close>

record 'c keyboard =
  kb_next :: nat
  kb_listeners :: "(nat \<times> 'c) list"

datatype focus = On_cancel | On_confirm | Elsewhere

record 'c dialog =
  dg_deps :: "(bool \<times> 'c) option"
  dg_cleanup :: "nat option"
  dg_focus :: focus
  dg_keys :: "'c keyboard"

definition dialog_effect :: "bool \<Rightarrow> 'c \<Rightarrow> 'c dialog \<Rightarrow> 'c dialog" where
  "dialog_effect isOpen onCancel s =
     (let k = dg_keys s
      in if isOpen then
           s\<lparr> dg_focus := On_cancel, dg_cleanup := Some (kb_next k),
              dg_keys := \<lparr> kb_next = kb_next k + 1, kb_listeners = kb_listeners k @ [(kb_next k, onCancel)] \<rparr> \<rparr>
         else s\<lparr> dg_cleanup := None \<rparr>)"

definition dialog_cleanup :: "'c dialog \<Rightarrow> 'c dialog" where
  "dialog_cleanup s =
     (case dg_cleanup s of
        None \<Rightarrow> s
      | Some i \<Rightarrow>
          s\<lparr> dg_cleanup := None,
             dg_keys := (dg_keys s)\<lparr> kb_listeners := filter (\<lambda>l. fst l \<noteq> i) (kb_listeners (dg_keys s)) \<rparr> \<rparr>)"

datatype 'c dialog_life = D_render bool 'c | D_focus focus | D_unmount

fun dialog_step :: "'c dialog \<Rightarrow> 'c dialog_life \<Rightarrow> 'c dialog" where
  "dialog_step s (D_render isOpen f) =
     (if dg_deps s = Some (isOpen, f) then s
      else (dialog_effect isOpen f (dialog_cleanup s))\<lparr> dg_deps := Some (isOpen, f) \<rparr>)"
| "dialog_step s (D_focus x) = (if \<exists>f. dg_deps s = Some (True, f) then s\<lparr> dg_focus := x \<rparr> else s)"
| "dialog_step s D_unmount = (dialog_cleanup s)\<lparr> dg_deps := None, dg_focus := Elsewhere \<rparr>"

definition no_dialog :: "(nat \<times> 'c) list \<Rightarrow> nat \<Rightarrow> 'c dialog" where
  "no_dialog ls n =
     \<lparr> dg_deps = None, dg_cleanup = None, dg_focus = Elsewhere, dg_keys = \<lparr> kb_next = n, kb_listeners = ls \<rparr> \<rparr>"

text \<open>The callbacks a key press runs, given those of the other listeners.\<close>

definition handleKey :: "string \<Rightarrow> 'c dialog \<Rightarrow> 'c list" where
  "handleKey key s = (if key = ''Escape'' then map snd (kb_listeners (dg_keys s)) else [])"

section \<open>Onboarding wizard\<close>

record wizard_step =
  ws_title :: string
  ws_body :: string
  ws_flow :: "string list option"

definition STEPS :: "wizard_step list" where
  "STEPS =
     [\<lparr> ws_title = ''Welcome to MSE'',
        ws_body = ''Migration Safety Engine keeps your Postgres migrations safe with SLO-gated canaries, crash-resume backfill, and automatic parity verification.'',
        ws_flow = Some [''Pending'', ''Expanding'', ''Backfilling'', ''Verifying'', ''Canary'', ''Cutover'', ''Contracting'', ''Done''] \<rparr>,
      \<lparr> ws_title = ''Run a Demo'',
        ws_body = ''Click \"Run Demo\" on the dashboard to see the full migration lifecycle: expand schema, backfill rows, canary at 1/5/25/100%, verify parity, and contract.'',
        ws_flow = None \<rparr>,
      \<lparr> ws_title = ''Create a Plan'',
        ws_body = ''Define your target table, add or drop columns, set SLO gates (p99 latency, error rate, parity threshold), and configure canary traffic steps.'',
        ws_flow = None \<rparr>,
      \<lparr> ws_title = ''Monitor in Real Time'',
        ws_body = ''Track backfill progress, canary health, and parity scores with live Prometheus charts. The engine auto-rolls back if any SLO is breached.'',
        ws_flow = None \<rparr>]"

text \<open>The step shown, and how often \<^verbatim>\<open>onComplete\<close> was called.\<close>

record wizard =
  wz_step :: nat
  wz_completed :: nat

definition fresh_wizard :: wizard where
  "fresh_wizard = \<lparr> wz_step = 0, wz_completed = 0 \<rparr>"

definition isLast :: "wizard \<Rightarrow> bool" where
  "isLast w \<longleftrightarrow> wz_step w = length STEPS - 1"

datatype wizard_event = W_skip | W_back | W_next | W_dot nat

fun wz_enabled :: "wizard \<Rightarrow> wizard_event \<Rightarrow> bool" where
  "wz_enabled w W_back \<longleftrightarrow> wz_step w > 0"
| "wz_enabled w (W_dot i) \<longleftrightarrow> i < length STEPS"
| "wz_enabled w _ \<longleftrightarrow> True"

fun wz_handle :: "wizard \<Rightarrow> wizard_event \<Rightarrow> wizard" where
  "wz_handle w W_skip = w\<lparr> wz_completed := wz_completed w + 1 \<rparr>"
| "wz_handle w W_back = w\<lparr> wz_step := wz_step w - 1 \<rparr>"
| "wz_handle w W_next =
     (if isLast w then w\<lparr> wz_completed := wz_completed w + 1 \<rparr> else w\<lparr> wz_step := wz_step w + 1 \<rparr>)"
| "wz_handle w (W_dot i) = w\<lparr> wz_step := i \<rparr>"

definition wizard_run :: "wizard \<Rightarrow> wizard_event \<Rightarrow> wizard" where
  "wizard_run w ev = (if wz_enabled w ev then wz_handle w ev else w)"

record wizard_view =
  wv_title :: string
  wv_body :: string
  wv_flow :: "(string \<times> bool) list option"
  wv_back :: bool
  wv_button :: string
  wv_dots :: "(string \<times> string) list"

text \<open>\<^verbatim>\<open>STEPS[step]\<close> is \<^verbatim>\<open>undefined\<close> out of range, and reading its title throws.\<close>

definition OnboardingWizard :: "wizard \<Rightarrow> wizard_view result" where
  "OnboardingWizard w =
     (if wz_step w \<ge> length STEPS then Inl ''Cannot read properties of undefined (reading 'icon')''
      else let current = STEPS ! wz_step w
        in Inr \<lparr> wv_title = ws_title current, wv_body = ws_body current,
             wv_flow = map_option (\<lambda>fs. map (\<lambda>(i, s). (s, i + 1 < length fs)) (enumerated fs)) (ws_flow current),
             wv_back = (wz_step w > 0),
             wv_button = (if isLast w then ''Get Started'' else ''Next''),
             wv_dots = map (\<lambda>i. (''onboarding-dot '' @ (if i = wz_step w then ''active'' else []) @ '' '' @
                                   (if i < wz_step w then ''done'' else []), ''Step '' @ show_nat (i + 1)))
               [0..<length STEPS] \<rparr>)"

section \<open>Error boundary\<close>

record boundary =
  eb_hasError :: bool
  eb_error :: "string option"

definition fresh_boundary :: boundary where
  "fresh_boundary = \<lparr> eb_hasError = False, eb_error = None \<rparr>"

definition getDerivedStateFromError :: "string \<Rightarrow> boundary" where
  "getDerivedStateFromError e = \<lparr> eb_hasError = True, eb_error = Some e \<rparr>"

definition tryAgain :: "boundary \<Rightarrow> boundary" where
  "tryAgain b = b\<lparr> eb_hasError := False, eb_error := None \<rparr>"

datatype 'v boundary_view = Children 'v | Fallback 'v | Failed (fv_message: "string option")

definition boundary_render :: "'v option \<Rightarrow> 'v result \<Rightarrow> boundary \<Rightarrow> 'v boundary_view result" where
  "boundary_render fallback children b =
     (if eb_hasError b then
        (case fallback of Some v \<Rightarrow> Inr (Fallback v) | None \<Rightarrow> Inr (Failed (eb_error b)))
      else map_sum id Children children)"

text \<open>React renders once more with the derived state when a child throws.\<close>

definition ErrorBoundary :: "'v option \<Rightarrow> 'v result \<Rightarrow> boundary \<Rightarrow> 'v boundary_view result \<times> boundary" where
  "ErrorBoundary fallback children b =
     (case boundary_render fallback children b of
        Inr v \<Rightarrow> (Inr v, b)
      | Inl e \<Rightarrow> (let b' = getDerivedStateFromError e in (boundary_render fallback children b', b')))"

section \<open>Not found\<close>

datatype navigation = To string | Delta int

definition NotFoundPage :: "string \<times> string \<times> (string \<times> navigation) list" where
  "NotFoundPage =
     (''404'', ''Migration not found'', [(''Back to Dashboard'', To ''/''), (''Go Back'', Delta (- 1))])"

section \<open>The dialog's listener\<close>

text \<open>The dialog owns one listener while it is open, after those that were there, and none otherwise.\<close>

definition dialog_ok :: "(nat \<times> 'c) list \<Rightarrow> 'c dialog \<Rightarrow> bool" where
  "dialog_ok ls s \<longleftrightarrow>
     (\<forall>l \<in> set (kb_listeners (dg_keys s)). fst l < kb_next (dg_keys s)) \<and>
     (case dg_deps s of
        Some (True, f) \<Rightarrow> (\<exists>i. dg_cleanup s = Some i \<and> kb_listeners (dg_keys s) = ls @ [(i, f)] \<and>
          (\<forall>l \<in> set ls. fst l \<noteq> i))
      | _ \<Rightarrow> dg_cleanup s = None \<and> kb_listeners (dg_keys s) = ls)"

lemma dialog_cleanup_ok:
  "dialog_ok ls s \<Longrightarrow> dg_cleanup (dialog_cleanup s) = None \<and> kb_listeners (dg_keys (dialog_cleanup s)) = ls \<and>
    (\<forall>l \<in> set ls. fst l < kb_next (dg_keys (dialog_cleanup s)))"
  by (auto simp: dialog_ok_def dialog_cleanup_def split: option.splits bool.splits)

lemma dialog_ok_step: "dialog_ok ls s \<Longrightarrow> dialog_ok ls (dialog_step s ev)"
proof (cases ev)
  case (D_render isOpen f)
  assume ok: "dialog_ok ls s"
  show ?thesis
  proof (cases "dg_deps s = Some (isOpen, f)")
    case False
    then show ?thesis
      using dialog_cleanup_ok [OF ok]
      by (auto simp: D_render dialog_ok_def dialog_effect_def Let_def less_Suc_eq split: bool.split)
  qed (use ok in \<open>simp add: D_render\<close>)
next
  case (D_focus x)
  assume "dialog_ok ls s"
  then show ?thesis by (auto simp: D_focus dialog_ok_def split: option.splits bool.splits)
next
  case D_unmount
  assume "dialog_ok ls s"
  from dialog_cleanup_ok [OF this] show ?thesis by (simp add: D_unmount dialog_ok_def)
qed

interpretation dialog_life: run_invariant dialog_step "dialog_ok ls" for ls
  by unfold_locales (rule dialog_ok_step)

text \<open>The last render since the dialog was mounted, read off the events alone.\<close>

definition last_render :: "'c dialog_life list \<Rightarrow> (bool \<times> 'c) option" where
  "last_render evs =
     foldl (\<lambda>r ev. case ev of D_render isOpen f \<Rightarrow> Some (isOpen, f) | D_focus x \<Rightarrow> r | D_unmount \<Rightarrow> None) None evs"

lemma deps_last_render: "dg_deps (foldl dialog_step (no_dialog ls n) evs) = last_render evs"
proof (induction evs rule: rev_induct)
  case (snoc ev evs)
  then show ?case
    by (cases ev) (auto simp: last_render_def dialog_effect_def dialog_cleanup_def Let_def split: option.split)
qed (simp add: last_render_def no_dialog_def)

section \<open>The wizard's invariant\<close>

lemma length_STEPS [simp]: "length STEPS = 4"
  by (simp add: STEPS_def)

interpretation wizard_life: run_invariant wizard_run "\<lambda>w. wz_step w < 4"
proof
  show "wz_step w < 4 \<Longrightarrow> wz_step (wizard_run w ev) < 4" for w ev
    by (cases ev) (auto simp: wizard_run_def isLast_def)
qed

lemma next_steps:
  "wz_step w + k \<le> 3 \<Longrightarrow>
   foldl wizard_run w (replicate k W_next) = w\<lparr> wz_step := wz_step w + k \<rparr>"
  by (induction k arbitrary: w) (auto simp: wizard_run_def isLast_def)

text \<open>The pages pass a new function on every render, and each new one moves the focus to Cancel.\<close>

lemma rerender_takes_focus:
  "dg_deps s = Some (True, f) \<Longrightarrow> g \<noteq> f \<Longrightarrow>
    dg_focus (foldl dialog_step s [D_focus On_confirm, D_render True g]) = On_cancel"
  by (simp add: dialog_effect_def Let_def)

lemma tour_lists_flow: "ws_flow (STEPS ! 0) = Some (map state_str STATE_FLOW)"
  by (simp add: STEPS_def STATE_FLOW_def)

section \<open>Properties\<close>

text \<open>
  C38: Escape cancels the open dialog, once. After any renders, focus changes and unmounting, the key runs
  the listeners that were there before and, exactly if the last render of the mounted dialog was an open
  one, the \<^verbatim>\<open>onCancel\<close> that render was given; no listener of an earlier render is left.
\<close>

theorem escape_cancels_open_dialog:
  assumes "\<forall>l \<in> set ls. fst l < n"
  shows "handleKey ''Escape'' (foldl dialog_step (no_dialog ls n) evs) =
    map snd ls @ (case last_render evs of Some (True, f) \<Rightarrow> [f] | _ \<Rightarrow> [])"
proof -
  let ?s = "foldl dialog_step (no_dialog ls n) evs"
  have "dialog_ok ls (no_dialog ls n)" using assms by (simp add: dialog_ok_def no_dialog_def)
  then have "dialog_ok ls ?s" by (rule dialog_life.run_inv)
  then have "handleKey ''Escape'' ?s = map snd ls @ (case dg_deps ?s of Some (True, f) \<Rightarrow> [f] | _ \<Rightarrow> [])"
    by (auto simp: dialog_ok_def handleKey_def split: option.splits bool.splits)
  then show ?thesis by (simp only: deps_last_render)
qed

theorem escape_cancels_open_dialog_witness:
  "handleKey ''Escape'' (foldl dialog_step (no_dialog [(0, ''other'')] 1) [D_render True ''a'', D_render True ''b'']) =
     [''other'', ''b'']"
  using escape_cancels_open_dialog [of "[(0, ''other'')]" 1 "[D_render True ''a'', D_render True ''b'']"]
  by (simp add: last_render_def)

text \<open>
  The tour never shows a missing step and can always be finished. After any clicks it renders, and
  from there pressing the main button once per remaining step calls \<^verbatim>\<open>onComplete\<close> exactly once.
\<close>

theorem tour_can_be_finished:
  assumes "w = foldl wizard_run fresh_wizard evs"
  shows "(\<exists>v. OnboardingWizard w = Inr v) \<and>
    wz_completed (foldl wizard_run w (replicate (length STEPS - wz_step w) W_next)) = wz_completed w + 1"
proof
  have lt: "wz_step w < 4" unfolding assms by (rule wizard_life.run_inv) (simp add: fresh_wizard_def)
  then show "\<exists>v. OnboardingWizard w = Inr v" by (simp add: OnboardingWizard_def Let_def)
  define k where "k = 3 - wz_step w"
  have k: "length STEPS - wz_step w = Suc k" "wz_step w + k = 3" using lt by (auto simp: k_def)
  have split: "replicate (Suc k) W_next = replicate k W_next @ [W_next]" by (simp add: replicate_append_same)
  show "wz_completed (foldl wizard_run w (replicate (length STEPS - wz_step w) W_next)) = wz_completed w + 1"
    using next_steps [of w k] k(2)
    by (simp only: k(1) split foldl_append foldl.simps) (simp add: wizard_run_def isLast_def)
qed

theorem tour_can_be_finished_witness:
  "\<exists>v. OnboardingWizard (foldl wizard_run fresh_wizard [W_next, W_dot 3, W_back, W_dot 9]) = Inr v"
  using tour_can_be_finished [OF refl, of "[W_next, W_dot 3, W_back, W_dot 9]"] by blast

text \<open>
  The boundary contains errors. It never throws, it shows its children exactly when they render and
  no error is pending, and trying again brings them back exactly when they render by then.
\<close>

theorem boundary_contains_errors:
  "(\<exists>v. fst (ErrorBoundary fallback children b) = Inr v) \<and>
   (\<forall>c. fst (ErrorBoundary fallback children b) = Inr (Children c) \<longleftrightarrow> \<not> eb_hasError b \<and> children = Inr c) \<and>
   (\<forall>c. fst (ErrorBoundary fallback children (tryAgain b)) = Inr (Children c) \<longleftrightarrow> children = Inr c)"
  by (cases children; cases fallback)
    (auto simp: ErrorBoundary_def boundary_render_def getDerivedStateFromError_def tryAgain_def)

end
