(* ===== verification/Status.thy ===== *)
theory Status
  imports Types JsText Http Polling
begin

text \<open>
  \<^verbatim>\<open>frontend/src/components/SystemStatusPanel.tsx\<close>: the panel on the dashboard that asks for the
  engine's status every ten seconds. It calls \<^verbatim>\<open>fetch\<close> itself, without the API client. The clock's text
  is a parameter. Styling is not modelled.
\<close>

section \<open>State\<close>

record db_status =
  db_active :: number
  db_idle :: number
  db_max :: number

record system_status =
  sys_status :: string
  sys_time :: string
  sys_migrations :: "(number \<times> (string \<times> number) list) option"
  sys_database :: "db_status option"
  sys_lag :: "number option"
  sys_workers :: "(number \<times> number) option"

text \<open>The panel: its two hooks, the number of requests in flight, and the life of its interval.\<close>

record status_panel =
  sp_status :: "system_status option"
  sp_loading :: bool
  sp_pending :: nat
  sp_poll :: "unit mount"

definition STATUS_REQUEST :: request where
  "STATUS_REQUEST = \<lparr> rq_method = GET, rq_url = ''/status'', rq_headers = [], rq_body = NoBody \<rparr>"

definition STATUS_INTERVAL :: nat where
  "STATUS_INTERVAL = 10000"

section \<open>Operations\<close>

definition fetchStatus :: "status_panel \<Rightarrow> status_panel" where
  "fetchStatus s = s\<lparr> sp_pending := sp_pending s + 1 \<rparr>"

text \<open>The answer to a request: a failure of any kind leaves the last status.\<close>

definition status_settled :: "system_status response result \<Rightarrow> status_panel \<Rightarrow> status_panel" where
  "status_settled r s =
     (let s' = (case r of
          Inl _ \<Rightarrow> s
        | Inr res \<Rightarrow> if rs_ok res then (case rs_json res of Inr data \<Rightarrow> s\<lparr> sp_status := Some data \<rparr> | Inl _ \<Rightarrow> s) else s)
      in s'\<lparr> sp_loading := False, sp_pending := sp_pending s - 1 \<rparr>)"

definition status_life :: "unit life \<Rightarrow> status_panel \<Rightarrow> status_panel" where
  "status_life ev s = s\<lparr> sp_poll := life_step (\<lambda>_. plain_effect STATUS_INTERVAL) poll_cleanup (sp_poll s) ev \<rparr>"

text \<open>The first render runs the effect: a request at once, and the interval.\<close>

definition mount_status :: "timers \<Rightarrow> status_panel" where
  "mount_status h = status_life (Render ())
     (fetchStatus \<lparr> sp_status = None, sp_loading = True, sp_pending = 0, sp_poll = unmounted h \<rparr>)"

datatype status_event =
    U_tick | U_settled "system_status response result" | U_leave | U_other_set nat | U_other_clear nat

fun status_step :: "status_panel \<Rightarrow> status_event \<Rightarrow> status_panel" where
  "status_step s U_tick = (if own_live (sp_poll s) = [] then s else fetchStatus s)"
| "status_step s (U_settled r) = (if sp_pending s = 0 then s else status_settled r s)"
| "status_step s U_leave = status_life Unmount s"
| "status_step s (U_other_set ms) = status_life (Other_set ms) s"
| "status_step s (U_other_clear i) = status_life (Other_clear i) s"

section \<open>What is shown\<close>

definition db_pct :: "system_status \<Rightarrow> number" where
  "db_pct st =
     (case sys_database st of
        None \<Rightarrow> Fin 0
      | Some d \<Rightarrow> js_round (js_mul (js_div (js_add (db_active d) (db_idle d)) (db_max d)) (Fin 100)))"

definition grade :: "nat \<Rightarrow> nat \<Rightarrow> number \<Rightarrow> string" where
  "grade high mid n =
     (if js_lt (Fin (of_nat high)) n then ''danger'' else if js_lt (Fin (of_nat mid)) n then ''warning'' else ''success'')"

definition running_text :: "system_status \<Rightarrow> string" where
  "running_text st =
     (case sys_migrations st of
        None \<Rightarrow> ''none active''
      | Some (_, states) \<Rightarrow>
          (case om_get states ''Running'' of
             Some n \<Rightarrow> if js_truthy n then num_text n @ '' active'' else ''none active''
           | None \<Rightarrow> ''none active''))"

definition or_zero :: "number option \<Rightarrow> number" where
  "or_zero n = (case n of Some v \<Rightarrow> v | None \<Rightarrow> Fin 0)"

record status_view =
  sv_time :: string
  sv_migrations :: "string \<times> string"
  sv_db :: "string \<times> string \<times> string"
  sv_lag :: "string \<times> string \<times> string"
  sv_workers :: "string \<times> string"

definition status_view_of :: "(string \<Rightarrow> string) \<Rightarrow> system_status \<Rightarrow> status_view" where
  "status_view_of clock st =
     (let lag = or_zero (sys_lag st)
      in \<lparr> sv_time = clock (sys_time st),
           sv_migrations = (num_text (or_zero (map_option fst (sys_migrations st))), running_text st),
           sv_db = (grade 80 60 (db_pct st), num_text (db_pct st) @ ''%'',
             num_text (or_zero (map_option db_active (sys_database st))) @ '' active / '' @
             num_text (or_zero (map_option db_max (sys_database st))) @ '' max''),
           sv_lag = (grade 1000 100 lag, num_text lag @ ''ms'', if js_lt lag (Fin 100) then ''healthy'' else ''elevated''),
           sv_workers = (num_text (or_zero (map_option fst (sys_workers st))),
             num_text (or_zero (map_option snd (sys_workers st))) @ '' pending'') \<rparr>)"

definition SystemStatusPanel :: "(string \<Rightarrow> string) \<Rightarrow> status_panel \<Rightarrow> status_view option" where
  "SystemStatusPanel clock s =
     (if sp_loading s then None else map_option (status_view_of clock) (sp_status s))"

section \<open>The abstract panel\<close>

text \<open>Of the answers that arrived, the last readable one counts.\<close>

definition readable :: "system_status response result \<Rightarrow> system_status option" where
  "readable r =
     (case r of
        Inr res \<Rightarrow> if rs_ok res then (case rs_json res of Inr data \<Rightarrow> Some data | Inl _ \<Rightarrow> None) else None
      | Inl _ \<Rightarrow> None)"

fun last_readable :: "system_status response result list \<Rightarrow> system_status option" where
  "last_readable [] = None"
| "last_readable (r # rs) = (case last_readable rs of Some st \<Rightarrow> Some st | None \<Rightarrow> readable r)"

lemma last_readable_snoc:
  "last_readable (rs @ [r]) = (case readable r of Some st \<Rightarrow> Some st | None \<Rightarrow> last_readable rs)"
  by (induction rs) (auto split: option.split)

text \<open>The answers a run has taken in, by the number of requests open before each event.\<close>

fun answers :: "status_panel \<Rightarrow> status_event list \<Rightarrow> system_status response result list" where
  "answers s [] = []"
| "answers s (U_settled r # evs) =
     (if sp_pending s = 0 then answers s evs else r # answers (status_settled r s) evs)"
| "answers s (ev # evs) = answers (status_step s ev) evs"

lemma status_settled_simps:
  "sp_loading (status_settled r s) = False"
  "sp_status (status_settled r s) = (case readable r of Some st \<Rightarrow> Some st | None \<Rightarrow> sp_status s)"
  "sp_poll (status_settled r s) = sp_poll s"
  by (auto simp: status_settled_def readable_def Let_def split: sum.split)

lemma quiet_events:
  "(\<And>r. ev \<noteq> U_settled r) \<Longrightarrow>
    sp_status (status_step s ev) = sp_status s \<and> sp_loading (status_step s ev) = sp_loading s"
  by (cases ev) (auto simp: fetchStatus_def status_life_def)

lemma shown_after:
  "sp_status (foldl status_step s evs) =
     (case last_readable (answers s evs) of Some st \<Rightarrow> Some st | None \<Rightarrow> sp_status s)"
  "sp_loading (foldl status_step s evs) \<longleftrightarrow> sp_loading s \<and> answers s evs = []"
  by (induction s evs rule: answers.induct)
    (simp_all add: status_settled_simps quiet_events fetchStatus_def status_life_def split: option.split)

text \<open>The interval.\<close>

interpretation status_run: run_invariant status_step "\<lambda>s. plain.good STATUS_INTERVAL (sp_poll s)"
proof
  show "plain.good STATUS_INTERVAL (sp_poll (status_step s ev))" if "plain.good STATUS_INTERVAL (sp_poll s)" for s ev
    using that
    by (cases ev)
      (simp_all add: fetchStatus_def status_settled_simps status_life_def plain.good_step del: life_step.simps)
qed

section \<open>Properties\<close>

text \<open>
  C32: the panel shows the last status it could read. After any order of ticks, answers and other
  timers it shows nothing until a readable answer arrived and then the last readable one, whatever
  failures came in between.
\<close>

theorem shows_last_readable:
  "SystemStatusPanel clock (foldl status_step (mount_status h) evs) =
     map_option (status_view_of clock) (last_readable (answers (mount_status h) evs))"
proof -
  have start: "sp_status (mount_status h) = None" "sp_loading (mount_status h)"
    by (simp_all add: mount_status_def status_life_def fetchStatus_def)
  show ?thesis
    using shown_after [of "mount_status h" evs] start
    by (cases "answers (mount_status h) evs") (simp_all add: SystemStatusPanel_def split: option.split)
qed

lemma status_periods:
  "plain.good STATUS_INTERVAL (sp_poll s) \<Longrightarrow>
    map snd (own_live (sp_poll s)) = (if mt_deps (sp_poll s) = None then [] else [10000])"
  using plain.interval_wanted [of STATUS_INTERVAL "sp_poll s"] plain.no_interval_unmounted [of STATUS_INTERVAL "sp_poll s"]
  by (cases "mt_deps (sp_poll s)") (simp_all add: STATUS_INTERVAL_def)

text \<open>
  One interval while the panel is mounted and none after. Whatever other components do with their
  timers, the panel's live intervals are one of ten seconds until it is left.
\<close>

theorem status_polls_while_mounted:
  assumes "\<forall>e \<in> set (tm_live h). fst e < tm_next h"
    and "s = foldl status_step (mount_status h) evs"
  shows "map snd (own_live (sp_poll s)) = (if mt_deps (sp_poll s) = None then [] else [10000])"
proof -
  have "plain.good STATUS_INTERVAL (unmounted h :: unit mount)" using assms(1) by (rule plain.good_start)
  then have "plain.good STATUS_INTERVAL (sp_poll (mount_status h))"
    by (simp add: mount_status_def status_life_def fetchStatus_def plain.good_step del: life_step.simps)
  then have "plain.good STATUS_INTERVAL (sp_poll s)" unfolding assms(2) by (rule status_run.run_inv)
  then show ?thesis by (rule status_periods)
qed

theorem status_polls_while_mounted_witness:
  "map snd (own_live (sp_poll (foldl status_step (mount_status no_timers) [U_tick, U_leave]))) = []"
proof -
  let ?s = "foldl status_step (mount_status no_timers) [U_tick, U_leave]"
  have "mt_deps (sp_poll ?s) = None"
    by (simp add: mount_status_def status_life_def fetchStatus_def unmounted_def run_effect_def plain_effect_def
        setInterval_def no_timers_def case_prod_beta Let_def run_cleanup_def)
  then show ?thesis
    using status_polls_while_mounted [OF _ refl, of no_timers "[U_tick, U_leave]"] by (simp add: no_timers_def)
qed

text \<open>
  The panel never reports an active migration. The engine counts migrations by their state and no
  state has the name Running, so whatever it counts, the panel says that none is active.
\<close>

theorem never_any_active:
  assumes "sys_migrations st = Some (count, states)" and "fst ` set states \<subseteq> range state_str"
  shows "snd (sv_migrations (status_view_of clock st)) = ''none active''"
proof -
  have "''Running'' \<notin> range state_str"
  proof
    assume "''Running'' \<in> range state_str"
    then obtain x where "''Running'' = state_str x" by blast
    then show False by (cases x) simp_all
  qed
  then have "om_get states ''Running'' = None"
    using assms(2) by (auto simp: om_get_def map_of_eq_None_iff)
  then show ?thesis using assms(1) by (simp add: status_view_of_def running_text_def Let_def)
qed

theorem never_any_active_witness:
  "snd (sv_migrations (status_view_of id \<lparr> sys_status = ''healthy'', sys_time = ''t'',
      sys_migrations = Some (Fin 2, [(''Canary'', Fin 2)]), sys_database = None, sys_lag = None, sys_workers = None \<rparr>))
    = ''none active''"
proof -
  have states: "fst ` set [(''Canary'', Fin 2)] \<subseteq> range state_str"
    by (intro image_subsetI range_eqI [of _ _ Canary]) simp
  show ?thesis by (rule never_any_active [OF _ states]) simp
qed

text \<open>
  The connection gauge. When the counted connections are at most the maximum, the percentage lies
  between 0 and 100; it is graded danger above 80 and warning above 60.
\<close>

theorem db_gauge:
  assumes "sys_database st = Some \<lparr> db_active = Fin (of_nat a), db_idle = Fin (of_nat i), db_max = Fin (of_nat m) \<rparr>"
    and "a + i \<le> m" and "0 < m" and "m \<le> 2 ^ 53"
  shows "\<exists>p. db_pct st = Fin p \<and> 0 \<le> p \<and> p \<le> 100 \<and>
    fst (sv_db (status_view_of clock st)) =
      (if 80 < p then ''danger'' else if 60 < p then ''warning'' else ''success'')"
proof -
  have sum: "fl (of_nat a + of_nat i) = Fin (of_nat (a + i))" using fl_of_nat [of "a + i"] assms(2,4) by simp
  have "(of_nat (a + i) :: rat) \<le> of_nat m" using assms(2) by (simp only: of_nat_le_iff)
  then obtain q where q: "fl (of_nat (a + i) / of_nat m) = Fin q" "0 \<le> q" "q \<le> 1"
    using b64.ratio_unit [of "of_nat (a + i)" "of_nat m"] assms(3) by auto
  then obtain p where p: "fl (q * 100) = Fin p" "0 \<le> p" "p \<le> 100" using b64.percent_range by blast
  have "db_pct st = Fin (of_int \<lfloor>p + 1 / 2\<rfloor>)"
    using assms(3) by (simp add: db_pct_def assms(1) sum q(1) p(1) del: of_nat_add)
  moreover have "0 \<le> \<lfloor>p + 1 / 2\<rfloor>" "\<lfloor>p + 1 / 2\<rfloor> \<le> 100" using p by (simp_all add: floor_le_iff)
  ultimately show ?thesis
    by (intro exI [of _ "of_int \<lfloor>p + 1 / 2\<rfloor>"]) (simp add: status_view_of_def Let_def grade_def)
qed

theorem db_gauge_witness:
  "\<exists>p. db_pct \<lparr> sys_status = ''healthy'', sys_time = ''t'', sys_migrations = None,
      sys_database = Some \<lparr> db_active = Fin (of_nat 70), db_idle = Fin (of_nat 15), db_max = Fin (of_nat 100) \<rparr>,
      sys_lag = None, sys_workers = None \<rparr> = Fin p \<and> 0 \<le> p \<and> p \<le> 100"
  using db_gauge [of "\<lparr> sys_status = ''healthy'', sys_time = ''t'', sys_migrations = None,
      sys_database = Some \<lparr> db_active = Fin (of_nat 70), db_idle = Fin (of_nat 15), db_max = Fin (of_nat 100) \<rparr>,
      sys_lag = None, sys_workers = None \<rparr>" 70 15 100] by auto

end
