(* ===== verification/Console.thy ===== *)
theory Console
  imports DashProps DetailProps Metrics NewPlanProps DriftScan SessionProps Widgets Status
begin

text \<open>
  The whole console as one machine: the session of \<^verbatim>\<open>App.tsx\<close>, the page that its router has mounted
  with the panels inside it, the pages that were left while they still had requests or timeouts
  pending, and the error boundary around everything. The pages share the session's toasts, address and
  API client; \<open>cn_sent\<close> collects the requests they send through that client. A step is one event of one
  part, followed by the render that it causes (two, where a handler of App moves to another address).
\<close>

section \<open>State\<close>

text \<open>
  What is mounted below the error boundary. The migration page has its metrics panel inside it while it
  shows a record; a panel that was removed stays in the list, before the one shown now.
\<close>

datatype mounted =
    At_login
  | At_failed
  | At_missing
  | At_dash dashboard status_panel
  | At_detail detail "metrics_panel list"
  | At_plan new_plan
  | At_drift drift_page

record console =
  cn_session :: session
  cn_page :: mounted
  cn_left :: "mounted list"
  cn_boundary :: boundary
  cn_sent :: "request list"

text \<open>
  What the browser and the libraries decide: the route of an address and the id in it, and the texts of
  the errors that \<^verbatim>\<open>JSON.parse\<close> and React raise.
\<close>

record browser =
  br_pick :: "(string \<times> page) list \<Rightarrow> string \<Rightarrow> page"
  br_id :: "string \<Rightarrow> string"
  br_json_error :: "string \<Rightarrow> string"
  br_child_error :: "json \<Rightarrow> string"

section \<open>The mounted page\<close>

fun put_toaster :: "toaster \<Rightarrow> mounted \<Rightarrow> mounted" where
  "put_toaster t (At_dash d sp) = At_dash (d\<lparr> db_toaster := t \<rparr>) sp"
| "put_toaster t (At_detail d ms) = At_detail (d\<lparr> dt_toaster := t \<rparr>) ms"
| "put_toaster t (At_plan p) = At_plan (p\<lparr> np_toaster := t \<rparr>)"
| "put_toaster t (At_drift p) = At_drift (p\<lparr> ds_toaster := t \<rparr>)"
| "put_toaster t m = m"

fun toaster_of :: "toaster \<Rightarrow> mounted \<Rightarrow> toaster" where
  "toaster_of t (At_dash d sp) = db_toaster d"
| "toaster_of t (At_detail d ms) = dt_toaster d"
| "toaster_of t (At_plan p) = np_toaster p"
| "toaster_of t (At_drift p) = ds_toaster p"
| "toaster_of t m = t"

text \<open>The metrics panel follows the page: it is there while a record is shown, with that record's ids.\<close>

definition panel_shown :: "detail \<Rightarrow> bool" where
  "panel_shown d \<longleftrightarrow> dt_mounted d \<and> (case detail_view d of Inr (Detail_page p) \<Rightarrow> True | _ \<Rightarrow> False)"

definition panel_props :: "detail \<Rightarrow> metrics_props" where
  "panel_props d =
     (case dt_record d of
        Some r \<Rightarrow> (mr_migration_id r, mr_plan_id r, isLive d)
      | None \<Rightarrow> ([], [], False))"

definition sync_panel :: "detail \<Rightarrow> metrics_panel list \<Rightarrow> metrics_panel list" where
  "sync_panel d ms =
     (if panel_shown d then
        (if ms = [] \<or> \<not> mt_mounted (last ms)
         then ms @ [metrics_step (fresh_metrics (panel_props d) no_timers) M_mount]
         else butlast ms @ [metrics_step (last ms) (M_props (panel_props d))])
      else if ms = [] then [] else butlast ms @ [metrics_step (last ms) M_leave])"

datatype page_event =
    On_dash dash_event
  | On_status status_event
  | On_detail detail_event
  | On_metrics metrics_event
  | On_plan plan_event
  | On_drift drift_event

text \<open>Mounting, unmounting and a new id are the router's business, and toasts the provider's.\<close>

fun own_event :: "page_event \<Rightarrow> bool" where
  "own_event (On_dash e) \<longleftrightarrow> (case e of Mount \<Rightarrow> False | Dashboard.Leave \<Rightarrow> False | Toaster t \<Rightarrow> False | _ \<Rightarrow> True)"
| "own_event (On_status e) \<longleftrightarrow> (case e of U_tick \<Rightarrow> True | U_settled r \<Rightarrow> True | _ \<Rightarrow> False)"
| "own_event (On_detail e) \<longleftrightarrow> (case e of D_mount \<Rightarrow> False | D_leave \<Rightarrow> False | D_change_id i \<Rightarrow> False | _ \<Rightarrow> True)"
| "own_event (On_metrics e) \<longleftrightarrow> (case e of M_tick \<Rightarrow> True | M_fetched i r \<Rightarrow> True | _ \<Rightarrow> False)"
| "own_event (On_plan e) \<longleftrightarrow> e \<noteq> P_leave"
| "own_event (On_drift e) \<longleftrightarrow> e \<noteq> S_leave"

definition detail_moves :: "detail_event \<Rightarrow> detail \<Rightarrow> metrics_panel list \<Rightarrow> mounted" where
  "detail_moves e d ms = (let d' = detail_step d e in At_detail d' (sync_panel d' ms))"

definition panel_moves :: "metrics_event \<Rightarrow> metrics_panel list \<Rightarrow> metrics_panel list" where
  "panel_moves e ms = (if ms = [] then [] else butlast ms @ [metrics_step (last ms) e])"

fun page_step :: "(string \<Rightarrow> string) \<Rightarrow> mounted \<Rightarrow> page_event \<Rightarrow> mounted" where
  "page_step msg (At_dash d sp) (On_dash e) = At_dash (dash_step d e) sp"
| "page_step msg (At_dash d sp) (On_status e) = At_dash d (status_step sp e)"
| "page_step msg (At_detail d ms) (On_detail e) = detail_moves e d ms"
| "page_step msg (At_detail d ms) (On_metrics e) = At_detail d (panel_moves e ms)"
| "page_step msg (At_plan p) (On_plan e) = At_plan (plan_step msg p e)"
| "page_step msg (At_drift p) (On_drift e) = At_drift (drift_step msg p e)"
| "page_step msg m e = m"

fun page_leave :: "mounted \<Rightarrow> mounted" where
  "page_leave (At_dash d sp) = At_dash (dash_step d Dashboard.Leave) (status_step sp U_leave)"
| "page_leave (At_detail d ms) = detail_moves D_leave d ms"
| "page_leave (At_plan p) = At_plan (plan_step (\<lambda>_. []) p P_leave)"
| "page_leave (At_drift p) = At_drift (drift_step (\<lambda>_. []) p S_leave)"
| "page_leave m = m"

fun mount_page :: "page \<Rightarrow> string \<Rightarrow> toaster \<Rightarrow> mounted" where
  "mount_page Page_Dashboard i t =
     At_dash (dash_step (fresh_dashboard no_timers t) Mount) (mount_status no_timers)"
| "mount_page Page_MigrationDetail i t = detail_moves D_mount (fresh_detail i no_timers t) []"
| "mount_page Page_NewPlan i t = At_plan (fresh_plan t)"
| "mount_page Page_DriftScan i t = At_drift (fresh_drift t)"
| "mount_page Page_NotFound i t = At_missing"

fun of_route :: "page \<Rightarrow> mounted \<Rightarrow> bool" where
  "of_route Page_Dashboard (At_dash d sp) = True"
| "of_route Page_MigrationDetail (At_detail d ms) = True"
| "of_route Page_NewPlan (At_plan p) = True"
| "of_route Page_DriftScan (At_drift p) = True"
| "of_route Page_NotFound At_missing = True"
| "of_route r m = False"

text \<open>The error of a render that threw, and the addresses the page has asked for.\<close>

fun page_failure :: "mounted \<Rightarrow> string option" where
  "page_failure (At_detail d ms) = dt_crashed d"
| "page_failure (At_plan p) = np_crashed p"
| "page_failure m = None"

fun page_navs :: "mounted \<Rightarrow> string list" where
  "page_navs (At_dash d sp) = db_navs d"
| "page_navs (At_plan p) = np_navs p"
| "page_navs m = []"

section \<open>The requests of a step\<close>

text \<open>A call of the API client before it is sent: method, path, headers of its own, body.\<close>

type_synonym api_call = "http_method \<times> string \<times> (string \<times> string) list \<times> body"

fun dash_requests :: "dash_call \<Rightarrow> api_call list" where
  "dash_requests Call_list = [(GET, ''/migrations'', [], NoBody)]"
| "dash_requests (Call_delete ids) = [(DELETE, ''/migrations'', JSON_TYPE, IdsBody ids)]"
| "dash_requests Call_reset = [(POST, ''/reset-demo'', [], NoBody)]"
| "dash_requests (Call_submit v) = [(POST, ''/plans'', JSON_TYPE, PlanBody (Built (demo_plan v)))]"

fun detail_requests :: "detail_call \<Rightarrow> api_call list" where
  "detail_requests (Get_record i) = [(GET, ''/migrations/'' @ i, XHR, NoBody)]"
| "detail_requests (Get_schema tbl) = [(GET, ''/schema/'' @ encodeURIComponent tbl, [], NoBody)]"
| "detail_requests (Get_safety i) =
     [(GET, ''/migrations/'' @ i @ ''/safety'', XHR, NoBody),
      (GET, ''/migrations/'' @ i @ ''/backfill'', XHR, NoBody),
      (GET, ''/migrations/'' @ i @ ''/canary'', XHR, NoBody)]"
| "detail_requests (Abort_call i m) = [(POST, ''/migrations/'' @ m @ ''/abort'', [], NoBody)]"

fun plan_requests :: "plan_call \<Rightarrow> api_call list" where
  "plan_requests (Load_schema tbl typed) = [(GET, ''/schema/'' @ encodeURIComponent tbl, [], NoBody)]"
| "plan_requests (Submit b) = [(POST, ''/plans'', JSON_TYPE, PlanBody b)]"

definition drift_requests :: "json \<Rightarrow> api_call list" where
  "drift_requests v = [(POST, ''/drift-scan'', JSON_TYPE, PlanBody (Raw v))]"

text \<open>The calls that are in flight after a step and were not before it, one that it settled aside.\<close>

definition issued :: "'c list \<Rightarrow> 'c list \<Rightarrow> 'c list \<Rightarrow> 'c list" where
  "issued done old new =
     (if set done \<subseteq> set old then drop (length old - length done) new else [])"

fun settles_dash :: "dash_event \<Rightarrow> dash_call list" where
  "settles_dash (Listed r) = [Call_list]"
| "settles_dash (Deleted ids r) = [Call_delete ids]"
| "settles_dash (Demo_reset r now) = [Call_reset]"
| "settles_dash (Demo_submitted v r) = [Call_submit v]"
| "settles_dash ev = []"

fun settles_detail :: "detail_event \<Rightarrow> detail_call list" where
  "settles_detail (D_record i r) = [Get_record i]"
| "settles_detail (D_schema tbl r) = [Get_schema tbl]"
| "settles_detail (D_safety i r1 r2 r3) = [Get_safety i]"
| "settles_detail (D_aborted i m r) = [Abort_call i m]"
| "settles_detail ev = []"

fun settles_plan :: "plan_event \<Rightarrow> plan_call list" where
  "settles_plan (P_schema tbl typed r) = [Load_schema tbl typed]"
| "settles_plan (P_submitted b r) = [Submit b]"
| "settles_plan ev = []"

fun settles_drift :: "drift_event \<Rightarrow> json list" where
  "settles_drift (S_scanned v r) = [v]"
| "settles_drift ev = []"

fun page_requests :: "(string \<Rightarrow> string) \<Rightarrow> mounted \<Rightarrow> page_event \<Rightarrow> api_call list" where
  "page_requests msg (At_dash d sp) (On_dash e) =
     concat (map dash_requests (issued (settles_dash e) (db_calls d) (db_calls (dash_step d e))))"
| "page_requests msg (At_detail d ms) (On_detail e) =
     concat (map detail_requests (issued (settles_detail e) (dt_calls d) (dt_calls (detail_step d e))))"
| "page_requests msg (At_plan p) (On_plan e) =
     concat (map plan_requests (issued (settles_plan e) (np_calls p) (np_calls (plan_step msg p e))))"
| "page_requests msg (At_drift p) (On_drift e) =
     concat (map drift_requests (issued (settles_drift e) (ds_calls p) (ds_calls (drift_step msg p e))))"
| "page_requests msg m e = []"

fun mount_requests :: "mounted \<Rightarrow> api_call list" where
  "mount_requests (At_dash d sp) = concat (map dash_requests (db_calls d))"
| "mount_requests (At_detail d ms) = concat (map detail_requests (dt_calls d))"
| "mount_requests m = []"

definition send_call :: "console \<Rightarrow> api_call \<Rightarrow> console" where
  "send_call c k =
     (case k of (m, path, extra, b) \<Rightarrow>
        let (rq, cl) = prepare m path extra b (se_client (cn_session c))
        in c\<lparr> cn_session := (cn_session c)\<lparr> se_client := cl \<rparr>, cn_sent := cn_sent c @ [rq] \<rparr>)"

definition send_all :: "api_call list \<Rightarrow> console \<Rightarrow> console" where
  "send_all calls c = foldl send_call c calls"

section \<open>Rendering\<close>

text \<open>The page that was shown is unmounted and kept with the pages left, the new one takes its place.\<close>

definition replace_page :: "mounted \<Rightarrow> console \<Rightarrow> console" where
  "replace_page q c = c\<lparr> cn_page := q, cn_left := cn_left c @ [page_leave (cn_page c)] \<rparr>"

definition fail_page :: "string \<Rightarrow> console \<Rightarrow> console" where
  "fail_page e c = (replace_page At_failed c)\<lparr> cn_boundary := getDerivedStateFromError e \<rparr>"

definition catch_error :: "console \<Rightarrow> console" where
  "catch_error c = (case page_failure (cn_page c) of None \<Rightarrow> c | Some e \<Rightarrow> fail_page e c)"

text \<open>A page takes part in an event with the toasts of the session, which it may add to.\<close>

definition follow :: "string list \<Rightarrow> string list \<Rightarrow> string \<Rightarrow> string" where
  "follow old new path = (if length old < length new then last new else path)"

definition taken :: "mounted \<Rightarrow> mounted \<Rightarrow> session \<Rightarrow> session" where
  "taken old new s =
     s\<lparr> se_toaster := toaster_of (se_toaster s) new, se_path := follow (page_navs old) (page_navs new) (se_path s) \<rparr>"

definition page_acts :: "browser \<Rightarrow> page_event \<Rightarrow> console \<Rightarrow> console" where
  "page_acts w e c =
     (let p = put_toaster (se_toaster (cn_session c)) (cn_page c); p' = page_step (br_json_error w) p e
      in send_all (page_requests (br_json_error w) p e)
           (c\<lparr> cn_page := p', cn_session := taken p p' (cn_session c) \<rparr>))"

definition left_acts :: "browser \<Rightarrow> nat \<Rightarrow> page_event \<Rightarrow> console \<Rightarrow> console" where
  "left_acts w i e c =
     (let p = put_toaster (se_toaster (cn_session c)) (cn_left c ! i); p' = page_step (br_json_error w) p e
      in send_all (page_requests (br_json_error w) p e)
           (c\<lparr> cn_left := (cn_left c)[i := p'], cn_session := taken p p' (cn_session c) \<rparr>))"

definition mount :: "browser \<Rightarrow> page \<Rightarrow> console \<Rightarrow> console" where
  "mount w r c =
     (let q = mount_page r (br_id w (se_path (cn_session c))) (se_toaster (cn_session c))
      in send_all (mount_requests q) (replace_page q c))"

fun shown_id :: "mounted \<Rightarrow> string option" where
  "shown_id (At_detail d ms) = Some (dt_id d)"
| "shown_id m = None"

text \<open>The router keeps the page of the same route, with a new id where the address has another one.\<close>

definition route_page :: "browser \<Rightarrow> console \<Rightarrow> console" where
  "route_page w c =
     (let s = cn_session c; r = br_pick w App_routes (se_path s); i = br_id w (se_path s)
      in if of_route r (cn_page c) then
           (if shown_id (cn_page c) = None \<or> shown_id (cn_page c) = Some i then c
            else catch_error (page_acts w (On_detail (D_change_id i)) c))
         else mount w r c)"

definition is_login :: "mounted \<Rightarrow> bool" where
  "is_login m = (case m of At_login \<Rightarrow> True | _ \<Rightarrow> False)"

definition is_failed :: "mounted \<Rightarrow> bool" where
  "is_failed m = (case m of At_failed \<Rightarrow> True | _ \<Rightarrow> False)"

definition render :: "browser \<Rightarrow> console \<Rightarrow> console" where
  "render w c =
     (if eb_hasError (cn_boundary c) then (if is_failed (cn_page c) then c else replace_page At_failed c)
      else case App (br_child_error w) (br_pick w) (cn_session c) of
          Inl e \<Rightarrow> fail_page e c
        | Inr (Shows_login v) \<Rightarrow> (if is_login (cn_page c) then c else replace_page At_login c)
        | Inr (Shows_app wz links role r) \<Rightarrow> route_page w c)"

section \<open>Events\<close>

datatype console_event =
    App_does app_event
  | Page_does page_event
  | Left_does nat page_event
  | Go_to string
  | Toasts_do toast_event
  | Try_again
  | Reload_page nat

definition with_session :: "(session \<Rightarrow> session) \<Rightarrow> console \<Rightarrow> console" where
  "with_session f c = c\<lparr> cn_session := f (cn_session c) \<rparr>"

text \<open>
  What App and the login page do is committed before the router follows: it moves to a new address in a
  transition of its own, which is rendered after the changes of state made beside it. So a user who signs
  in at another address than \<^verbatim>\<open>/\<close> sees the page of that address mounted first, with its effects, and the
  dashboard then. \<open>se_path\<close> is the address in the address bar; nothing happens between the two renders.
\<close>

definition render_app :: "browser \<Rightarrow> app_event \<Rightarrow> console \<Rightarrow> console" where
  "render_app w e c =
     (let before = se_path (cn_session c);
          after = se_path (app_handle (cn_session c) e);
          first = render w (with_session (\<lambda>s. (app_handle s e)\<lparr> se_path := before \<rparr>) c)
      in if after = before then first else render w (with_session (\<lambda>s. s\<lparr> se_path := after \<rparr>) first))"

text \<open>
  Opening the address \<open>path\<close>: nothing is mounted before. A reload forgets all but the storage and the
  address, and the requests sent stay sent.
\<close>

definition open_console :: "browser \<Rightarrow> (string \<Rightarrow> string option) \<Rightarrow> string \<Rightarrow> nat \<Rightarrow> request list \<Rightarrow> console" where
  "open_console w storage path now sent =
     render w \<lparr> cn_session = open_app storage path now, cn_page = At_login, cn_left = [],
       cn_boundary = fresh_boundary, cn_sent = sent \<rparr>"

text \<open>
  The controls of App and of the pages are gone while the error message is shown; its own buttons are
  \<^verbatim>\<open>Try Again\<close> and \<^verbatim>\<open>Refresh Page\<close>. A toast can be dismissed and time passes, but nothing is posted from
  outside.
\<close>

fun console_enabled :: "console \<Rightarrow> console_event \<Rightarrow> bool" where
  "console_enabled c (App_does e) \<longleftrightarrow> app_enabled (cn_session c) e \<and>
     (is_failed (cn_page c) \<longrightarrow> (case e of Login_settled q r \<Rightarrow> True | _ \<Rightarrow> False))"
| "console_enabled c (Page_does e) \<longleftrightarrow> own_event e"
| "console_enabled c (Left_does i e) \<longleftrightarrow> own_event e \<and> i < length (cn_left c)"
| "console_enabled c (Go_to path) \<longleftrightarrow> True"
| "console_enabled c (Toasts_do e) \<longleftrightarrow> (case e of Post k m \<Rightarrow> False | _ \<Rightarrow> True)"
| "console_enabled c Try_again \<longleftrightarrow> eb_hasError (cn_boundary c)"
| "console_enabled c (Reload_page now) \<longleftrightarrow> True"

fun console_handle :: "browser \<Rightarrow> console \<Rightarrow> console_event \<Rightarrow> console" where
  "console_handle w c (App_does e) = render_app w e c"
| "console_handle w c (Page_does e) = render w (catch_error (page_acts w e c))"
| "console_handle w c (Left_does i e) = render w (left_acts w i e c)"
| "console_handle w c (Go_to path) = render w (with_session (\<lambda>s. s\<lparr> se_path := path \<rparr>) c)"
| "console_handle w c (Toasts_do e) = with_session (\<lambda>s. s\<lparr> se_toaster := toast_step (se_toaster s) e \<rparr>) c"
| "console_handle w c Try_again = render w (c\<lparr> cn_boundary := tryAgain (cn_boundary c) \<rparr>)"
| "console_handle w c (Reload_page now) =
     open_console w (ac_storage (se_client (cn_session c))) (se_path (cn_session c)) now (cn_sent c)"

definition console_step :: "browser \<Rightarrow> console \<Rightarrow> console_event \<Rightarrow> console" where
  "console_step w c ev = (if console_enabled c ev then console_handle w c ev else c)"

definition console_run :: "browser \<Rightarrow> (string \<Rightarrow> string option) \<Rightarrow> string \<Rightarrow> nat \<Rightarrow> console_event list \<Rightarrow> console" where
  "console_run w storage path now evs = foldl (console_step w) (open_console w storage path now []) evs"

end
