(* ===== verification/ConsoleProps.thy ===== *)
theory ConsoleProps
  imports Console
begin

text \<open>
  What holds on every run of the console (\<^verbatim>\<open>Console.thy\<close>).
\<close>

section \<open>Toasts that a part posts\<close>

definition adds_toasts :: "toaster \<Rightarrow> toaster \<Rightarrow> bool" where
  "adds_toasts t t' \<longleftrightarrow> (\<exists>evs. t' = foldl toast_step t evs)"

lemma adds_refl [simp, intro]: "adds_toasts t t"
  unfolding adds_toasts_def by (rule exI [of _ "[]"]) simp

lemma adds_step [simp, intro]: "adds_toasts t (toast_step t e)"
  unfolding adds_toasts_def by (rule exI [of _ "[e]"]) simp

lemma adds_post [simp, intro]: "adds_toasts t (toast k m t)"
  using adds_step [of t "Post k m"] by simp

lemma adds_trans: "adds_toasts t u \<Longrightarrow> adds_toasts u v \<Longrightarrow> adds_toasts t v"
  unfolding adds_toasts_def by (metis foldl_append)

text \<open>So the provider's guarantees survive the part: what simulates the toaster before does after.\<close>

lemma sim_adds: "adds_toasts t u \<Longrightarrow> toast_sim t a \<Longrightarrow> \<exists>b. toast_sim u b"
proof -
  assume "adds_toasts t u" and sim: "toast_sim t a"
  then obtain evs where u: "u = foldl toast_step t evs" by (auto simp: adds_toasts_def)
  show ?thesis
    unfolding u using sim by (induction evs arbitrary: t a) (use sim_step in \<open>fastforce+\<close>)
qed

text \<open>The contract of a part that uses \<^verbatim>\<open>useToast\<close>: it only ever posts, dismisses, or lets time pass.\<close>

locale toast_user =
  fixes act :: "'s \<Rightarrow> 'e \<Rightarrow> 's" and shown :: "'s \<Rightarrow> toaster"
  assumes posts: "adds_toasts (shown s) (shown (act s e))"
begin

lemma run_posts: "adds_toasts (shown s) (shown (foldl act s es))"
  by (induction es arbitrary: s) (auto intro: adds_trans posts)

lemma run_refines: "toast_sim (shown s) a \<Longrightarrow> \<exists>b. toast_sim (shown (foldl act s es)) b"
  using run_posts by (rule sim_adds)

end

lemma dash_posts: "adds_toasts (db_toaster d) (db_toaster (dash_step d e))"
  by (cases e) (auto simp: dash_steps render_poll_def prune_selected_def split: sum.split)

lemma effects_toaster [simp]: "dt_toaster (run_effects i t s) = dt_toaster s"
  by (simp add: run_effects_def safety_render_def dt_render_poll_def fetchSafetyData_def
      fetchRecord_def schema_effect_def dt_fetchSchema_def dt_call_def Let_def split: option.split)

lemma detail_commit_toaster [simp]: "dt_toaster (dt_commit i t s) = dt_toaster s"
  by (simp add: dt_commit_def leave_page_def split: sum.split)

lemma detail_handle_posts: "adds_toasts (dt_toaster s) (dt_toaster (dt_handle s e))"
  by (cases e)
    (auto simp: record_fetched_def schema_fetched_def safety_fetched_def abort_done_def abort_start_def
      dt_settle_def dt_post_def dt_call_def fetchRecord_def fetchSafetyData_def leave_page_def Let_def
      split: sum.split option.split)

lemma detail_posts: "adds_toasts (dt_toaster s) (dt_toaster (detail_step s e))"
  by (cases rule: detail_step_cases [of s e]) (simp_all add: detail_handle_posts)

lemma plan_handle_posts: "adds_toasts (np_toaster s) (np_toaster (np_handle msg s e))"
  by (cases e)
    (auto simp: np_defs split: sum.split option.split prod.split)

lemma plan_posts: "adds_toasts (np_toaster s) (np_toaster (plan_step msg s e))"
  by (simp add: plan_step_def np_commit_def plan_handle_posts split: sum.split)

lemma drift_posts: "adds_toasts (ds_toaster s) (ds_toaster (drift_step msg s e))"
  by (cases e) (auto simp: drift_step_def ds_defs split: sum.split)

lemma login_posts: "adds_toasts (se_toaster s) (se_toaster (login_settled q resp s))"
  by (cases q)
    (auto simp: se_page_def signed_in_def handleLogin_def se_post_def Let_def split: sum.split prod.split)

lemma app_posts: "adds_toasts (se_toaster s) (se_toaster (app_handle s e))"
proof (cases e)
  case (Login_settled q resp)
  then show ?thesis using login_posts [of "s\<lparr> se_calls := remove1 q (se_calls s) \<rparr>" q resp] by simp
qed (simp_all add: se_page_def Session.handleSubmit_def handleInstantDemo_def handleOnboardingComplete_def
    handleLogout_def)

interpretation dash_toasts: toast_user dash_step db_toaster
  by unfold_locales (rule dash_posts)

interpretation detail_toasts: toast_user detail_step dt_toaster
  by unfold_locales (rule detail_posts)

interpretation plan_toasts: toast_user "plan_step msg" np_toaster for msg
  by unfold_locales (rule plan_posts)

interpretation drift_toasts: toast_user "drift_step msg" ds_toaster for msg
  by unfold_locales (rule drift_posts)

lemma page_posts: "adds_toasts (toaster_of t m) (toaster_of t (page_step msg m e))"
  by (cases "(msg, m, e)" rule: page_step.cases)
    (simp_all add: dash_posts detail_posts plan_posts drift_posts detail_moves_def Let_def)

interpretation page_toasts: toast_user "page_step msg" "toaster_of t" for msg t
  by unfold_locales (rule page_posts)

lemma toaster_of_put [simp]: "toaster_of t (put_toaster t m) = t"
  by (cases m) simp_all

lemma taken_posts: "adds_toasts (se_toaster s) (se_toaster (taken p (page_step msg (put_toaster (se_toaster s) m) e) s))"
  using page_posts [of "se_toaster s" "put_toaster (se_toaster s) m" msg e] by (simp add: taken_def)

section \<open>Sending\<close>

lemma send_call_fields [simp]:
  "cn_page (send_call c k) = cn_page c" "cn_left (send_call c k) = cn_left c"
  "cn_boundary (send_call c k) = cn_boundary c"
  "cn_session (send_call c k) = (cn_session c)\<lparr> se_client := snd (getToken (se_client (cn_session c))) \<rparr>"
  by (simp_all add: send_call_def prepare_def headers_def case_prod_beta Let_def)

lemma send_all_simps [simp]:
  "send_all [] c = c" "send_all (k # ks) c = send_all ks (send_call c k)"
  by (simp_all add: send_all_def)

lemma send_all_fields [simp]:
  "cn_page (send_all ks c) = cn_page c" "cn_left (send_all ks c) = cn_left c"
  "cn_boundary (send_all ks c) = cn_boundary c"
  "se_auth (cn_session (send_all ks c)) = se_auth (cn_session c)"
  "se_path (cn_session (send_all ks c)) = se_path (cn_session c)"
  "se_role (cn_session (send_all ks c)) = se_role (cn_session c)"
  "se_calls (cn_session (send_all ks c)) = se_calls (cn_session c)"
  "se_toaster (cn_session (send_all ks c)) = se_toaster (cn_session c)"
  "ac_storage (se_client (cn_session (send_all ks c))) = ac_storage (se_client (cn_session c))"
  by (induction ks arbitrary: c) simp_all

lemma replace_fields [simp]:
  "cn_page (replace_page q c) = q" "cn_left (replace_page q c) = cn_left c @ [page_leave (cn_page c)]"
  "cn_boundary (replace_page q c) = cn_boundary c" "cn_session (replace_page q c) = cn_session c"
  "cn_sent (replace_page q c) = cn_sent c"
  by (simp_all add: replace_page_def)

text \<open>The request recorded for a call is the one that the client's method gives to \<^verbatim>\<open>fetch\<close>.\<close>

definition request_of :: "api_client \<Rightarrow> api_call \<Rightarrow> request" where
  "request_of c k = (case k of (m, path, extra, b) \<Rightarrow> fst (prepare m path extra b c))"

lemma requests_match_methods:
  "fst (listMigrations f1 c) =
     json_or (check_status ''list migrations'') (f1 (request_of c (hd (dash_requests Call_list))))"
  "fst (deleteMigrations f2 ids c) =
     unit_or (check_status_text ''delete migrations'') (f2 (request_of c (hd (dash_requests (Call_delete ids)))))"
  "fst (resetDemo f3 c) = unit_or (check_status ''reset demo'') (f3 (request_of c (hd (dash_requests Call_reset))))"
  "fst (submitPlan f4 (Built (demo_plan v)) c) =
     json_or (check_status_text ''submit plan'') (f4 (request_of c (hd (dash_requests (Call_submit v)))))"
  "fst (getMigration f5 i c) =
     json_or (check_status ''get migration'') (f5 (request_of c (hd (detail_requests (Get_record i)))))"
  "fst (fetchSchema f6 tbl c) =
     json_or (check_status_text ''fetch schema'') (f6 (request_of c (hd (detail_requests (Get_schema tbl)))))"
  "fst (getSafetyMetrics f7 i c) =
     json_or (check_status ''get safety metrics'') (f7 (request_of c (detail_requests (Get_safety i) ! 0)))"
  "fst (getBackfillProgress f8 i c) =
     json_or (check_status ''get backfill progress'') (f8 (request_of c (detail_requests (Get_safety i) ! 1)))"
  "fst (getCanaryObservations f9 i c) =
     json_or (check_status ''get canary observations'') (f9 (request_of c (detail_requests (Get_safety i) ! 2)))"
  "fst (abortMigration f10 m c) =
     unit_or (check_status ''abort migration'') (f10 (request_of c (hd (detail_requests (Abort_call i m)))))"
  "fst (fetchSchema f6 tbl c) =
     json_or (check_status_text ''fetch schema'') (f6 (request_of c (hd (plan_requests (Load_schema tbl typed)))))"
  "fst (submitPlan f4 b c) =
     json_or (check_status_text ''submit plan'') (f4 (request_of c (hd (plan_requests (Submit b)))))"
  "fst (driftScan f11 (Raw j) c) =
     json_or (check_status_text ''drift scan'') (f11 (request_of c (hd (drift_requests j))))"
  by (simp_all add: listMigrations_def deleteMigrations_def resetDemo_def submitPlan_def getMigration_def
      fetchSchema_def getSafetyMetrics_def getBackfillProgress_def getCanaryObservations_def abortMigration_def
      driftScan_def send_def request_of_def drift_requests_def case_prod_beta Let_def)

section \<open>The session's view of the console\<close>

lemma run_trans: "app_run t u \<Longrightarrow> app_run s t \<Longrightarrow> app_run s u"
  by (induction rule: app_run.induct) (auto intro: app_run.intros)

lemma run_step: "app_step s t \<Longrightarrow> app_run s t"
  by (rule app_run.Step [OF app_run.Start])

lemma run_client: "app_run s (s\<lparr> se_client := snd (getToken (se_client s)) \<rparr>)"
  by (rule run_step [OF Api_call])

lemma run_send: "app_run (cn_session c) (cn_session (send_all ks c))"
proof (induction ks arbitrary: c)
  case (Cons k ks)
  show ?case using run_trans [OF Cons.IH [of "send_call c k"], of "cn_session c"] run_client by simp
qed (simp add: app_run.Start)

lemma run_toasts: "app_run s (s\<lparr> se_toaster := foldl toast_step (se_toaster s) evs \<rparr>)"
proof (induction evs rule: rev_induct)
  case (snoc e evs)
  from app_run.Step [OF snoc app_step.Toasts [of _ e]] show ?case by simp
qed (simp add: app_run.Start)

lemma run_taken: "app_run s (taken p (page_step msg (put_toaster (se_toaster s) m) e) s)"
proof -
  let ?p = "page_step msg (put_toaster (se_toaster s) m) e"
  obtain evs where "toaster_of (se_toaster s) ?p = foldl toast_step (se_toaster s) evs"
    using taken_posts [of s p msg m e] by (auto simp: adds_toasts_def taken_def)
  then have "app_run s (s\<lparr> se_toaster := toaster_of (se_toaster s) ?p \<rparr>)" using run_toasts by metis
  from app_run.Step [OF this Go] show ?thesis by (simp add: taken_def)
qed

lemma run_page: "app_run (cn_session c) (cn_session (page_acts w e c))"
  unfolding page_acts_def Let_def
  by (rule run_trans [OF run_send]) (simp add: run_taken)

lemma run_left: "app_run (cn_session c) (cn_session (left_acts w i e c))"
  unfolding left_acts_def Let_def
  by (rule run_trans [OF run_send]) (simp add: run_taken)

lemma catch_session [simp]: "cn_session (catch_error c) = cn_session c"
  by (simp add: catch_error_def fail_page_def split: option.split)

lemma run_route: "app_run (cn_session c) (cn_session (route_page w c))"
  using run_send [of "replace_page q c" "mount_requests q" for q]
  by (auto simp: route_page_def mount_def Let_def app_run.Start run_page)

lemma run_render: "app_run (cn_session c) (cn_session (render w c))"
  by (simp add: render_def fail_page_def app_run.Start run_route split: sum.split app_view.split)

text \<open>What one render after a change of the session keeps, the renders of an event of App keep.\<close>

lemma render_appI:
  assumes "P (render w (with_session (\<lambda>s. (app_handle s e)\<lparr> se_path := se_path s \<rparr>) c))"
    and "\<And>d path. P d \<Longrightarrow> P (render w (with_session (\<lambda>s. s\<lparr> se_path := path \<rparr>) d))"
  shows "P (render_app w e c)"
proof -
  have "with_session (\<lambda>s. (app_handle s e)\<lparr> se_path := se_path (cn_session c) \<rparr>) c =
      with_session (\<lambda>s. (app_handle s e)\<lparr> se_path := se_path s \<rparr>) c" by (simp add: with_session_def)
  then show ?thesis using assms by (simp add: render_app_def Let_def)
qed

lemma run_app: "app_enabled s e \<Longrightarrow> app_step s (app_handle s e)"
  by (cases e) (auto intro: app_step.intros)

lemma run_open: "app_run (open_app storage path now) (cn_session (open_console w storage path now sent))"
  using run_render by (simp add: open_console_def) (metis console.select_convs(1))

lemma run_path: "app_run (cn_session c) (cn_session (render w (with_session (\<lambda>s. s\<lparr> se_path := path \<rparr>) c)))"
  using run_trans [OF run_render, of "cn_session c"] run_step [OF Go] by (simp add: with_session_def)

lemma run_app_render: "app_enabled (cn_session c) e \<Longrightarrow> app_run (cn_session c) (cn_session (render_app w e c))"
proof (rule render_appI)
  assume "app_enabled (cn_session c) e"
  then have "app_run (cn_session c) ((app_handle (cn_session c) e)\<lparr> se_path := se_path (cn_session c) \<rparr>)"
    using app_run.Step [OF run_step [OF run_app] Go] by blast
  then show "app_run (cn_session c) (cn_session (render w (with_session (\<lambda>s. (app_handle s e)\<lparr> se_path := se_path s \<rparr>) c)))"
    using run_trans [OF run_render, of "cn_session c"] by (simp add: with_session_def)
qed (rule run_trans [OF run_path])

lemma run_console_step: "app_run (cn_session c) (cn_session (console_step w c ev))"
proof (cases "console_enabled c ev")
  case True
  show ?thesis
  proof (cases ev)
    case (App_does e)
    then show ?thesis using True run_app_render by (simp add: console_step_def)
  next
    case (Page_does e)
    then show ?thesis
      using True run_trans [OF run_render, of "cn_session c"] run_page by (simp add: console_step_def)
  next
    case (Left_does i e)
    then show ?thesis
      using True run_trans [OF run_render, of "cn_session c"] run_left by (simp add: console_step_def)
  next
    case (Go_to path)
    then show ?thesis using run_path by (simp add: console_step_def)
  next
    case (Toasts_do e)
    then show ?thesis using True run_step [OF Toasts] by (simp add: console_step_def with_session_def)
  next
    case Try_again
    then show ?thesis
      using True run_trans [OF run_render, of "cn_session c"] by (simp add: console_step_def app_run.Start)
  next
    case (Reload_page now)
    then show ?thesis
      using True run_trans [OF run_open run_step [OF Reload]] by (simp add: console_step_def)
  qed
qed (simp add: console_step_def app_run.Start)

lemma run_console: "app_run (open_app storage path now) (cn_session (console_run w storage path now evs))"
proof (induction evs rule: rev_induct)
  case Nil
  show ?case by (simp add: console_run_def run_open)
next
  case (snoc ev evs)
  then show ?case using run_trans [OF run_console_step] by (simp add: console_run_def)
qed

section \<open>Mounted and left pages\<close>

text \<open>
  Both kinds of page keep the invariants of their parts; a page that is shown is mounted with all its
  parts, and of a page that was left nothing is.
\<close>

definition status_ok :: "status_panel \<Rightarrow> bool" where
  "status_ok sp \<longleftrightarrow> plain.good STATUS_INTERVAL (sp_poll sp)"

definition status_on :: "status_panel \<Rightarrow> bool" where
  "status_on sp \<longleftrightarrow> mt_deps (sp_poll sp) \<noteq> None"

definition old_panels_off :: "metrics_panel list \<Rightarrow> bool" where
  "old_panels_off ms \<longleftrightarrow> (\<forall>m \<in> set (butlast ms). \<not> mt_mounted m)"

definition panels_ok :: "detail \<Rightarrow> metrics_panel list \<Rightarrow> bool" where
  "panels_ok d ms \<longleftrightarrow> (\<forall>m \<in> set ms. metrics_ok m) \<and> old_panels_off ms \<and>
     (if panel_shown d then ms \<noteq> [] \<and> mt_mounted (last ms) \<and> mt_props (last ms) = panel_props d
      else ms = [] \<or> \<not> mt_mounted (last ms))"

fun page_ok :: "mounted \<Rightarrow> bool" where
  "page_ok (At_dash d sp) \<longleftrightarrow> poll_ok d \<and> status_ok sp"
| "page_ok (At_detail d ms) \<longleftrightarrow> polls_ok d \<and> panels_ok d ms"
| "page_ok m \<longleftrightarrow> True"

fun present :: "mounted \<Rightarrow> bool" where
  "present (At_dash d sp) \<longleftrightarrow> dash_mounted d \<and> status_on sp"
| "present (At_detail d ms) \<longleftrightarrow> dt_mounted d"
| "present m \<longleftrightarrow> True"

fun gone :: "mounted \<Rightarrow> bool" where
  "gone (At_dash d sp) \<longleftrightarrow> \<not> dash_mounted d \<and> \<not> status_on sp"
| "gone (At_detail d ms) \<longleftrightarrow> \<not> dt_mounted d"
| "gone (At_plan p) \<longleftrightarrow> \<not> np_mounted p"
| "gone (At_drift p) \<longleftrightarrow> \<not> ds_mounted p"
| "gone m \<longleftrightarrow> True"

subsection \<open>The panels\<close>

lemma status_ok_step: "status_ok sp \<Longrightarrow> status_ok (status_step sp e)"
  using status_run.step_inv by (simp add: status_ok_def)

lemma status_on_step:
  "own_event (On_status e) \<Longrightarrow> status_on (status_step sp e) = status_on sp"
  "\<not> status_on (status_step sp U_leave)"
  by (cases e) (auto simp: status_on_def status_life_def fetchStatus_def status_settled_simps split: option.split)

lemma mt_mounted_props: "mt_mounted m \<Longrightarrow> mt_mounted (metrics_step m (M_props p)) \<and> mt_props (metrics_step m (M_props p)) = p"
  by (simp add: metrics_step_def mt_mounted_def metrics_render_def Let_def del: life_step.simps)

lemma mt_mounted_fresh:
  "mt_mounted (metrics_step (fresh_metrics p h) M_mount) \<and> mt_props (metrics_step (fresh_metrics p h) M_mount) = p"
  by (simp add: metrics_step_def mt_mounted_def metrics_render_def fresh_metrics_def unmounted_def Let_def
      del: life_step.simps)

lemma mt_mounted_leave: "\<not> mt_mounted (metrics_step m M_leave)"
  by (simp add: metrics_step_def mt_mounted_def split: option.split)

lemma mt_own:
  "own_event (On_metrics e) \<Longrightarrow> mt_mounted (metrics_step m e) = mt_mounted m \<and> mt_props (metrics_step m e) = mt_props m"
  by (cases e) (auto simp: metrics_step_def mt_mounted_def)

lemma no_timers_ok: "\<forall>e \<in> set (tm_live no_timers). fst e < tm_next no_timers"
  by (simp add: no_timers_def)

lemma metrics_ok_fresh: "metrics_ok (metrics_step (fresh_metrics p no_timers) M_mount)"
  using metrics_ok_run [OF no_timers_ok, of p "[M_mount]"] by simp

lemma in_butlast_snoc: "m \<in> set (butlast ms @ [x]) \<Longrightarrow> m \<in> set ms \<or> m = x"
  by (auto dest: in_set_butlastD)

lemma panels_ok_snoc:
  "(\<forall>m \<in> set ms. metrics_ok m \<and> \<not> mt_mounted m) \<Longrightarrow> metrics_ok x \<Longrightarrow>
    (if panel_shown d then mt_mounted x \<and> mt_props x = panel_props d else \<not> mt_mounted x) \<Longrightarrow>
    panels_ok d (ms @ [x])"
  by (simp add: panels_ok_def old_panels_off_def)

lemma panels_ok_sync:
  assumes ok: "\<forall>m \<in> set ms. metrics_ok m" and off: "old_panels_off ms"
  shows "panels_ok d (sync_panel d ms)"
proof (cases "ms = []")
  case True
  then show ?thesis
    using panels_ok_snoc [of "[]" "metrics_step (fresh_metrics (panel_props d) no_timers) M_mount" d]
    by (simp add: sync_panel_def metrics_ok_fresh mt_mounted_fresh) (simp add: panels_ok_def old_panels_off_def)
next
  case False
  have old: "\<forall>m \<in> set (butlast ms). metrics_ok m \<and> \<not> mt_mounted m"
    using ok off by (simp add: old_panels_off_def in_set_butlastD)
  have last: "metrics_ok (last ms)" using ok False by simp
  show ?thesis
  proof (cases "panel_shown d \<and> \<not> mt_mounted (last ms)")
    case True
    have "set ms = insert (last ms) (set (butlast ms))"
      using False by (metis append_butlast_last_id list.set(1) list.simps(15) rotate1.simps(2) set_rotate1)
    then have "\<forall>m \<in> set ms. metrics_ok m \<and> \<not> mt_mounted m" using old last True by simp
    from panels_ok_snoc [OF this metrics_ok_fresh] show ?thesis
      using True by (simp add: sync_panel_def mt_mounted_fresh)
  next
    case other: False
    show ?thesis
      using panels_ok_snoc [OF old metrics_ok_step [OF last]] other False mt_mounted_props mt_mounted_leave
      by (auto simp: sync_panel_def)
  qed
qed

lemma panels_ok_moves:
  assumes "own_event (On_metrics e)" and "panels_ok d ms"
  shows "panels_ok d (panel_moves e ms)"
proof (cases "ms = []")
  case False
  then have "metrics_ok (last ms)" using assms(2) by (simp add: panels_ok_def)
  with False assms(2) show ?thesis
    using mt_own [OF assms(1), of "last ms"] metrics_ok_step
    by (auto simp: panels_ok_def panel_moves_def old_panels_off_def dest!: in_set_butlastD split: if_splits)
qed (use assms(2) in \<open>simp add: panel_moves_def\<close>)

subsection \<open>The pages\<close>

lemma poll_ok_toaster [simp]: "poll_ok (d\<lparr> db_toaster := t \<rparr>) = poll_ok d"
  using poll_ok_cong [of "d\<lparr> db_toaster := t \<rparr>" d] by simp

lemma toaster_parts:
  "safety_section (d\<lparr> dt_toaster := t \<rparr>) = safety_section d"
  "schema_sections (d\<lparr> dt_toaster := t \<rparr>) = schema_sections d"
  "progress (d\<lparr> dt_toaster := t \<rparr>) = progress d" "isLive (d\<lparr> dt_toaster := t \<rparr>) = isLive d"
  "flow_view (d\<lparr> dt_toaster := t \<rparr>) = flow_view d"
proof -
  have idx: "currentIdx (d\<lparr> dt_toaster := t \<rparr>) = currentIdx d" by (simp add: currentIdx_def)
  moreover show live: "isLive (d\<lparr> dt_toaster := t \<rparr>) = isLive d" by (simp add: isLive_def)
  ultimately have "flow_row_view (d\<lparr> dt_toaster := t \<rparr>) = flow_row_view d" by (intro ext) (simp add: flow_row_view_def Let_def)
  with idx show "flow_view (d\<lparr> dt_toaster := t \<rparr>) = flow_view d" by (simp add: flow_view_def)
  show "progress (d\<lparr> dt_toaster := t \<rparr>) = progress d" using idx by (simp add: progress_def)
  show "safety_section (d\<lparr> dt_toaster := t \<rparr>) = safety_section d" by (simp add: safety_section_def)
  show "schema_sections (d\<lparr> dt_toaster := t \<rparr>) = schema_sections d"
    by (intro ext) (simp add: schema_sections_def split: option.split)
qed

lemma detail_view_toaster [simp]: "detail_view (d\<lparr> dt_toaster := t \<rparr>) = detail_view d"
proof -
  have "detail_page_view (d\<lparr> dt_toaster := t \<rparr>) r = detail_page_view d r" for r
    unfolding detail_page_view_def toaster_parts by simp
  then show ?thesis by (cases "dt_record d") (simp_all add: detail_view_def)
qed

lemma detail_toaster_simps [simp]:
  "polls_ok (d\<lparr> dt_toaster := t \<rparr>) = polls_ok d" "dt_mounted (d\<lparr> dt_toaster := t \<rparr>) = dt_mounted d"
  "panel_props (d\<lparr> dt_toaster := t \<rparr>) = panel_props d" "panel_shown (d\<lparr> dt_toaster := t \<rparr>) = panel_shown d"
  by (cases "dt_record d"; simp add: polls_ok_def poll_deps_def dt_mounted_def panel_props_def panel_shown_def toaster_parts)+

lemma put_toaster_simps [simp]:
  "page_ok (put_toaster t m) = page_ok m" "present (put_toaster t m) = present m" "gone (put_toaster t m) = gone m"
  "page_navs (put_toaster t m) = page_navs m" "shown_id (put_toaster t m) = shown_id m"
  by (cases m, simp_all add: panels_ok_def dash_mounted_def)+

lemma of_route_put [simp]: "of_route r (put_toaster t m) = of_route r m"
  by (cases m; cases r) simp_all

lemma detail_moves_ok: "page_ok (At_detail d ms) \<Longrightarrow> page_ok (detail_moves e d ms)"
proof -
  assume "page_ok (At_detail d ms)"
  then have "polls_ok d" and "\<forall>m \<in> set ms. metrics_ok m" and "old_panels_off ms" by (simp_all add: panels_ok_def)
  then show ?thesis by (simp only: detail_moves_def Let_def page_ok.simps polls_ok_step panels_ok_sync)
qed

lemma page_ok_step: "own_event e \<Longrightarrow> page_ok m \<Longrightarrow> page_ok (page_step msg m e)"
  by (cases "(msg, m, e)" rule: page_step.cases)
    (simp_all add: poll_ok_step status_ok_step detail_moves_ok panels_ok_moves del: page_ok.simps(2) own_event.simps,
     simp_all add: panels_ok_moves)

lemma page_ok_leave: "page_ok m \<Longrightarrow> page_ok (page_leave m)"
  by (cases m) (simp_all add: poll_ok_step status_ok_step detail_moves_ok del: page_ok.simps(2) status_step.simps)

lemma page_ok_mount: "page_ok (mount_page r i t)"
proof (cases r)
  case Page_Dashboard
  have "plain.good STATUS_INTERVAL (sp_poll (mount_status no_timers))"
    using plain.good_step [OF plain.good_start [OF no_timers_ok]]
    by (simp add: mount_status_def status_life_def fetchStatus_def del: life_step.simps)
  then show ?thesis
    using poll_ok_run [OF no_timers_ok, of t "[Mount]"] Page_Dashboard by (simp add: status_ok_def)
next
  case Page_MigrationDetail
  have "polls_ok (fresh_detail i no_timers t)" using polls_ok_run [OF no_timers_ok, of i t "[]"] by simp
  moreover have "panels_ok (fresh_detail i no_timers t) []"
    by (simp add: panels_ok_def old_panels_off_def panel_shown_def dt_mounted_def fresh_detail_def unmounted_def)
  ultimately show ?thesis using Page_MigrationDetail detail_moves_ok by simp
qed simp_all

subsection \<open>Staying mounted, staying away\<close>

lemma dash_mounted_step: "own_event (On_dash e) \<Longrightarrow> dash_mounted (dash_step d e) = dash_mounted d"
proof (cases "\<exists>r. e = Listed r")
  case True
  then obtain r where e: "e = Listed r" by blast
  have "dash_mounted (set_migrations l s) = dash_mounted s" for l s
    by (simp add: set_migrations_def Let_def) (simp add: dash_mounted_def)
  then have "dash_mounted (fetched r s) = dash_mounted s" for s
    by (cases r) (simp_all add: fetched_def, simp_all add: dash_mounted_def)
  then show ?thesis by (simp add: e dash_step_def settle_def) (simp add: dash_mounted_def)
next
  case False
  assume "own_event (On_dash e)"
  then have "e \<noteq> Mount" "e \<noteq> Dashboard.Leave" by auto
  with False have "db_poll (dash_step d e) = db_poll d" using same_poll by blast
  then show ?thesis by (simp add: dash_mounted_def)
qed

lemma dash_unmounted: "\<not> dash_mounted (dash_step d Dashboard.Leave)"
  by (auto simp: dash_step_def dash_mounted_def split: option.split)

lemma effects_mounted: "dt_mounted (run_effects i t s)"
  by (simp add: dt_mounted_def effects_fields del: life_step.simps)

lemma commit_mounted: "dt_crashed (dt_commit i t s) = None \<Longrightarrow> dt_mounted (dt_commit i t s)"
  by (simp add: dt_commit_def effects_mounted split: sum.splits)

lemma handle_mounted: "e \<noteq> D_leave \<Longrightarrow> dt_mounted (dt_handle d e) = dt_mounted d"
  using handle_polls [of e d] by (simp add: dt_mounted_def)

lemma detail_stays:
  assumes "e \<noteq> D_leave" and "dt_mounted d" and "dt_crashed (detail_step d e) = None"
  shows "dt_mounted (detail_step d e)"
  using assms handle_mounted [OF assms(1), of d]
  by (cases rule: detail_step_cases [of d e]) (auto intro: commit_mounted)

lemma detail_stays_away:
  assumes "e \<noteq> D_mount" and "\<not> dt_mounted d"
  shows "\<not> dt_mounted (detail_step d e)"
proof (cases "e = D_leave")
  case True
  then show ?thesis using assms(2) by (simp add: detail_step_def)
next
  case False
  then show ?thesis
    using assms handle_mounted [OF False, of d] by (cases e) (auto simp: detail_step_def Let_def simp del: dt_handle.simps)
qed

lemma plan_stays_away: "\<not> np_mounted p \<Longrightarrow> \<not> np_mounted (plan_step msg p e)"
  by (cases e) (auto simp: plan_step_def np_commit_def np_defs split: sum.split option.split prod.split)

lemma drift_stays_away: "\<not> ds_mounted p \<Longrightarrow> \<not> ds_mounted (drift_step msg p e)"
  by (cases e) (auto simp: drift_step_def ds_defs split: sum.split)

lemma present_step:
  assumes "own_event e \<or> e = On_detail (D_change_id i)" and "present m" and "page_failure (page_step msg m e) = None"
  shows "present (page_step msg m e)"
proof (cases m)
  case (At_dash d sp)
  then show ?thesis
    using assms by (cases e) (simp_all add: dash_mounted_step status_on_step del: own_event.simps status_step.simps)
next
  case (At_detail d ms)
  then show ?thesis
    using assms by (cases e) (auto simp: detail_moves_def Let_def intro!: detail_stays)
next
  case (At_plan p)
  then show ?thesis by (cases e) simp_all
next
  case (At_drift p)
  then show ?thesis by (cases e) simp_all
qed simp_all

lemma gone_step: "own_event e \<Longrightarrow> gone m \<Longrightarrow> gone (page_step msg m e)"
proof (cases m)
  case (At_dash d sp)
  assume "own_event e" "gone m"
  then show ?thesis
    by (cases e) (simp_all add: At_dash dash_mounted_step status_on_step del: own_event.simps status_step.simps)
next
  case (At_detail d ms)
  assume "own_event e" "gone m"
  then show ?thesis
    using detail_stays_away [of f d for f]
    by (cases e) (auto simp: At_detail detail_moves_def Let_def split: detail_event.splits)
next
  case (At_plan p)
  assume "gone m"
  then show ?thesis by (cases e) (simp_all add: At_plan plan_stays_away)
next
  case (At_drift p)
  assume "gone m"
  then show ?thesis by (cases e) (simp_all add: At_drift drift_stays_away)
qed simp_all

lemma gone_leave: "gone (page_leave m)"
proof (cases m)
  case (At_dash d sp)
  then show ?thesis by (simp add: dash_unmounted status_on_step del: status_step.simps)
next
  case (At_detail d ms)
  have "\<not> dt_mounted (detail_step d D_leave)"
    by (simp add: detail_step_def Let_def dt_mounted_def leave_page_def split: option.split)
  then show ?thesis by (simp add: At_detail detail_moves_def Let_def)
qed (auto simp: plan_step_def np_commit_def drift_step_def)

lemma mount_present: "present (mount_page r i t)"
proof (cases r)
  case Page_Dashboard
  have "status_on (mount_status no_timers)"
    by (simp add: status_on_def mount_status_def status_life_def fetchStatus_def del: life_step.simps)
  then show ?thesis
    using Page_Dashboard by (simp add: dash_step_def dash_mounted_def fresh_dashboard_def unmounted_def
        render_poll_def fetchMigrations_def call_def del: life_step.simps)
next
  case Page_MigrationDetail
  have "dt_mounted (detail_step (fresh_detail i no_timers t) D_mount)"
    by (simp add: detail_step_def Let_def dt_commit_def detail_view_def effects_mounted)
      (simp add: dt_mounted_def fresh_detail_def unmounted_def)
  then show ?thesis using Page_MigrationDetail by (simp add: detail_moves_def Let_def)
qed simp_all

section \<open>The console keeps it\<close>

definition left_ok :: "console \<Rightarrow> bool" where
  "left_ok c \<longleftrightarrow> (\<forall>m \<in> set (cn_left c). page_ok m \<and> gone m)"

definition console_ok :: "console \<Rightarrow> bool" where
  "console_ok c \<longleftrightarrow> page_ok (cn_page c) \<and> present (cn_page c) \<and> left_ok c"

text \<open>What is on the screen is what the session and the address ask for.\<close>

definition shows_route :: "browser \<Rightarrow> console \<Rightarrow> bool" where
  "shows_route w c \<longleftrightarrow>
     (let s = cn_session c; m = cn_page c
      in (is_failed m \<longleftrightarrow> eb_hasError (cn_boundary c)) \<and>
         (eb_hasError (cn_boundary c) \<or>
          (if \<not> se_auth s then is_login m
           else of_route (br_pick w App_routes (se_path s)) m \<and> shown_id m \<in> {None, Some (br_id w (se_path s))})))"

lemma left_ok_replace: "page_ok (cn_page c) \<Longrightarrow> left_ok c \<Longrightarrow> left_ok (replace_page q c)"
  by (simp add: left_ok_def page_ok_leave gone_leave)

lemma left_ok_send [simp]: "left_ok (send_all ks c) = left_ok c"
  by (simp add: left_ok_def)

lemma simple_pages [simp]:
  "page_ok At_login" "page_ok At_failed" "present At_login" "present At_failed"
  "is_login At_login" "is_failed At_failed" "\<not> is_login At_failed" "\<not> is_failed At_login"
  "\<not> of_route r At_failed" "\<not> of_route r At_login"
  by (simp_all add: is_login_def is_failed_def)

lemma page_ok_any_step:
  assumes "own_event e \<or> e = On_detail (D_change_id i)" and "page_ok m"
  shows "page_ok (page_step msg m e)"
proof (cases "own_event e")
  case True
  then show ?thesis using assms(2) by (rule page_ok_step)
next
  case False
  then have e: "e = On_detail (D_change_id i)" using assms(1) by blast
  show ?thesis
  proof (cases m)
    case (At_detail d ms)
    then show ?thesis using assms(2) detail_moves_ok by (simp add: e del: page_ok.simps(2)) 
  qed (use assms(2) in \<open>simp_all add: e\<close>)
qed

lemma page_acts_ok:
  assumes "console_ok c" and "own_event e \<or> e = On_detail (D_change_id i)"
  shows "page_ok (cn_page (page_acts w e c)) \<and> left_ok (page_acts w e c) \<and>
    (page_failure (cn_page (page_acts w e c)) = None \<longrightarrow> present (cn_page (page_acts w e c)))"
proof -
  let ?p = "put_toaster (se_toaster (cn_session c)) (cn_page c)"
  have "page_ok ?p" "present ?p" using assms(1) by (simp_all add: console_ok_def)
  then have "page_ok (page_step msg ?p e)" and
    "page_failure (page_step msg ?p e) = None \<longrightarrow> present (page_step msg ?p e)" for msg
    using page_ok_any_step [OF assms(2)] present_step [OF assms(2)] by auto
  then show ?thesis
    using assms(1) by (simp add: page_acts_def Let_def left_ok_def console_ok_def)
qed

lemma fail_ok: "page_ok (cn_page c) \<Longrightarrow> left_ok c \<Longrightarrow> console_ok (fail_page e c)"
  using left_ok_replace [of c At_failed] by (simp add: fail_page_def console_ok_def left_ok_def)

lemma catch_ok:
  "page_ok (cn_page c) \<Longrightarrow> left_ok c \<Longrightarrow> (page_failure (cn_page c) = None \<longrightarrow> present (cn_page c)) \<Longrightarrow>
    console_ok (catch_error c)"
  by (cases "page_failure (cn_page c)") (simp_all add: catch_error_def fail_ok, simp add: console_ok_def)

lemma page_ok_change: "console_ok c \<Longrightarrow> console_ok (catch_error (page_acts w (On_detail (D_change_id i)) c))"
  using page_acts_ok [of c "On_detail (D_change_id i)" i w] by (intro catch_ok) auto

lemma route_ok: "console_ok c \<Longrightarrow> console_ok (route_page w c)"
  by (simp add: route_page_def Let_def page_ok_change)
    (simp add: mount_def Let_def console_ok_def left_ok_replace page_ok_mount mount_present)

lemma replace_simple_ok:
  "console_ok c \<Longrightarrow> console_ok (replace_page At_login c) \<and> console_ok (replace_page At_failed c)"
  by (simp add: console_ok_def left_ok_replace)

lemma fail_render_ok: "console_ok c \<Longrightarrow> console_ok (fail_page e c)"
  by (rule fail_ok) (simp_all add: console_ok_def)

lemma render_ok: "console_ok c \<Longrightarrow> console_ok (render w c)"
  by (simp add: render_def fail_render_ok route_ok replace_simple_ok split: sum.split app_view.split)

lemma left_acts_ok: "console_ok c \<Longrightarrow> own_event e \<Longrightarrow> i < length (cn_left c) \<Longrightarrow> console_ok (left_acts w i e c)"
proof -
  assume ok: "console_ok c" and e: "own_event e" and i: "i < length (cn_left c)"
  let ?p = "put_toaster (se_toaster (cn_session c)) (cn_left c ! i)"
  have "page_ok ?p" "gone ?p" using ok i by (simp_all add: console_ok_def left_ok_def)
  then have "page_ok (page_step msg ?p e) \<and> gone (page_step msg ?p e)" for msg
    using e page_ok_step gone_step by blast
  then show ?thesis
    using ok set_update_subset_insert [of "cn_left c" i]
    by (auto simp: left_acts_def Let_def console_ok_def left_ok_def)
qed

lemma open_ok: "console_ok (open_console w storage path now sent)"
  unfolding open_console_def by (rule render_ok) (simp add: console_ok_def left_ok_def)

lemma console_ok_fields:
  "console_ok (with_session f c) = console_ok c" "console_ok (c\<lparr> cn_boundary := b \<rparr>) = console_ok c"
  by (simp_all add: console_ok_def left_ok_def with_session_def)

lemma render_app_ok: "console_ok c \<Longrightarrow> console_ok (render_app w e c)"
  by (rule render_appI) (simp_all add: render_ok console_ok_fields)

lemma console_ok_step: "console_ok c \<Longrightarrow> console_ok (console_step w c ev)"
proof (cases "console_enabled c ev")
  case True
  assume ok: "console_ok c"
  show ?thesis
  proof (cases ev)
    case (Page_does e)
    then have "own_event e" using True by simp
    then show ?thesis
      using page_acts_ok [OF ok, of e] Page_does True by (simp add: console_step_def render_ok catch_ok)
  next
    case (Left_does i e)
    then show ?thesis using True ok by (simp add: console_step_def render_ok left_acts_ok)
  qed (use True ok in \<open>simp_all add: console_step_def render_ok render_app_ok console_ok_fields open_ok\<close>)
qed (simp add: console_step_def)

interpretation console_life: run_invariant "console_step w" console_ok for w
  by unfold_locales (rule console_ok_step)

lemma console_ok_run: "console_ok (console_run w storage path now evs)"
  unfolding console_run_def by (rule console_life.run_inv) (rule open_ok)

section \<open>What is shown\<close>

lemma mount_route [simp]: "of_route r (mount_page r i t)"
  by (cases r) (simp_all add: detail_moves_def Let_def)

lemma not_failed_route: "of_route r m \<Longrightarrow> \<not> is_failed m"
  by (cases m) (simp_all add: is_failed_def)

lemma detail_id_step: "dt_id (detail_step d e) = (case e of D_change_id i \<Rightarrow> if dt_mounted d then i else dt_id d | _ \<Rightarrow> dt_id d)"
proof -
  have c: "dt_id (dt_commit i t s) = dt_id s" for i t s
    by (simp add: dt_commit_def effects_fields leave_page_def split: sum.split)
  have h: "dt_id (dt_handle d e) = (case e of D_change_id i \<Rightarrow> i | _ \<Rightarrow> dt_id d)" for e
    by (cases e)
      (auto simp: record_fetched_def schema_fetched_def safety_fetched_def abort_done_def abort_start_def
        dt_settle_def dt_post_def dt_call_def leave_page_def Let_def split: sum.split option.split)
  show ?thesis by (cases e) (auto simp: detail_step_def Let_def c h simp del: dt_handle.simps)
qed

lemma mount_id: "shown_id (mount_page r i t) \<in> {None, Some i}"
  by (cases r) (simp_all add: detail_moves_def Let_def detail_id_step fresh_detail_def)

lemma shows_route_send [simp]: "shows_route w (send_all ks c) = shows_route w c"
  by (simp add: shows_route_def Let_def)

lemma fail_shows: "shows_route w (fail_page e c)"
  by (simp add: shows_route_def fail_page_def getDerivedStateFromError_def Let_def)

lemma change_shows:
  assumes "console_ok c" and "\<not> eb_hasError (cn_boundary c)" and "se_auth (cn_session c)"
    and "of_route (br_pick w App_routes (se_path (cn_session c))) (cn_page c)" and "shown_id (cn_page c) \<noteq> None"
  shows "shows_route w (catch_error (page_acts w (On_detail (D_change_id (br_id w (se_path (cn_session c))))) c))"
proof -
  let ?e = "On_detail (D_change_id (br_id w (se_path (cn_session c))))"
  obtain d ms where p: "cn_page c = At_detail d ms" using assms(5) by (cases "cn_page c") auto
  have m: "dt_mounted d" using assms(1) by (simp add: console_ok_def p)
  have r: "br_pick w App_routes (se_path (cn_session c)) = Page_MigrationDetail"
    using assms(4) by (cases "br_pick w App_routes (se_path (cn_session c))") (simp_all add: p)
  show ?thesis
  proof (cases "page_failure (cn_page (page_acts w ?e c))")
    case None
    then have "catch_error (page_acts w ?e c) = page_acts w ?e c" by (simp add: catch_error_def)
    then show ?thesis
      using assms(2,3) m r
      by (simp add: p page_acts_def shows_route_def detail_moves_def detail_id_step taken_def follow_def
          is_failed_def Let_def)
  next
    case (Some e)
    then show ?thesis by (simp add: catch_error_def fail_shows)
  qed
qed

lemma route_shows:
  assumes "console_ok c" and "\<not> eb_hasError (cn_boundary c)" and "se_auth (cn_session c)"
  shows "shows_route w (route_page w c)"
proof -
  let ?r = "br_pick w App_routes (se_path (cn_session c))"
  show ?thesis
    using assms change_shows [OF assms, of w] not_failed_route [of ?r "cn_page c"]
      not_failed_route [OF mount_route, of ?r] mount_id
    by (auto simp: route_page_def mount_def shows_route_def Let_def)
qed

lemma login_not_failed: "is_login m \<Longrightarrow> \<not> is_failed m"
  by (cases m) (simp_all add: is_login_def is_failed_def)

lemma App_login: "App cerr pick s = Inr (Shows_login v) \<Longrightarrow> \<not> se_auth s"
  by (auto simp: App_def bind_result_Inr_iff split: if_splits)

lemma App_app: "App cerr pick s = Inr (Shows_app wz links role r) \<Longrightarrow> se_auth s"
  by (auto simp: App_def split: if_splits)

lemma simple_shows:
  "eb_hasError (cn_boundary c) \<Longrightarrow> is_failed (cn_page c) \<Longrightarrow> shows_route w c"
  "eb_hasError (cn_boundary c) \<Longrightarrow> shows_route w (replace_page At_failed c)"
  "\<not> eb_hasError (cn_boundary c) \<Longrightarrow> \<not> se_auth (cn_session c) \<Longrightarrow> is_login (cn_page c) \<Longrightarrow> shows_route w c"
  "\<not> eb_hasError (cn_boundary c) \<Longrightarrow> \<not> se_auth (cn_session c) \<Longrightarrow> shows_route w (replace_page At_login c)"
  by (simp_all add: shows_route_def Let_def login_not_failed)

lemma render_shows: "console_ok c \<Longrightarrow> shows_route w (render w c)"
  by (simp add: render_def simple_shows fail_shows route_shows App_login App_app split: sum.split app_view.split)

lemma render_app_shows: "console_ok c \<Longrightarrow> shows_route w (render_app w e c)"
proof -
  assume "console_ok c"
  then have "console_ok (render_app w e c) \<and> shows_route w (render_app w e c)"
    by (intro render_appI [where P = "\<lambda>d. console_ok d \<and> shows_route w d"])
      (simp_all add: render_ok render_shows console_ok_fields)
  then show ?thesis ..
qed

lemma step_shows: "console_ok c \<Longrightarrow> shows_route w c \<Longrightarrow> shows_route w (console_step w c ev)"
proof (cases "console_enabled c ev")
  case True
  assume ok: "console_ok c" and sh: "shows_route w c"
  show ?thesis
  proof (cases ev)
    case (Page_does e)
    then have "own_event e" using True by simp
    then show ?thesis
      using page_acts_ok [OF ok, of e] Page_does True by (simp add: console_step_def render_shows catch_ok)
  next
    case (Left_does i e)
    then show ?thesis using True ok by (simp add: console_step_def render_shows left_acts_ok)
  next
    case (Toasts_do e)
    have "shows_route w (with_session (\<lambda>s. s\<lparr> se_toaster := toast_step (se_toaster s) e \<rparr>) c) = shows_route w c"
      by (simp add: shows_route_def with_session_def Let_def)
    then show ?thesis using True sh Toasts_do by (simp add: console_step_def)
  next
    case (Reload_page now)
    then show ?thesis
      using True by (simp add: console_step_def open_console_def) (rule render_shows, simp add: console_ok_def left_ok_def)
  qed (use True ok in \<open>simp_all add: console_step_def render_shows render_app_shows console_ok_fields\<close>)
qed (simp add: console_step_def)

lemma shows_run: "shows_route w (console_run w storage path now evs)"
proof (induction evs rule: rev_induct)
  case Nil
  show ?case
    by (simp add: console_run_def open_console_def) (rule render_shows, simp add: console_ok_def left_ok_def)
next
  case (snoc ev evs)
  then show ?case using step_shows console_ok_run by (simp add: console_run_def)
qed

end
