(* ===== verification/ConsoleClaims.thy ===== *)
theory ConsoleClaims
  imports ConsoleProps
begin

text \<open>
  The properties that hold at every moment of every run of the console: what is shown, which intervals
  run, which toasts there are, and with which credential requests are sent.
\<close>

section \<open>The page and its intervals\<close>

text \<open>The periods of the intervals that the parts of a page have running, and those they should have.\<close>

fun page_periods :: "mounted \<Rightarrow> nat list" where
  "page_periods (At_dash d sp) = map snd (own_live (db_poll d)) @ map snd (own_live (sp_poll sp))"
| "page_periods (At_detail d ms) =
     map snd (own_live (dt_poll d)) @ map snd (own_live (dt_safetyPoll d)) @
     concat (map (\<lambda>m. map snd (own_live (mt_poll m))) ms)"
| "page_periods m = []"

fun due_periods :: "mounted \<Rightarrow> nat list" where
  "due_periods (At_dash d sp) = (if 0 < activeCount d then [2000] else []) @ [10000]"
| "due_periods (At_detail d ms) =
     (if isLive d then [2000] else []) @ [5000] @ (if panel_shown d \<and> isLive d then [2000] else [])"
| "due_periods m = []"

lemma panels_off_periods:
  "\<forall>m \<in> set ms. metrics_ok m \<and> \<not> mt_mounted m \<Longrightarrow> concat (map (\<lambda>m. map snd (own_live (mt_poll m))) ms) = []"
  by (induction ms) (simp_all add: metrics_periods)

lemma panels_periods:
  assumes "panels_ok d ms"
  shows "concat (map (\<lambda>m. map snd (own_live (mt_poll m))) ms) = (if panel_shown d \<and> isLive d then [2000] else [])"
proof (cases "ms = []")
  case False
  then obtain old m where ms: "ms = old @ [m]" by (metis append_butlast_last_id)
  have "\<forall>m \<in> set old. metrics_ok m \<and> \<not> mt_mounted m" and m: "metrics_ok m"
    using assms by (auto simp: panels_ok_def old_panels_off_def ms)
  moreover have "metrics_live (panel_props d) = isLive d" if "panel_shown d"
    using that
    by (cases "dt_record d") (auto simp: panel_shown_def panel_props_def metrics_live_def detail_view_def isLive_def)
  ultimately show ?thesis
    using assms panels_off_periods [of old] metrics_periods [OF m]
    by (auto simp: ms panels_ok_def split: if_splits)
qed (use assms in \<open>simp add: panels_ok_def split: if_splits\<close>)

lemma present_periods: "page_ok m \<Longrightarrow> present m \<Longrightarrow> page_periods m = due_periods m"
  by (cases m)
    (simp_all add: dash_periods detail_periods panels_periods status_periods status_ok_def status_on_def)

lemma gone_periods: "page_ok m \<Longrightarrow> gone m \<Longrightarrow> page_periods m = []"
proof (cases m)
  case (At_detail d ms)
  assume "page_ok m" "gone m"
  then show ?thesis
    using panels_periods [of d ms] by (simp add: At_detail detail_periods panel_shown_def)
qed (simp_all add: dash_periods status_periods status_ok_def status_on_def)

text \<open>
  C2: the console polls for what is on the screen and for nothing else. On every run, whatever was opened,
  left, reloaded, failed or answered late, the running intervals of the mounted page are exactly those its
  content asks for: on the dashboard the list every two seconds while it shows a running migration and the
  engine's status every ten; on a migration's page the record every two seconds while it runs, its safety
  data every five and, inside the metrics panel, the metrics every two while it runs; none on the others.
  No page that was left has an interval. (The landing page's animations are \<open>Landing\<close>'s.)
\<close>

theorem console_intervals:
  "page_periods (cn_page (console_run w storage path now evs)) =
     due_periods (cn_page (console_run w storage path now evs)) \<and>
   concat (map page_periods (cn_left (console_run w storage path now evs))) = []"
  using console_ok_run [of w storage path now evs]
  by (auto simp: console_ok_def left_ok_def present_periods gone_periods)

text \<open>
  C3: the screen shows what the address and the sign-in ask for. On every run the error message is shown
  exactly while an error is caught; otherwise a user who is signed out sees the login page, and a user who
  is signed in the page of the address, and on a migration's page the migration of the address.
\<close>

theorem console_shows_the_route:
  "let c = console_run w storage path now evs; s = cn_session c; m = cn_page c
   in (m = At_failed \<longleftrightarrow> eb_hasError (cn_boundary c)) \<and>
      (eb_hasError (cn_boundary c) \<or>
       (if \<not> se_auth s then m = At_login
        else of_route (br_pick w App_routes (se_path s)) m \<and>
          (case m of At_detail d ms \<Rightarrow> dt_id d = br_id w (se_path s) | _ \<Rightarrow> True)))"
proof -
  have l: "is_login m \<longleftrightarrow> m = At_login" and f: "is_failed m \<longleftrightarrow> m = At_failed" for m
    by (cases m; simp add: is_login_def is_failed_def)+
  have i: "shown_id m \<in> {None, Some i} \<longleftrightarrow> (case m of At_detail d ms \<Rightarrow> dt_id d = i | _ \<Rightarrow> True)" for m i
    by (cases m) simp_all
  show ?thesis
    using shows_run [of w storage path now evs] unfolding shows_route_def Let_def l f i by assumption
qed

section \<open>Toasts\<close>

lemma sim_app_step:
  assumes "app_step s t" and sim: "toast_sim (se_toaster s) a"
  shows "\<exists>b. toast_sim (se_toaster t) b"
  using assms(1)
proof cases
  case (Settled q resp)
  then show ?thesis using sim_adds [OF app_posts [of s "Login_settled q resp"] sim] by simp
next
  case (Toasts ev)
  then show ?thesis using sim_adds [OF adds_step sim] by simp
next
  case (Reload now)
  then show ?thesis using sim_start [of now] by (auto simp: open_app_def load_effect_def case_prod_beta Let_def)
qed (use sim in \<open>auto simp: se_page_def Session.handleSubmit_def handleInstantDemo_def handleOnboardingComplete_def
    handleLogout_def\<close>)

lemma console_sim: "\<exists>a. toast_sim (se_toaster (cn_session (console_run w storage path now evs))) a"
proof -
  have "app_run s t \<Longrightarrow> toast_sim (se_toaster s) a \<Longrightarrow> \<exists>b. toast_sim (se_toaster t) b" for s t a
    by (induction rule: app_run.induct) (auto dest: sim_app_step)
  moreover have "toast_sim (se_toaster (open_app storage path now)) (abs_start now)"
    by (simp add: open_app_def load_effect_def case_prod_beta Let_def sim_start)
  ultimately show ?thesis using run_console by blast
qed

text \<open>
  C16: no toast stays on the console. The provider is shared by all pages, those that were left included;
  on every run the toasts shown have distinct ids, and once four seconds pass without an event none is
  shown and no timeout is pending.
\<close>

theorem console_toasts_expire:
  "let c = console_run w storage path now evs;
       t = se_toaster (cn_session (console_step w c (Toasts_do (Pass (4000 + ms)))))
   in distinct (map ti_id (to_toasts (se_toaster (cn_session c)))) \<and> to_toasts t = [] \<and> to_pending t = []"
proof -
  let ?c = "console_run w storage path now evs"
  let ?t = "se_toaster (cn_session ?c)"
  obtain a where sim: "toast_sim ?t a" using console_sim by blast
  then have "distinct (map ti_id (to_toasts ?t))"
    by (auto simp: toast_sim_def abs_visible_def distinct_map inj_on_def)
  moreover have "to_toasts (pass_time (4000 + ms) ?t) = [] \<and> to_pending (pass_time (4000 + ms) ?t) = []"
    using sim by (rule sim_expires)
  ultimately show ?thesis by (simp add: console_step_def with_session_def Let_def)
qed

section \<open>Requests and their credential\<close>

definition credential :: "request \<Rightarrow> string option" where
  "credential rq = om_get (rq_headers rq) ''Authorization''"

definition bearer :: "string option \<Rightarrow> string option" where
  "bearer t = (if truthy_str t then Some (''Bearer '' @ the t) else None)"

definition plain_call :: "api_call \<Rightarrow> bool" where
  "plain_call k = (case k of (m, path, extra, b) \<Rightarrow> om_get extra ''Authorization'' = None)"

lemma extras_plain [simp]: "om_get [] k = None" "om_get XHR ''Authorization'' = None" "om_get JSON_TYPE ''Authorization'' = None"
  by (simp_all add: om_get_def XHR_def JSON_TYPE_def)

lemma dash_plain: "\<forall>k \<in> set (dash_requests q). plain_call k"
  by (cases q) (simp_all add: plain_call_def)

lemma detail_plain: "\<forall>k \<in> set (detail_requests q). plain_call k"
  by (cases q) (simp_all add: plain_call_def)

lemma plan_plain: "\<forall>k \<in> set (plan_requests q). plain_call k"
  by (cases q) (simp_all add: plain_call_def)

lemma drift_plain: "\<forall>k \<in> set (drift_requests q). plain_call k"
  by (simp add: drift_requests_def plain_call_def)

lemma page_requests_plain: "\<forall>k \<in> set (page_requests msg m e). plain_call k"
  using dash_plain detail_plain plan_plain drift_plain
  by (cases "(msg, m, e)" rule: page_requests.cases) fastforce+

lemma mount_requests_plain: "\<forall>k \<in> set (mount_requests m). plain_call k"
  using dash_plain detail_plain by (cases m) fastforce+

lemma headers_credential:
  assumes "session_ok s" and "om_get extra ''Authorization'' = None"
  shows "om_get (fst (headers extra (se_client s))) ''Authorization'' = bearer (stored_token s)"
proof -
  have "fst (getToken (se_client s)) = stored_token s"
    using assms(1) by (auto simp: session_ok_def getToken_def stored_token_def Let_def)
  then show ?thesis
    using assms(2) by (auto simp: headers_def bearer_def obj_get_set case_prod_beta Let_def)
qed

text \<open>A part of a step that keeps the token and sends all its requests with it.\<close>

definition sends :: "console \<Rightarrow> console \<Rightarrow> bool" where
  "sends c d \<longleftrightarrow> (session_ok (cn_session c) \<longrightarrow>
     session_ok (cn_session d) \<and> stored_token (cn_session d) = stored_token (cn_session c) \<and>
     (\<exists>rqs. cn_sent d = cn_sent c @ rqs \<and>
       map credential rqs = replicate (length rqs) (bearer (stored_token (cn_session d)))))"

lemma sends_same:
  "cn_sent d = cn_sent c \<Longrightarrow> stored_token (cn_session d) = stored_token (cn_session c) \<Longrightarrow>
    (session_ok (cn_session c) \<Longrightarrow> session_ok (cn_session d)) \<Longrightarrow> sends c d"
  by (simp add: sends_def)

lemma sends_refl [simp, intro]: "sends c c"
  by (simp add: sends_same)

lemma sends_trans: "sends c d \<Longrightarrow> sends d e \<Longrightarrow> sends c e"
  by (fastforce simp: sends_def replicate_add)

lemma sends_call: "plain_call k \<Longrightarrow> sends c (send_call c k)"
  using headers_credential [of "cn_session c" "fst (snd (snd k))"] ok_step [OF _ Api_call, of "cn_session c"]
  by (cases k) (simp add: sends_def, simp add: send_call_def prepare_def plain_call_def credential_def
      case_prod_beta stored_token_def Let_def)

lemma sends_all: "\<forall>k \<in> set ks. plain_call k \<Longrightarrow> sends c (send_all ks c)"
  by (induction ks arbitrary: c) (auto intro: sends_trans [OF sends_call])

lemma stored_taken [simp]: "stored_token (taken p q s) = stored_token s"
  by (simp add: taken_def stored_token_def)

lemma ok_taken: "session_ok s \<Longrightarrow> session_ok (taken p q s)"
  by (simp add: taken_def session_ok_def stored_token_def)

lemma sends_page: "sends c (page_acts w e c)"
  unfolding page_acts_def Let_def
  by (rule sends_trans [OF _ sends_all [OF page_requests_plain]]) (simp add: sends_same ok_taken)

lemma sends_left: "sends c (left_acts w i e c)"
  unfolding left_acts_def Let_def
  by (rule sends_trans [OF _ sends_all [OF page_requests_plain]]) (simp add: sends_same ok_taken)

lemma sends_fail: "sends c (fail_page e c)"
  by (simp add: sends_same fail_page_def)

lemma sends_catch: "sends c (catch_error c)"
  by (simp add: catch_error_def sends_fail split: option.split)

lemma sends_route: "sends c (route_page w c)"
  using sends_trans [OF sends_page sends_catch]
    sends_trans [OF sends_same sends_all [OF mount_requests_plain], of "replace_page q c" c q for q]
  by (simp add: route_page_def mount_def Let_def)

lemma sends_render: "sends c (render w c)"
  by (simp add: render_def sends_fail sends_route sends_same split: sum.split app_view.split)

lemma sends_sent:
  "sends c d \<Longrightarrow> session_ok (cn_session c) \<Longrightarrow> \<exists>rqs. cn_sent d = cn_sent c @ rqs \<and>
    map credential rqs = replicate (length rqs) (bearer (stored_token (cn_session d)))"
  unfolding sends_def by blast

lemma sends_path: "sends c (render w (with_session (\<lambda>s. s\<lparr> se_path := path \<rparr>) c))"
  by (rule sends_trans [OF sends_same sends_render]) (simp_all add: with_session_def session_ok_def stored_token_def)

lemma sends_app: "sends (with_session (\<lambda>s. (app_handle s e)\<lparr> se_path := se_path s \<rparr>) c) (render_app w e c)"
  by (rule render_appI) (rule sends_render, rule sends_trans [OF _ sends_path])

lemma sends_handle:
  assumes "console_enabled c ev" and "session_ok (cn_session c)"
  shows "\<exists>rqs. cn_sent (console_handle w c ev) = cn_sent c @ rqs \<and>
    map credential rqs = replicate (length rqs) (bearer (stored_token (cn_session (console_handle w c ev))))"
proof -
  note r = sends_sent [OF sends_render]
  show ?thesis
  proof (cases ev)
    case (App_does e)
    have "session_ok (app_handle (cn_session c) e)"
      using ok_step [OF assms(2) run_app [of "cn_session c" e]] assms(1) by (simp add: App_does)
    then have "session_ok (cn_session (with_session (\<lambda>s. (app_handle s e)\<lparr> se_path := se_path s \<rparr>) c))"
      by (simp add: with_session_def session_ok_def stored_token_def)
    from sends_sent [OF sends_app this] show ?thesis by (simp add: App_does with_session_def)
  next
    case (Page_does e)
    then show ?thesis
      using sends_sent [OF sends_trans [OF sends_trans [OF sends_page sends_catch] sends_render] assms(2)] by simp
  next
    case (Left_does i e)
    then show ?thesis using sends_sent [OF sends_trans [OF sends_left sends_render] assms(2)] by simp
  next
    case (Go_to path)
    then show ?thesis
      using r [of "with_session (\<lambda>s. s\<lparr> se_path := path \<rparr>) c" w] ok_step [OF assms(2) Go]
      by (simp add: with_session_def)
  next
    case (Toasts_do e)
    then show ?thesis by (simp add: with_session_def)
  next
    case Try_again
    then show ?thesis using r [of "c\<lparr> cn_boundary := tryAgain (cn_boundary c) \<rparr>" w] assms(2) by simp
  next
    case (Reload_page now)
    then show ?thesis
      using r [of "\<lparr> cn_session = open_app (ac_storage (se_client (cn_session c))) (se_path (cn_session c)) now,
        cn_page = At_login, cn_left = [], cn_boundary = fresh_boundary, cn_sent = cn_sent c \<rparr>" w]
      by (simp add: open_console_def ok_open_app)
  qed
qed

lemma ok_console: "session_ok (cn_session (console_run w storage path now evs))"
  using ok_reached [OF run_console] .

lemma signed_out_bearer: "session_ok s \<Longrightarrow> bearer (stored_token s) = (if se_auth s then bearer (stored_token s) else None)"
  by (auto simp: session_ok_def bearer_def)

text \<open>
  C1: every request that the pages send through the client carries the credential of the user who is signed
  in, and only that. Each step of any run adds requests to those already sent, of the page shown, of a page
  that is being opened or of one that was left; all of them carry the token in the browser's storage as
  bearer token, and none carries one when no user is signed in.
\<close>

theorem requests_carry_the_token:
  "let c = console_run w storage path now evs; c' = console_step w c ev; s = cn_session c'
   in \<exists>rqs. cn_sent c' = cn_sent c @ rqs \<and>
      map credential rqs = replicate (length rqs) (if se_auth s then bearer (stored_token s) else None)"
proof -
  let ?c = "console_run w storage path now evs"
  have "session_ok (cn_session (console_step w ?c ev))"
    using ok_run [OF run_console_step ok_console] .
  then have "bearer (stored_token (cn_session (console_step w ?c ev))) =
      (if se_auth (cn_session (console_step w ?c ev)) then bearer (stored_token (cn_session (console_step w ?c ev)))
       else None)" by (rule signed_out_bearer)
  moreover have "\<exists>rqs. cn_sent (console_step w ?c ev) = cn_sent ?c @ rqs \<and>
      map credential rqs = replicate (length rqs) (bearer (stored_token (cn_session (console_step w ?c ev))))"
    using sends_handle [OF _ ok_console] by (simp add: console_step_def)
  ultimately show ?thesis by (simp add: Let_def)
qed

end
