(* ===== verification/ConsoleOutcomes.thy ===== *)
theory ConsoleOutcomes
  imports ConsoleClaims
begin

text \<open>
  What becomes of the console after an event: signing in, answers that arrive on a page that was left,
  answers and tokens that cannot be shown; and a small console on which the witnesses run.
\<close>

section \<open>A console to try\<close>

text \<open>
  The witnesses run it: a router that takes an address for a migration's when it starts with
  \<^verbatim>\<open>/migrations/\<close>, and a browser that holds a token from an earlier visit.
\<close>

definition sample_pick :: "(string \<times> page) list \<Rightarrow> string \<Rightarrow> page" where
  "sample_pick routes path =
     (if path = ''/'' then Page_Dashboard
      else if path = ''/plans/new'' then Page_NewPlan
      else if path = ''/drift-scan'' then Page_DriftScan
      else if take 12 path = ''/migrations/'' then Page_MigrationDetail else Page_NotFound)"

definition sample_browser :: browser where
  "sample_browser =
     \<lparr> br_pick = sample_pick, br_id = drop 12, br_json_error = (\<lambda>_. ''invalid JSON''),
       br_child_error = (\<lambda>_. ''Objects are not valid as a React child'') \<rparr>"

definition opened :: "console_event list \<Rightarrow> console" where
  "opened evs = console_run sample_browser [TOKEN_KEY \<mapsto> ''t''] ''/'' 0 evs"

lemma opened_snoc: "opened (evs @ [ev]) = console_step sample_browser (opened evs) ev"
  by (simp add: opened_def console_run_def)

text \<open>The dashboard is shown to the user with the role viewer, and \<open>P\<close> holds of it.\<close>

definition dash_at :: "console \<Rightarrow> (dashboard \<Rightarrow> bool) \<Rightarrow> bool" where
  "dash_at c P \<longleftrightarrow> (case cn_page c of At_dash d sp \<Rightarrow> P d | _ \<Rightarrow> False) \<and> \<not> eb_hasError (cn_boundary c) \<and>
     se_auth (cn_session c) \<and> se_role (cn_session c) = Some (JStr ''viewer'') \<and> se_path (cn_session c) = ''/'' \<and>
     length (cn_left c) = 1"

lemmas sample_defs = dash_at_def console_step_def render_def App_def role_shown_def bind_result_def route_page_def
  mount_def sample_browser_def sample_pick_def

lemma dash_at_step:
  assumes "dash_at c P" and "own_event (On_dash e)"
    and "\<And>d t. P d \<Longrightarrow> Q (dash_step (d\<lparr> db_toaster := t \<rparr>) e) \<and> db_navs (dash_step (d\<lparr> db_toaster := t \<rparr>) e) = db_navs d"
  shows "dash_at (console_step sample_browser c (Page_does (On_dash e))) Q"
proof -
  obtain d sp where p: "cn_page c = At_dash d sp" "P d" using assms(1) by (auto simp: dash_at_def split: mounted.splits)
  then show ?thesis
    using assms(1,2) assms(3) [OF p(2)]
    by (simp add: sample_defs page_acts_def catch_error_def taken_def follow_def Let_def)
qed

lemma role_t: "token_role ''t'' = Some (JStr ''viewer'')"
  by code_simp

lemma dash_opened:
  "dash_at (opened []) (\<lambda>d. dash_mounted d \<and> \<not> db_runningDemo d \<and> db_calls d = [Call_list] \<and> db_delayed d = [])"
proof -
  have "dash_mounted (dash_step (fresh_dashboard no_timers t) Mount)" for t
    using mount_present [of Page_Dashboard "[]" t] by simp
  then show ?thesis
    by (simp add: sample_defs opened_def console_run_def open_console_def fresh_boundary_def truthy_str_def role_t Let_def)
      (simp add: open_app_def load_effect_def dash_step_def fresh_dashboard_def render_poll_def fetchMigrations_def
        call_def dash_mounted_def unmounted_def case_prod_beta Let_def)
qed

definition demo_pressed :: "console_event list" where
  "demo_pressed = [Page_does (On_dash Run_demo)]"

lemma demo_pressed_at: "dash_at (opened demo_pressed) (\<lambda>d. db_calls d = [Call_list, Call_reset] \<and> db_delayed d = [])"
  using dash_at_step [OF dash_opened, of Run_demo "\<lambda>d. db_calls d = [Call_list, Call_reset] \<and> db_delayed d = []"]
    opened_snoc [of "[]" "Page_does (On_dash Run_demo)"]
  by (simp add: demo_pressed_def dash_step_def run_demo_start_def call_def dash_mounted_def)

text \<open>From there the user goes to the drift scan: the dashboard is left with its calls and timeouts.\<close>

lemma dash_leaves:
  assumes "dash_at (opened evs) P"
  shows "\<exists>d sp. P d \<and> length (cn_left (opened (evs @ [Go_to ''/drift-scan'']))) = 2 \<and>
    cn_left (opened (evs @ [Go_to ''/drift-scan''])) ! 1 = At_dash (dash_step d Dashboard.Leave) sp"
  using assms unfolding opened_snoc
  by (auto simp: sample_defs with_session_def nth_append Let_def split: mounted.splits)

section \<open>Signing in\<close>















section \<open>Pages that were left\<close>

text \<open>What a page sends through a sequence of its events, with the toasts there are at each.\<close>

fun sent_by :: "(string \<Rightarrow> string) \<Rightarrow> mounted \<Rightarrow> (toaster \<times> page_event) list \<Rightarrow> api_call list" where
  "sent_by msg m [] = []"
| "sent_by msg m ((t, e) # es) =
     (let p = put_toaster t m in page_requests msg p e @ sent_by msg (page_step msg p e) es)"

text \<open>The calls in flight whose handler goes on with another call.\<close>

fun dash_goes_on :: "dash_call \<Rightarrow> bool" where
  "dash_goes_on (Call_delete ids) \<longleftrightarrow> True"
| "dash_goes_on Call_reset \<longleftrightarrow> True"
| "dash_goes_on q \<longleftrightarrow> False"

fun detail_goes_on :: "detail_call \<Rightarrow> bool" where
  "detail_goes_on (Abort_call i m) \<longleftrightarrow> True"
| "detail_goes_on q \<longleftrightarrow> False"

fun followups :: "mounted \<Rightarrow> nat" where
  "followups (At_dash d sp) = length (filter dash_goes_on (db_calls d))"
| "followups (At_detail d ms) = length (filter detail_goes_on (dt_calls d))"
| "followups m = 0"

lemma filter_remove1:
  "q \<in> set qs \<Longrightarrow> length (filter P qs) = length (filter P (remove1 q qs)) + (if P q then 1 else 0)"
  by (induction qs) auto

text \<open>A page that no longer runs: an event settles nothing, or one call that at most one other follows.\<close>

definition settles_one ::
  "('q \<Rightarrow> bool) \<Rightarrow> ('q \<Rightarrow> api_call list) \<Rightarrow> 'q list \<Rightarrow> 'q list \<Rightarrow> 'q list \<Rightarrow> bool" where
  "settles_one P req done old new \<longleftrightarrow>
     (done = [] \<or> \<not> set done \<subseteq> set old) \<and> new = old \<or>
     (\<exists>q. done = [q] \<and> q \<in> set old \<and>
        (new = remove1 q old \<or>
         P q \<and> (\<exists>x. new = remove1 q old @ [x] \<and> \<not> P x \<and> length (req x) = 1)))"

lemma settled_budget:
  assumes "settles_one P req done old new"
  shows "length (concat (map req (issued done old new))) + length (filter P new) \<le> length (filter P old)"
  using assms unfolding settles_one_def
proof (elim disjE conjE exE)
  fix q
  assume q: "done = [q]" "q \<in> set old" "new = remove1 q old"
  then have "issued done old new = []" by (simp add: issued_def length_remove1)
  then show ?thesis using filter_remove1 [OF q(2), of P] q(3) by simp
next
  fix q x
  assume q: "done = [q]" "q \<in> set old" "new = remove1 q old @ [x]" and x: "P q" "\<not> P x" "length (req x) = 1"
  then have "issued done old new = [x]" by (simp add: issued_def length_remove1)
  then show ?thesis using filter_remove1 [OF q(2), of P] q(3) x by simp
qed (simp_all add: issued_def)

lemma dash_settles:
  assumes "poll_ok d" and "\<not> dash_mounted d" and "own_event (On_dash e)"
  shows "settles_one dash_goes_on dash_requests (settles_dash e) (db_calls d) (db_calls (dash_step d e))"
proof (cases "enabled d e")
  case False
  then have "dash_step d e = d" by (simp add: dash_step_def)
  then show ?thesis using False assms(3) by (cases e) (simp_all add: settles_one_def)
next
  case True
  have off: "own_live (db_poll d) = []" using dash_periods [OF assms(1)] assms(2) by simp
  show ?thesis
    using True assms(2,3) off
    by (cases e)
      (simp_all add: dash_step_def table_on_def settle_def fetched_def bulk_delete_done_def demo_reset_def
        demo_submitted_def demo_failed_def set_migrations_def fetchMigrations_def call_def post_def
        navigate_now_def dash_mounted_def settles_one_def split: sum.split)
qed

lemma detail_settles:
  assumes "polls_ok d" and "\<not> dt_mounted d" and "own_event (On_detail e)"
  shows "settles_one detail_goes_on detail_requests (settles_detail e) (dt_calls d) (dt_calls (detail_step d e))"
proof (cases "dt_enabled d e")
  case False
  then have "detail_step d e = d" by (simp add: detail_step_def)
  then show ?thesis using False assms(3) by (cases e) (simp_all add: settles_one_def)
next
  case True
  have off: "own_live (dt_poll d) = []" "own_live (dt_safetyPoll d) = []"
    using detail_periods [OF assms(1)] assms(2) by simp_all
  have "\<not> dt_mounted (dt_handle d e)" using handle_mounted [of e d] assms(2,3) by (cases "e = D_leave") simp_all
  then have "detail_step d e = dt_handle d e" using True assms(3) by (cases e) (simp_all add: detail_step_def Let_def)
  then show ?thesis
    using True assms(2,3) off
    by (cases e)
      (simp_all add: settles_one_def record_fetched_def schema_fetched_def safety_fetched_def abort_done_def
        dt_settle_def dt_post_def dt_call_def leave_page_def Let_def split: sum.split option.split)
qed

lemma plan_settles:
  assumes "\<not> np_mounted p" and "own_event (On_plan e)"
  shows "settles_one (\<lambda>_. False) plan_requests (settles_plan e) (np_calls p) (np_calls (plan_step msg p e))"
proof (cases "np_enabled p e")
  case False
  then have "plan_step msg p e = p" by (simp add: plan_step_def)
  then show ?thesis using False by (cases e) (simp_all add: settles_one_def)
next
  case True
  then show ?thesis
    using assms
    by (cases e)
      (auto simp: plan_step_def np_commit_def np_defs shown_form_def settles_one_def
        split: sum.split option.split prod.split)
qed

lemma drift_settles:
  assumes "\<not> ds_mounted p" and "own_event (On_drift e)"
  shows "settles_one (\<lambda>_. False) drift_requests (settles_drift e) (ds_calls p) (ds_calls (drift_step msg p e))"
  using assms by (cases e) (auto simp: drift_step_def ds_defs settles_one_def split: sum.split)

lemma followups_put [simp]: "followups (put_toaster t m) = followups m"
  by (cases m) simp_all

lemma left_budget:
  assumes "page_ok m" and "gone m" and "own_event e"
  shows "length (page_requests msg m e) + followups (page_step msg m e) \<le> followups m"
  using assms
proof (cases "(msg, m, e)" rule: page_step.cases)
  case (1 g d sp f)
  then show ?thesis using assms settled_budget [OF dash_settles [of d f]] by simp
next
  case (3 g d ms f)
  then show ?thesis using assms settled_budget [OF detail_settles [of d f]] by (simp add: detail_moves_def Let_def)
next
  case (5 g p f)
  then show ?thesis using assms settled_budget [OF plan_settles [of p f g]] by simp
next
  case (6 g p f)
  then show ?thesis using assms settled_budget [OF drift_settles [of p f g]] by simp
qed simp_all

lemma sent_by_budget:
  "page_ok m \<Longrightarrow> gone m \<Longrightarrow> list_all (\<lambda>te. own_event (snd te)) es \<Longrightarrow> length (sent_by msg m es) \<le> followups m"
proof (induction msg m es rule: sent_by.induct)
  case (2 msg m t e es)
  let ?p = "put_toaster t m"
  have "length (sent_by msg (page_step msg ?p e) es) \<le> followups (page_step msg ?p e)"
    using 2 page_ok_step gone_step by simp
  then show ?case using left_budget [of ?p e msg] 2(2-4) by (simp add: Let_def)
qed simp

text \<open>
  C7: a page that was left falls silent. Take any page left behind in any run, and any further events of it,
  with whatever toasts are there: it sends at most one request for each delete, reset or abort that was in
  flight when it was last seen. So a page that was left idle never sends again.
\<close>

theorem left_pages_fall_silent:
  assumes "m \<in> set (cn_left (console_run w storage path now evs))"
    and "list_all (\<lambda>te. own_event (snd te)) es"
  shows "length (sent_by (br_json_error w) m es) \<le> followups m"
  using console_ok_run [of w storage path now evs] assms
  by (intro sent_by_budget) (simp_all add: console_ok_def left_ok_def)

theorem left_pages_fall_silent_witness:
  "length (sent_by (br_json_error sample_browser) (cn_left (opened (demo_pressed @ [Go_to ''/drift-scan''])) ! 1)
     (map (\<lambda>e. (fresh_toaster 0, On_dash e)) [Listed (Inr None), Demo_reset (Inr ()) (Fin 0), Poll_tick])) \<le> 1"
proof -
  let ?c = "opened (demo_pressed @ [Go_to ''/drift-scan''])"
  obtain d sp where d: "db_calls d = [Call_list, Call_reset]" "length (cn_left ?c) = 2"
      "cn_left ?c ! 1 = At_dash (dash_step d Dashboard.Leave) sp"
    using dash_leaves [OF demo_pressed_at] by auto
  then have "followups (cn_left ?c ! 1) = 1" by (simp add: dash_step_def)
  moreover have "cn_left ?c ! 1 \<in> set (cn_left ?c)" using d(2) by (intro nth_mem) simp
  ultimately show ?thesis
    using left_pages_fall_silent [of "cn_left ?c ! 1" sample_browser "[TOKEN_KEY \<mapsto> ''t'']" "''/''" 0
        "demo_pressed @ [Go_to ''/drift-scan'']"]
    by (simp flip: opened_def del: sent_by.simps)
qed

section \<open>Where a late answer leads\<close>

lemma detail_acts_path: "se_path (cn_session (page_acts w (On_detail e) c)) = se_path (cn_session c)"
  by (cases "cn_page c") (simp_all add: page_acts_def taken_def follow_def detail_moves_def Let_def)

lemma render_path [simp]: "se_path (cn_session (render w c)) = se_path (cn_session c)"
  by (simp add: render_def route_page_def mount_def fail_page_def detail_acts_path Let_def
      split: sum.split app_view.split)

lemma left_acts_path:
  "page_navs (page_step (br_json_error w) (put_toaster (se_toaster (cn_session c)) (cn_left c ! i)) e) =
     page_navs (cn_left c ! i) @ [path] \<Longrightarrow> se_path (cn_session (left_acts w i e c)) = path"
  by (simp add: left_acts_def taken_def follow_def Let_def)

lemma leads_to:
  assumes "console_ok c" and "own_event e" and "i < length (cn_left c)"
    and "page_navs (page_step (br_json_error w) (put_toaster (se_toaster (cn_session c)) (cn_left c ! i)) e) =
      page_navs (cn_left c ! i) @ [path]"
  shows "let c' = console_step w c (Left_does i e)
    in se_path (cn_session c') = path \<and>
       (se_auth (cn_session c') \<and> cn_page c' \<noteq> At_failed \<longrightarrow> of_route (br_pick w App_routes path) (cn_page c'))"
proof -
  have c': "console_step w c (Left_does i e) = render w (left_acts w i e c)"
    using assms(2,3) by (simp add: console_step_def)
  have p: "se_path (cn_session (left_acts w i e c)) = path" by (rule left_acts_path [OF assms(4)])
  have "shows_route w (render w (left_acts w i e c))"
    by (rule render_shows [OF left_acts_ok [OF assms(1-3)]])
  then show ?thesis by (auto simp: c' p shows_route_def is_failed_def Let_def split: mounted.splits)
qed

text \<open>
  C18: a page that was left can still take the user away. When the demo's answer arrives on the dashboard, a
  timeout of one second is started that nothing clears; when a plan is submitted, the answer may
  take long. Whatever page the user has gone to meanwhile, when that timeout or that answer comes, the
  address changes to the new migration's and the page the user works on is replaced.
\<close>

theorem late_redirects:
  assumes "c = console_run w storage path now evs" and "i < length (cn_left c)"
    and "(\<exists>d sp. cn_left c ! i = At_dash d sp \<and> (\<exists>ps. db_delayed d = target # ps) \<and> e = On_dash Delay_over) \<or>
      (\<exists>p b j res. cn_left c ! i = At_plan p \<and> Submit b \<in> set (np_calls p) \<and> body_id b = Inr j \<and>
         target = ''/migrations/'' @ ps_migration_id res \<and> e = On_plan (P_submitted b (Inr res)))"
  shows "let c' = console_step w c (Left_does i e)
    in se_path (cn_session c') = target \<and>
       (se_auth (cn_session c') \<and> cn_page c' \<noteq> At_failed \<longrightarrow> of_route (br_pick w App_routes target) (cn_page c'))"
proof (rule leads_to [OF _ _ assms(2)])
  show "console_ok c" by (simp add: assms(1) console_ok_run)
  show "own_event e" using assms(3) by auto
  show "page_navs (page_step (br_json_error w) (put_toaster (se_toaster (cn_session c)) (cn_left c ! i)) e) =
      page_navs (cn_left c ! i) @ [target]"
    using assms(3)
    by (auto simp: dash_step_def navigate_now_def plan_step_def np_commit_def plan_submitted_def np_settle_def
        np_post_def bind_result_def)
qed

text \<open>The demo is started, its answers come, and the user goes on to the drift scan.\<close>

definition demo_answered :: "number \<Rightarrow> console_event list" where
  "demo_answered now = demo_pressed @ [Page_does (On_dash (Demo_reset (Inr ()) now)),
     Page_does (On_dash (Demo_submitted (js_floor (js_div now (Fin 1000))) (Inr \<lparr> ps_migration_id = ''m7'' \<rparr>)))]"

lemma demo_answered_at: "dash_at (opened (demo_answered now)) (\<lambda>d. db_delayed d = [''/migrations/m7''])"
proof -
  let ?v = "js_floor (js_div now (Fin 1000))"
  have "dash_at (opened (demo_pressed @ [Page_does (On_dash (Demo_reset (Inr ()) now))]))
      (\<lambda>d. Call_submit ?v \<in> set (db_calls d) \<and> db_delayed d = [])"
    unfolding opened_snoc
    by (rule dash_at_step [OF demo_pressed_at]) (simp_all add: dash_step_def demo_reset_def call_def settle_def)
  then have "dash_at (opened ((demo_pressed @ [Page_does (On_dash (Demo_reset (Inr ()) now))]) @
      [Page_does (On_dash (Demo_submitted ?v (Inr \<lparr> ps_migration_id = ''m7'' \<rparr>)))]))
      (\<lambda>d. db_delayed d = [''/migrations/m7''])"
    unfolding opened_snoc by (rule dash_at_step) (simp_all add: dash_step_def demo_submitted_def post_def settle_def)
  then show ?thesis by (simp add: demo_answered_def)
qed

theorem late_redirects_witness:
  "se_path (cn_session (console_step sample_browser (opened (demo_answered (Fin 1700000000000) @ [Go_to ''/drift-scan'']))
     (Left_does 1 (On_dash Delay_over)))) = ''/migrations/m7''"
proof -
  let ?evs = "demo_answered (Fin 1700000000000) @ [Go_to ''/drift-scan'']"
  obtain d sp where "db_delayed d = [''/migrations/m7'']" "length (cn_left (opened ?evs)) = 2"
      "cn_left (opened ?evs) ! 1 = At_dash (dash_step d Dashboard.Leave) sp"
    using dash_leaves [OF demo_answered_at] by blast
  then show ?thesis
    using late_redirects [OF opened_def [of ?evs], of 1 "''/migrations/m7''" "On_dash Delay_over"]
    by (simp add: Let_def dash_step_def)
qed

section \<open>The error message\<close>

fun still :: "console_event \<Rightarrow> bool" where
  "still Try_again \<longleftrightarrow> False"
| "still (Reload_page now) \<longleftrightarrow> False"
| "still ev \<longleftrightarrow> True"

lemma failed_page_acts:
  assumes "cn_page c = At_failed"
  shows "cn_page (page_acts w e c) = At_failed" "cn_boundary (page_acts w e c) = cn_boundary c"
    "cn_session (page_acts w e c) = cn_session c"
  by (simp_all add: page_acts_def assms taken_def follow_def Let_def)

lemma failed_render: "cn_page c = At_failed \<Longrightarrow> eb_hasError (cn_boundary c) \<Longrightarrow> render w c = c"
  by (simp add: render_def is_failed_def)

lemma failed_app:
  assumes "cn_page c = At_failed" and "eb_hasError (cn_boundary c)"
  shows "cn_page (render_app w e c) = At_failed \<and> cn_boundary (render_app w e c) = cn_boundary c"
  using assms by (simp add: render_app_def with_session_def failed_render Let_def)

lemma failed_stays:
  assumes "cn_page c = At_failed" and "eb_hasError (cn_boundary c)" and "still ev"
  shows "cn_page (console_step w c ev) = At_failed \<and> cn_boundary (console_step w c ev) = cn_boundary c"
  using assms failed_page_acts [OF assms(1)] failed_app [OF assms(1,2)]
  by (cases ev) (auto simp: console_step_def with_session_def left_acts_def catch_error_def failed_render Let_def)

lemma failed_stays_run:
  "cn_page c = At_failed \<Longrightarrow> eb_hasError (cn_boundary c) \<Longrightarrow> list_all still evs \<Longrightarrow>
    cn_page (foldl (console_step w) c evs) = At_failed \<and> cn_boundary (foldl (console_step w) c evs) = cn_boundary c"
  by (induction evs arbitrary: c) (simp_all add: failed_stays)

text \<open>Both console-wide failures: an answer that a page cannot show, and a role that React cannot.\<close>

lemma page_fails:
  assumes "own_event e" and "page_failure (page_step (br_json_error w) (put_toaster (se_toaster (cn_session c)) (cn_page c)) e) = Some err"
  shows "cn_page (console_step w c (Page_does e)) = At_failed \<and>
    cn_boundary (console_step w c (Page_does e)) = getDerivedStateFromError err"
  using assms
  by (simp add: console_step_def page_acts_def catch_error_def fail_page_def render_def is_failed_def
      getDerivedStateFromError_def Let_def)

lemma try_again_mounts:
  assumes "eb_hasError (cn_boundary c)" and "cn_page c = At_failed"
    and "App (br_child_error w) (br_pick w) (cn_session c) = Inr (Shows_app wz links role r)"
    and "br_pick w App_routes (se_path (cn_session c)) = Page_NewPlan"
  shows "cn_page (console_step w c Try_again) = At_plan (fresh_plan (se_toaster (cn_session c)))"
  using assms
  by (simp add: console_step_def render_def tryAgain_def route_page_def mount_def Let_def)

text \<open>
  C15: an unknown table takes the whole console down. The engine sends \<^verbatim>\<open>null\<close> for the columns of a table
  it does not know. When that answer arrives on the form of the plan page, the error message replaces the
  page and the navigation, and stays through everything but \<^verbatim>\<open>Try Again\<close> and reloading: the controls are
  gone, and changing the address does not help. If the address is still the form's, \<^verbatim>\<open>Try Again\<close> shows an
  empty form: everything typed is gone.
\<close>

theorem unknown_table_fails_console:
  assumes "cn_page c = At_plan p" and "shown_form p" and "Load_schema tbl typed \<in> set (np_calls p)"
    and "sr_columns res = None" and "list_all still evs"
    and "d = foldl (console_step w) (console_step w c (Page_does (On_plan (P_schema tbl typed (Inr res))))) evs"
  shows "cn_page d = At_failed \<and> eb_error (cn_boundary d) = Some (null_read ''map'') \<and>
    (App (br_child_error w) (br_pick w) (cn_session d) = Inr (Shows_app wz links role Page_NewPlan) \<longrightarrow>
       cn_page (console_step w d Try_again) = At_plan (fresh_plan (se_toaster (cn_session d))))"
proof -
  let ?e = "P_schema tbl typed (Inr res)"
  let ?p = "p\<lparr> np_toaster := se_toaster (cn_session c) \<rparr>"
  let ?c = "console_step w c (Page_does (On_plan ?e))"
  have "shown_form ?p" "Load_schema tbl typed \<in> set (np_calls ?p)" using assms(2,3) by (simp_all add: shown_form_def)
  then have "np_crashed (plan_step (br_json_error w) ?p ?e) = Some (null_read ''map'')"
    using unknown_table_crashes assms(4) by blast
  then have f: "cn_page ?c = At_failed" "cn_boundary ?c = getDerivedStateFromError (null_read ''map'')"
    using page_fails [of "On_plan ?e" w c "null_read ''map''"] by (simp_all add: assms(1))
  then have d: "cn_page d = At_failed" "cn_boundary d = getDerivedStateFromError (null_read ''map'')"
    using failed_stays_run [OF f(1) _ assms(5)] by (simp_all add: assms(6) getDerivedStateFromError_def)
  have r: "br_pick w App_routes (se_path s) = r" if "App ce (br_pick w) s = Inr (Shows_app wz links role r)" for s ce r
    using that by (auto simp: App_def bind_result_Inr_iff split: if_splits)
  show ?thesis
    using d try_again_mounts [of d w wz links role Page_NewPlan] r by (auto simp: getDerivedStateFromError_def)
qed

theorem unknown_table_fails_console_witness:
  "cn_page (console_step sample_browser
     (console_step sample_browser
        ((opened [])\<lparr> cn_page := At_plan ((fresh_plan (fresh_toaster 0))\<lparr> np_calls := [Load_schema ''x'' ''x''] \<rparr>) \<rparr>)
        (Page_does (On_plan (P_schema ''x'' ''x'' (Inr \<lparr> sr_table = ''x'', sr_columns = None \<rparr>)))))
     (Go_to ''/'')) = At_failed"
proof -
  let ?p = "(fresh_plan (fresh_toaster 0))\<lparr> np_calls := [Load_schema ''x'' ''x''] \<rparr>"
  have "shown_form ?p" by (simp add: shown_form_def fresh_plan_def)
  moreover have "Load_schema ''x'' ''x'' \<in> set (np_calls ?p)" by simp
  moreover have "sr_columns \<lparr> sr_table = ''x'', sr_columns = None \<rparr> = None" by simp
  moreover have "cn_page ((opened [])\<lparr> cn_page := At_plan ?p \<rparr>) = At_plan ?p" by simp
  moreover have "list_all still [Go_to ''/'']" by simp
  ultimately have "cn_page (foldl (console_step sample_browser) (console_step sample_browser
      ((opened [])\<lparr> cn_page := At_plan ?p \<rparr>)
      (Page_does (On_plan (P_schema ''x'' ''x'' (Inr \<lparr> sr_table = ''x'', sr_columns = None \<rparr>))))) [Go_to ''/'']) = At_failed"
    using unknown_table_fails_console [OF _ _ _ _ _ refl] by blast
  then show ?thesis by (simp only: foldl.simps)
qed

section \<open>A role that cannot be shown\<close>

definition locked_out :: "string \<Rightarrow> json \<Rightarrow> console \<Rightarrow> bool" where
  "locked_out tok v c \<longleftrightarrow>
     (let s = cn_session c
      in cn_page c = At_failed \<and> eb_hasError (cn_boundary c) \<and> se_auth s \<and> se_calls s = [] \<and>
         se_role s = Some v \<and> stored_token s = Some tok)"

lemma render_locks:
  assumes "se_auth (cn_session c)" and "se_role (cn_session c) = Some (JObj m)" and "\<not> eb_hasError (cn_boundary c)"
  shows "cn_page (render w c) = At_failed \<and> eb_hasError (cn_boundary (render w c)) \<and>
    cn_session (render w c) = cn_session c"
  using assms
  by (simp add: render_def App_def role_shown_def bind_result_def fail_page_def getDerivedStateFromError_def)

lemma open_locks:
  assumes "storage TOKEN_KEY = Some tok" and "tok \<noteq> []" and "token_role tok = Some (JObj m)"
  shows "locked_out tok (JObj m) (open_console w storage path now sent)"
  using assms render_locks [of "\<lparr> cn_session = open_app storage path now, cn_page = At_login, cn_left = [],
      cn_boundary = fresh_boundary, cn_sent = sent \<rparr>" m w]
  by (simp add: locked_out_def open_console_def truthy_str_def fresh_boundary_def stored_token_def Let_def)

lemma left_session:
  "se_auth (cn_session (left_acts w i e c)) = se_auth (cn_session c)"
  "se_role (cn_session (left_acts w i e c)) = se_role (cn_session c)"
  "se_calls (cn_session (left_acts w i e c)) = se_calls (cn_session c)"
  "stored_token (cn_session (left_acts w i e c)) = stored_token (cn_session c)"
  "cn_page (left_acts w i e c) = cn_page c" "cn_boundary (left_acts w i e c) = cn_boundary c"
  by (simp_all add: left_acts_def taken_def stored_token_def Let_def)

lemma locked_step:
  assumes lock: "locked_out tok (JObj m) c" and tok: "tok \<noteq> []" "token_role tok = Some (JObj m)"
  shows "locked_out tok (JObj m) (console_step w c ev)"
proof (cases "console_enabled c ev")
  case True
  have c: "cn_page c = At_failed" "eb_hasError (cn_boundary c)" "se_auth (cn_session c)" "se_calls (cn_session c) = []"
    "se_role (cn_session c) = Some (JObj m)" "stored_token (cn_session c) = Some tok"
    using lock by (simp_all add: locked_out_def Let_def)
  note r = failed_render
  show ?thesis
  proof (cases ev)
    case (App_does e)
    then show ?thesis using True c by (cases e) (simp_all add: is_failed_def)
  next
    case (Page_does e)
    then show ?thesis
      using True lock c failed_page_acts [OF c(1)]
      by (simp add: console_step_def catch_error_def r) (simp add: locked_out_def)
  next
    case (Left_does i e)
    then show ?thesis using True c by (simp add: console_step_def r left_session locked_out_def)
  next
    case (Go_to path)
    then show ?thesis using c by (simp add: console_step_def with_session_def r locked_out_def stored_token_def)
  next
    case (Toasts_do e)
    then show ?thesis using True c by (simp add: console_step_def with_session_def locked_out_def stored_token_def)
  next
    case Try_again
    then show ?thesis
      using True c render_locks [of "c\<lparr> cn_boundary := tryAgain (cn_boundary c) \<rparr>" m w]
      by (simp add: console_step_def locked_out_def tryAgain_def Let_def)
  next
    case (Reload_page now)
    then show ?thesis using open_locks [OF _ tok] c by (simp add: console_step_def stored_token_def)
  qed
qed (use lock in \<open>simp add: console_step_def\<close>)

text \<open>
  C17: a token whose role is no text locks the user out. The role is read from the stored token without a
  check and put into the navigation; when it is an object, React throws. Then every state of every run
  shows the error message: trying again, changing the address and reloading do not help, and the button
  that would sign out is part of what is not shown.
\<close>

theorem object_role_locks_out:
  assumes "storage TOKEN_KEY = Some tok" and "tok \<noteq> []" and "token_role tok = Some (JObj m)"
  shows "cn_page (console_run w storage path now evs) = At_failed \<and>
    console_enabled (console_run w storage path now evs) (App_does Logout_button) = False"
proof -
  have "locked_out tok (JObj m) (console_run w storage path now evs)"
    unfolding console_run_def
    by (induction evs rule: rev_induct) (simp_all add: open_locks [of storage, OF assms] locked_step [OF _ assms(2,3)])
  then show ?thesis by (simp add: locked_out_def is_failed_def Let_def)
qed

theorem object_role_locks_out_witness:
  "cn_page (console_run sample_browser [TOKEN_KEY \<mapsto> ''e30.'' @ base64url ''{\"role\":{}}'' @ ''.sig''] ''/'' 0
     [Try_again, Go_to ''/plans/new'', Reload_page 5]) = At_failed"
proof -
  have "json_read ''{\"role\":{}}'' = Some (JObj [(''role'', JObj [])])" by code_simp
  moreover have "\<forall>c \<in> set ''{\"role\":{}}''. jwt_safe c" by (simp add: jwt_safe_def)
  moreover have "token_part (''e30'' @ CHR ''.'' # base64url ''{\"role\":{}}'' @ CHR ''.'' # ''sig'') = base64url ''{\"role\":{}}''"
    by (rule token_part_mid) simp
  ultimately have "token_role (''e30.'' @ base64url ''{\"role\":{}}'' @ ''.sig'') = Some (JObj [])"
    using atob_safe [of "''{\"role\":{}}''"] by (simp add: token_role_def om_get_def)
  moreover have "''e30.'' @ base64url ''{\"role\":{}}'' @ ''.sig'' \<noteq> []" by (simp only: append_Cons list.distinct not_False_eq_True)
  ultimately show ?thesis by (intro conjunct1 [OF object_role_locks_out [OF fun_upd_same]])
qed

end
