(* ===== verification/Destruction.thy ===== *)
theory Destruction
  imports ConsoleOutcomes
begin

text \<open>
  The requests that destroy something: deleting migrations and aborting one. On every run of the console
  (\<^verbatim>\<open>Console.thy\<close>) they are sent on confirmation only and name what the page had been told of; and what
  the abort dialog does once the page shows another migration or the migration has ended.
\<close>

section \<open>Requests that destroy\<close>

definition destructive :: "api_call \<Rightarrow> bool" where
  "destructive k \<longleftrightarrow> (case k of (m, path, extra, b) \<Rightarrow> m = DELETE \<or> m = POST \<and> take 12 path = ''/migrations/'')"

definition destroys :: "request \<Rightarrow> bool" where
  "destroys rq \<longleftrightarrow> rq_method rq = DELETE \<or> rq_method rq = POST \<and> take 12 (rq_url rq) = ''/migrations/''"

text \<open>The request made of a call: the client has no base address (\<^verbatim>\<open>API_BASE\<close> is empty).\<close>

definition sent_for :: "api_call \<Rightarrow> request \<Rightarrow> bool" where
  "sent_for k rq \<longleftrightarrow> (case k of (m, path, extra, b) \<Rightarrow> rq_method rq = m \<and> rq_url rq = path \<and> rq_body rq = b)"

definition based :: "session \<Rightarrow> bool" where
  "based s \<longleftrightarrow> ac_base (se_client s) = []"

lemma sent_destroys: "sent_for k rq \<Longrightarrow> destroys rq = destructive k"
  by (auto simp: sent_for_def destroys_def destructive_def)

lemma sent_filter: "list_all2 sent_for ks rqs \<Longrightarrow> list_all2 sent_for (filter destructive ks) (filter destroys rqs)"
  by (induction rule: list_all2_induct) (auto simp: sent_destroys)

subsection \<open>The base address\<close>

lemma base_getToken [simp]: "ac_base (snd (getToken c)) = ac_base c"
  by (simp add: getToken_def Let_def)

lemma base_login [simp]: "login f u p c = (r, c') \<Longrightarrow> ac_base c' = ac_base c"
  by (auto simp: login_def bind_result_def setToken_def Let_def split: sum.splits option.splits if_splits prod.splits)

lemma base_step: "app_step s t \<Longrightarrow> based s \<Longrightarrow> based t"
proof (induction rule: app_step.induct)
  case (Settled q s resp)
  have "ac_base (se_client (login_settled q resp t)) = ac_base (se_client t)" for t
    by (cases q)
      (auto simp: se_page_def signed_in_def handleLogin_def se_post_def Let_def dest: base_login
        split: sum.split prod.split)
  then show ?case using Settled by (simp add: based_def)
qed (auto simp: based_def se_page_def Session.handleSubmit_def handleInstantDemo_def handleOnboardingComplete_def
    handleLogout_def logout_def setToken_def open_app_def load_effect_def fresh_client_def case_prod_beta Let_def)

lemma base_run: "app_run s t \<Longrightarrow> based s \<Longrightarrow> based t"
  by (induction rule: app_run.induct) (auto intro: base_step)

lemma based_open [simp]: "based (open_app storage path now)"
  by (simp add: based_def open_app_def load_effect_def fresh_client_def case_prod_beta Let_def)

lemma base_console: "based (cn_session (console_run w storage path now evs))"
  by (rule base_run [OF run_console based_open])

section \<open>What a part of a step sends\<close>

text \<open>From one state to the other the requests sent grow by those of some calls, \<open>ds\<close> the destructive ones.\<close>

definition dispatches :: "api_call list \<Rightarrow> console \<Rightarrow> console \<Rightarrow> bool" where
  "dispatches ds c d \<longleftrightarrow> (based (cn_session c) \<longrightarrow>
     based (cn_session d) \<and>
     (\<exists>ks rqs. filter destructive ks = ds \<and> list_all2 sent_for ks rqs \<and> cn_sent d = cn_sent c @ rqs))"

lemma dispatches_none:
  "cn_sent d = cn_sent c \<Longrightarrow> (based (cn_session c) \<Longrightarrow> based (cn_session d)) \<Longrightarrow> dispatches [] c d"
  by (auto simp: dispatches_def intro!: exI [of _ "[]"])

lemma dispatches_refl [simp, intro]: "dispatches [] c c"
  by (simp add: dispatches_none)

lemma dispatches_trans: "dispatches ds c d \<Longrightarrow> dispatches es d e \<Longrightarrow> dispatches (ds @ es) c e"
  unfolding dispatches_def by (metis append.assoc filter_append list_all2_appendI)

lemmas dispatches_then_none = dispatches_trans [where es = "[]", simplified]
lemmas dispatches_none_then = dispatches_trans [where ds = "[]", simplified]

lemma dispatches_call: "dispatches (filter destructive [k]) c (send_call c k)"
  by (cases k)
    (auto simp: dispatches_def based_def send_call_def prepare_def headers_def sent_for_def case_prod_beta Let_def
      intro!: exI [of _ "[k]"])

lemma dispatches_all: "dispatches (filter destructive ks) c (send_all ks c)"
proof (induction ks arbitrary: c)
  case (Cons k ks)
  have "filter destructive (k # ks) = filter destructive [k] @ filter destructive ks" by simp
  then show ?case using dispatches_trans [OF dispatches_call Cons.IH] by (simp only: send_all_simps)
qed simp

lemma based_taken [simp]: "based (taken p q s) = based s"
  by (simp add: based_def taken_def)

lemma dispatches_page:
  "dispatches (filter destructive (page_requests (br_json_error w) (put_toaster (se_toaster (cn_session c)) (cn_page c)) e))
    c (page_acts w e c)"
  unfolding page_acts_def Let_def
  by (rule dispatches_none_then [OF dispatches_none dispatches_all]) simp_all

lemma dispatches_left:
  "dispatches (filter destructive (page_requests (br_json_error w) (put_toaster (se_toaster (cn_session c)) (cn_left c ! i)) e))
    c (left_acts w i e c)"
  unfolding left_acts_def Let_def
  by (rule dispatches_none_then [OF dispatches_none dispatches_all]) simp_all

lemma dispatches_fail: "dispatches [] c (fail_page e c)"
  by (simp add: dispatches_none fail_page_def)

lemma dispatches_catch: "dispatches [] c (catch_error c)"
  by (simp add: catch_error_def dispatches_fail split: option.split)

section \<open>What a page sends\<close>

text \<open>The calls that an event of the dashboard adds to those in flight.\<close>

fun dash_news :: "dashboard \<Rightarrow> dash_event \<Rightarrow> dash_call list" where
  "dash_news d Mount = [Call_list]"
| "dash_news d Poll_tick = [Call_list]"
| "dash_news d (Deleted ids (Inr u)) = [Call_list]"
| "dash_news d (Demo_reset (Inr u) now) = [Call_submit (js_floor (js_div now (Fin 1000)))]"
| "dash_news d Confirm_delete = [Call_delete (db_selected d)]"
| "dash_news d Run_demo = [Call_reset]"
| "dash_news d e = []"

lemma dash_issued:
  "issued (settles_dash e) (db_calls d) (db_calls (dash_step d e)) = (if enabled d e then dash_news d e else [])"
proof (cases "enabled d e")
  case True
  then show ?thesis
    by (cases "(d, e)" rule: dash_news.cases)
      (simp_all add: issued_def dash_steps bulk_delete_done_def length_remove1 prune_selected_def split: sum.split)
next
  case False
  then have "dash_step d e = d" by (simp add: dash_step_def)
  then show ?thesis using False by (cases e) (simp_all add: issued_def)
qed

text \<open>What the migration page's handlers and effects add; no effect aborts.\<close>

definition abort_calls :: "detail \<Rightarrow> detail_event \<Rightarrow> detail_call list" where
  "abort_calls d e =
     (if e = D_confirm_abort then
        (case dt_record d of None \<Rightarrow> [] | Some r \<Rightarrow> [Abort_call (dt_id d) (mr_migration_id r)])
      else [])"

fun is_abort :: "detail_call \<Rightarrow> bool" where
  "is_abort (Abort_call i m) = True"
| "is_abort q = False"

lemma effects_calls: "\<exists>xs. dt_calls (run_effects i t s) = dt_calls s @ xs \<and> filter is_abort xs = []"
  by (simp add: run_effects_def safety_render_def dt_render_poll_def fetchSafetyData_def fetchRecord_def
      schema_effect_def dt_fetchSchema_def dt_call_def Let_def split: option.split)

lemma effect_commit_calls: "\<exists>xs. dt_calls (dt_commit i t s) = dt_calls s @ xs \<and> filter is_abort xs = []"
  using effects_calls by (simp add: dt_commit_def leave_page_def split: sum.split)

lemma handle_calls:
  "\<exists>xs. dt_calls (dt_handle s e) = fold remove1 (settles_detail e) (dt_calls s) @ xs \<and>
    filter is_abort xs = abort_calls s e"
  by (cases e)
    (simp_all add: abort_calls_def record_fetched_def schema_fetched_def safety_fetched_def abort_done_def abort_start_def
      dt_settle_def dt_post_def dt_call_def fetchRecord_def fetchSafetyData_def leave_page_def Let_def
      split: sum.split option.split)

lemma detail_calls:
  assumes "dt_enabled d e"
  shows "\<exists>xs. dt_calls (detail_step d e) = fold remove1 (settles_detail e) (dt_calls d) @ xs \<and>
    filter is_abort xs = abort_calls d e"
proof -
  obtain xs where xs: "dt_calls (dt_handle d e) = fold remove1 (settles_detail e) (dt_calls d) @ xs"
      "filter is_abort xs = abort_calls d e"
    using handle_calls by blast
  have "detail_step d e = dt_handle d e \<or> (\<exists>i t. detail_step d e = dt_commit i t (dt_handle d e))"
    using assms by (cases e) (simp_all add: detail_step_def Let_def del: dt_handle.simps dt_enabled.simps, blast+)
  then show ?thesis
  proof (elim disjE exE)
    fix i t
    assume step: "detail_step d e = dt_commit i t (dt_handle d e)"
    obtain ys where "dt_calls (detail_step d e) = dt_calls (dt_handle d e) @ ys" "filter is_abort ys = []"
      using effect_commit_calls [of i t "dt_handle d e"] unfolding step by blast
    then show ?thesis using xs by (intro exI [of _ "xs @ ys"]) simp
  qed (use xs in simp)
qed

lemma detail_issued:
  "filter is_abort (issued (settles_detail e) (dt_calls d) (dt_calls (detail_step d e))) =
     (if dt_enabled d e then abort_calls d e else [])"
proof (cases "dt_enabled d e")
  case True
  obtain xs where xs: "dt_calls (detail_step d e) = fold remove1 (settles_detail e) (dt_calls d) @ xs"
      "filter is_abort xs = abort_calls d e"
    using detail_calls [OF True] by blast
  have "set (settles_detail e) \<subseteq> set (dt_calls d)" using True by (cases e) simp_all
  moreover have "length (fold remove1 (settles_detail e) (dt_calls d)) = length (dt_calls d) - length (settles_detail e)"
    using True by (cases e) (simp_all add: length_remove1)
  ultimately show ?thesis using True xs by (simp add: issued_def)
next
  case False
  then have "issued (settles_detail e) (dt_calls d) (dt_calls d) = []" by (cases e) (simp_all add: issued_def)
  moreover have "detail_step d e = d" using False by (simp add: detail_step_def)
  ultimately show ?thesis by (simp only: False if_False filter.simps)
qed

subsection \<open>Only the confirmed ones destroy\<close>

text \<open>The call that an event destroys with, if it is the confirmation of an open dialog.\<close>

fun confirmed_calls :: "mounted \<Rightarrow> page_event \<Rightarrow> api_call list" where
  "confirmed_calls (At_dash d sp) (On_dash e) =
     (if e = Confirm_delete \<and> dash_mounted d \<and> db_showDeleteConfirm d then
        [(DELETE, ''/migrations'', JSON_TYPE, IdsBody (db_selected d))]
      else [])"
| "confirmed_calls (At_detail d ms) (On_detail e) =
     (if e = D_confirm_abort \<and> dt_mounted d \<and> dt_showAbortConfirm d \<and> dt_id d \<noteq> [] then
        (case dt_record d of
           None \<Rightarrow> []
         | Some r \<Rightarrow> [(POST, ''/migrations/'' @ mr_migration_id r @ ''/abort'', [], NoBody)])
      else [])"
| "confirmed_calls m e = []"

lemma detail_requests_destroy:
  "filter destructive (concat (map detail_requests qs)) = concat (map detail_requests (filter is_abort qs))"
proof (induction qs)
  case (Cons q qs)
  then show ?case by (cases q) (simp_all add: destructive_def)
qed simp

lemma harmless_requests [simp]:
  "filter destructive (plan_requests q) = []" "filter destructive (drift_requests v) = []"
  by (cases q) (simp_all add: destructive_def drift_requests_def)

lemma filter_concat_Nil: "(\<And>q. filter P (f q) = []) \<Longrightarrow> filter P (concat (map f qs)) = []"
  by (induction qs) simp_all

lemma page_requests_destroy: "filter destructive (page_requests msg m e) = confirmed_calls m e"
proof (cases "(msg, m, e)" rule: page_requests.cases)
  case (1 g d sp f)
  then have "page_requests msg m e = concat (map dash_requests (if enabled d f then dash_news d f else []))"
    by (simp add: dash_issued)
  moreover have "filter destructive (concat (map dash_requests (dash_news d f))) =
      (if f = Confirm_delete then dash_requests (Call_delete (db_selected d)) else [])"
    by (cases "(d, f)" rule: dash_news.cases) (simp_all add: destructive_def)
  ultimately show ?thesis using 1 by (auto simp: destructive_def)
next
  case (2 g d ms f)
  then have "filter destructive (page_requests msg m e) =
      concat (map detail_requests (if dt_enabled d f then abort_calls d f else []))"
    by (simp add: detail_requests_destroy detail_issued)
  then show ?thesis using 2 by (cases "f = D_confirm_abort"; cases "dt_record d") (simp_all add: abort_calls_def)
qed (simp_all add: filter_concat_Nil)

lemma mount_requests_destroy: "filter destructive (mount_requests (mount_page r i t)) = []"
proof (cases r)
  case Page_Dashboard
  then show ?thesis
    by (simp add: dash_step_def fresh_dashboard_def dash_mounted_def unmounted_def render_poll_def
        fetchMigrations_def call_def destructive_def)
next
  case Page_MigrationDetail
  have "detail_step (fresh_detail i no_timers t) D_mount = dt_commit None None (fresh_detail i no_timers t)"
    by (simp add: detail_step_def Let_def) (simp add: dt_mounted_def fresh_detail_def unmounted_def)
  moreover obtain xs where "dt_calls (dt_commit None None (fresh_detail i no_timers t)) = xs" "filter is_abort xs = []"
    using effect_commit_calls [of None None "fresh_detail i no_timers t"] by (auto simp: fresh_detail_def)
  ultimately show ?thesis
    using Page_MigrationDetail by (simp add: detail_moves_def Let_def detail_requests_destroy)
qed simp_all

lemma change_confirms_nothing: "confirmed_calls m (On_detail (D_change_id i)) = []"
  by (cases m) (simp_all add: abort_calls_def)

lemma dispatches_route: "dispatches [] c (route_page w c)"
proof -
  have "dispatches [] c (page_acts w (On_detail (D_change_id i)) c)" for i
    using dispatches_page [of w c "On_detail (D_change_id i)"] change_confirms_nothing
    by (simp only: page_requests_destroy)
  then have "dispatches [] c (catch_error (page_acts w (On_detail (D_change_id i)) c))" for i
    using dispatches_then_none [OF _ dispatches_catch] by blast
  moreover have "dispatches [] c (mount w r c)" for r
  proof -
    have "dispatches (filter destructive (mount_requests q)) c (send_all (mount_requests q) (replace_page q c))" for q
      by (rule dispatches_none_then [OF dispatches_none dispatches_all]) simp_all
    from this [of "mount_page r (br_id w (se_path (cn_session c))) (se_toaster (cn_session c))"]
    show ?thesis by (simp only: mount_def Let_def mount_requests_destroy)
  qed
  ultimately show ?thesis by (simp add: route_page_def Let_def)
qed

lemma dispatches_render: "dispatches [] c (render w c)"
  by (simp add: render_def dispatches_fail dispatches_route dispatches_none split: sum.split app_view.split)

subsection \<open>Steps\<close>

fun confirmed :: "console \<Rightarrow> console_event \<Rightarrow> api_call list" where
  "confirmed c (Page_does e) = confirmed_calls (cn_page c) e"
| "confirmed c ev = []"

lemma confirmed_put [simp]: "confirmed_calls (put_toaster t m) e = confirmed_calls m e"
  by (cases "(m, e)" rule: confirmed_calls.cases) (simp_all add: dash_mounted_def)

lemma gone_confirms_nothing: "gone m \<Longrightarrow> confirmed_calls m e = []"
  by (cases "(m, e)" rule: confirmed_calls.cases) simp_all

lemma unconfirmed: "\<not> own_event e \<Longrightarrow> confirmed_calls m e = []"
  by (cases "(m, e)" rule: confirmed_calls.cases) (auto split: if_splits)

lemma dispatches_open:
  "dispatches [] c (open_console w (ac_storage (se_client (cn_session c))) (se_path (cn_session c)) now (cn_sent c))"
  unfolding open_console_def
  by (rule dispatches_none_then [OF dispatches_none dispatches_render]) simp_all

lemma dispatches_session:
  "(based (cn_session c) \<Longrightarrow> based (f (cn_session c))) \<Longrightarrow> dispatches [] c (with_session f c)"
  by (simp add: dispatches_none with_session_def)

lemma dispatches_path: "dispatches [] c (render w (with_session (\<lambda>s. s\<lparr> se_path := path \<rparr>) c))"
  by (rule dispatches_none_then [OF dispatches_session dispatches_render]) (auto intro: base_step Go)

lemma dispatches_app:
  assumes "app_enabled (cn_session c) e"
  shows "dispatches [] c (render_app w e c)"
proof (rule render_appI)
  have "dispatches [] c (with_session (\<lambda>s. (app_handle s e)\<lparr> se_path := se_path s \<rparr>) c)"
    using assms by (intro dispatches_session) (auto intro: base_step run_app Go)
  then show "dispatches [] c (render w (with_session (\<lambda>s. (app_handle s e)\<lparr> se_path := se_path s \<rparr>) c))"
    by (rule dispatches_then_none [OF _ dispatches_render])
qed (rule dispatches_then_none [OF _ dispatches_path])

lemma dispatches_step:
  assumes "console_ok c"
  shows "dispatches (confirmed c ev) c (console_step w c ev)"
proof (cases "console_enabled c ev")
  case True
  note render = dispatches_then_none [OF _ dispatches_render]
  show ?thesis
  proof (cases ev)
    case (App_does e)
    then show ?thesis using True dispatches_app by (simp add: console_step_def)
  next
    case (Page_does e)
    have "dispatches (confirmed_calls (cn_page c) e) c (catch_error (page_acts w e c))"
      using dispatches_then_none [OF dispatches_page dispatches_catch] by (simp only: page_requests_destroy confirmed_put)
    then show ?thesis using True render by (simp add: Page_does console_step_def)
  next
    case (Left_does i e)
    then have "gone (cn_left c ! i)" using True assms by (simp add: console_ok_def left_ok_def)
    then have "dispatches [] c (left_acts w i e c)"
      using dispatches_left [of w c i e] by (simp only: page_requests_destroy confirmed_put gone_confirms_nothing)
    then show ?thesis using True render by (simp add: Left_does console_step_def)
  next
    case (Go_to path)
    have "dispatches [] c (with_session (\<lambda>s. s\<lparr> se_path := path \<rparr>) c)"
      by (rule dispatches_session) (simp add: based_def)
    then show ?thesis using True render by (simp add: Go_to console_step_def)
  next
    case (Toasts_do e)
    then show ?thesis using True by (auto simp: console_step_def based_def intro: dispatches_session)
  next
    case Try_again
    have "dispatches [] c (c\<lparr> cn_boundary := tryAgain (cn_boundary c) \<rparr>)" by (simp add: dispatches_none)
    then show ?thesis using True render by (simp add: Try_again console_step_def)
  next
    case (Reload_page now)
    then show ?thesis using True dispatches_open by (simp add: console_step_def)
  qed
next
  case False
  then have "confirmed c ev = []" by (cases ev) (simp_all add: unconfirmed)
  then show ?thesis using False by (simp add: console_step_def)
qed

lemma step_destroys:
  "\<exists>rqs. cn_sent (console_step w (console_run w storage path now evs) ev) =
      cn_sent (console_run w storage path now evs) @ rqs \<and>
    list_all2 sent_for (confirmed (console_run w storage path now evs) ev) (filter destroys rqs)"
proof -
  let ?c = "console_run w storage path now evs"
  obtain ks rqs where "filter destructive ks = confirmed ?c ev" "list_all2 sent_for ks rqs"
      "cn_sent (console_step w ?c ev) = cn_sent ?c @ rqs"
    using dispatches_step [OF console_ok_run, of w storage path now evs ev w] base_console
    unfolding dispatches_def by blast
  then show ?thesis using sent_filter by (metis (no_types, lifting))
qed

text \<open>
  C4: nothing is destroyed without its confirmation. On every run, the destructive requests that a step
  adds are exactly those of a confirmation that the user gives there and then: the one DELETE for the
  selected ids when the open dialog of the dashboard shown is confirmed, the one abort of the record shown
  when that of the migration page is; and none at any other event, of a page that was left, while a page
  is being opened, while signing in or out. (Resetting the demo is not among them: it asks nothing.)
\<close>

theorem destructive_requests_confirmed:
  "let c = console_run w storage path now evs; c' = console_step w c ev
   in \<exists>rqs. cn_sent c' = cn_sent c @ rqs \<and> list_all2 sent_for (confirmed c ev) (filter destroys rqs)"
  using step_destroys by (simp add: Let_def)

lemma mounted_fields:
  "dash_mounted (d\<lparr> db_loading := b \<rparr>) = dash_mounted d" "dash_mounted (d\<lparr> db_toaster := t \<rparr>) = dash_mounted d"
  "dash_mounted (d\<lparr> db_calls := qs \<rparr>) = dash_mounted d" "dash_mounted (d\<lparr> db_selected := is \<rparr>) = dash_mounted d"
  "dash_mounted (d\<lparr> db_showDeleteConfirm := b \<rparr>) = dash_mounted d"
  by (simp_all add: dash_mounted_def)

text \<open>
  The delete dialog outlives its selection: when a list without the selected migrations arrives, it asks to
  delete none, and confirming sends a request with no ids (which the engine refuses).
\<close>

lemma dialog_outlives_selection:
  assumes "dash_mounted d" and "Call_list \<in> set (db_calls d)" and "db_showDeleteConfirm d"
    and "set (db_selected d) \<inter> mr_migration_id ` set l = {}"
    and "d' = dash_step d (Listed (Inr (Some l)))"
  shows "dd_open (delete_dialog_view d') \<and> dd_title (delete_dialog_view d') = ''Delete 0 migrations?'' \<and>
    db_calls (dash_step d' Confirm_delete) = db_calls d' @ [Call_delete []]"
proof -
  let ?s = "render_poll ((settle Call_list d)\<lparr> db_migrations := Some l \<rparr>)"
  have on: "dash_mounted (settle Call_list d)" using assms(1) by (simp add: settle_def dash_mounted_def)
  have "set (db_filtered ?s) \<subseteq> set l" using set_db_filtered [of ?s] by simp
  moreover have "set (db_selected ?s) = set (db_selected d)" by (simp add: settle_def)
  ultimately have "db_selected (prune_selected ?s) = []"
    using assms(4) by (auto simp: prune_selected_def filter_empty_conv)
  moreover have d': "d' = (prune_selected ?s)\<lparr> db_loading := False \<rparr>"
    using assms(2) on by (simp add: assms(5) dash_step_def fetched_def set_migrations_def Let_def)
  moreover have "db_showDeleteConfirm (prune_selected ?s)" using assms(3) by (simp add: settle_def)
  moreover have "dash_mounted ((prune_selected ?s)\<lparr> db_loading := False \<rparr>)" by (simp add: mounted_fields)
  moreover have "show_nat 0 = ''0''" by code_simp
  ultimately show ?thesis
    by (simp add: delete_dialog_view_def plural_def dash_step_def bulk_delete_start_def call_def)
qed

section \<open>What the page had been told of\<close>

text \<open>
  The contract of something that is watched on the page shown: the events of the page tell it \<open>told\<close>, it
  stays true while more becomes known, on each step with what that step tells, and on every page that is
  opened. Then it holds on every run with all that its events told.
\<close>

fun told_by :: "(mounted \<Rightarrow> page_event \<Rightarrow> 'g set) \<Rightarrow> console \<Rightarrow> console_event \<Rightarrow> 'g set" where
  "told_by told c (Page_does e) = told (cn_page c) e"
| "told_by told c ev = {}"

fun heard_from :: "(mounted \<Rightarrow> page_event \<Rightarrow> 'g set) \<Rightarrow> browser \<Rightarrow> console \<Rightarrow> console_event list \<Rightarrow> 'g set" where
  "heard_from told w c [] = {}"
| "heard_from told w c (ev # evs) = told_by told c ev \<union> heard_from told w (console_step w c ev) evs"

text \<open>All that the pages shown were told in the course of a run.\<close>

definition heard ::
  "(mounted \<Rightarrow> page_event \<Rightarrow> 'g set) \<Rightarrow> browser \<Rightarrow> (string \<Rightarrow> string option) \<Rightarrow> string \<Rightarrow> nat \<Rightarrow> console_event list \<Rightarrow> 'g set" where
  "heard told w storage path now evs = heard_from told w (open_console w storage path now []) evs"

lemma heard_from_snoc:
  "heard_from told w c (evs @ [ev]) = heard_from told w c evs \<union> told_by told (foldl (console_step w) c evs) ev"
  by (induction evs arbitrary: c) auto

lemma heard_simps [simp]:
  "heard told w storage path now [] = {}"
  "heard told w storage path now (evs @ [ev]) =
     heard told w storage path now evs \<union> told_by told (console_run w storage path now evs) ev"
  by (simp_all add: heard_def heard_from_snoc console_run_def)

locale page_watch =
  fixes watched :: "'g set \<Rightarrow> mounted \<Rightarrow> bool" and told :: "mounted \<Rightarrow> page_event \<Rightarrow> 'g set"
  assumes watch_mono: "watched G m \<Longrightarrow> G \<subseteq> H \<Longrightarrow> watched H m"
    and watch_step: "watched G m \<Longrightarrow> watched (G \<union> told m e) (page_step msg m e)"
    and watch_mount: "watched G (mount_page r i t)"
    and watch_simple: "watched G At_login" "watched G At_failed"
    and watch_toaster: "watched G (put_toaster t m) = watched G m"
    and told_toaster: "told (put_toaster t m) e = told m e"
    and told_change: "told m (On_detail (D_change_id i)) = {}"
begin

lemma watch_acts: "watched G (cn_page c) \<Longrightarrow> watched (G \<union> told (cn_page c) e) (cn_page (page_acts w e c))"
  using watch_step [of G "put_toaster (se_toaster (cn_session c)) (cn_page c)" e "br_json_error w"]
  by (simp add: page_acts_def Let_def watch_toaster told_toaster)

lemma watch_catch: "watched G (cn_page c) \<Longrightarrow> watched G (cn_page (catch_error c))"
  by (simp add: catch_error_def fail_page_def watch_simple split: option.split)

lemma watch_route: "watched G (cn_page c) \<Longrightarrow> watched G (cn_page (route_page w c))"
proof -
  assume ok: "watched G (cn_page c)"
  have "watched G (cn_page (page_acts w (On_detail (D_change_id i)) c))" for i
    using watch_acts [OF ok, of "On_detail (D_change_id i)" w] by (simp add: told_change)
  then show ?thesis by (simp add: route_page_def mount_def Let_def ok watch_catch watch_mount)
qed

lemma watch_render: "watched G (cn_page c) \<Longrightarrow> watched G (cn_page (render w c))"
  by (simp add: render_def fail_page_def watch_simple watch_route split: sum.split app_view.split)

lemma watch_open: "watched G (cn_page (open_console w storage path now sent))"
  by (simp add: open_console_def watch_render watch_simple)

lemma watch_app: "watched G (cn_page c) \<Longrightarrow> watched G (cn_page (render_app w e c))"
  by (rule render_appI) (simp_all add: watch_render with_session_def)

lemma watch_console: "watched G (cn_page c) \<Longrightarrow> watched (G \<union> told_by told c ev) (cn_page (console_step w c ev))"
proof (cases ev)
  case (Page_does e)
  assume ok: "watched G (cn_page c)"
  have "watched (G \<union> told (cn_page c) e) (cn_page c)" using ok by (rule watch_mono) simp
  then show ?thesis using ok Page_does by (simp add: console_step_def watch_render watch_catch watch_acts)
qed (simp_all add: console_step_def with_session_def left_acts_def watch_render watch_app watch_open Let_def)

lemma watch_run: "watched (heard told w storage path now evs) (cn_page (console_run w storage path now evs))"
proof (induction evs rule: rev_induct)
  case Nil
  show ?case by (simp add: console_run_def watch_open)
next
  case (snoc ev evs)
  from watch_console [OF this, of ev w] show ?case by (simp add: console_run_def)
qed

end

text \<open>On the dashboard: the ids that the answers it waited for listed as those of ended migrations.\<close>

fun list_awaited :: "mounted \<Rightarrow> bool" where
  "list_awaited (At_dash d sp) \<longleftrightarrow> Call_list \<in> set (db_calls d)"
| "list_awaited m \<longleftrightarrow> False"

fun ended_told :: "mounted \<Rightarrow> page_event \<Rightarrow> string set" where
  "ended_told m (On_dash (Listed (Inr l))) = (if list_awaited m then terminal_ids (or_empty l) else {})"
| "ended_told m e = {}"

fun dash_watched :: "string set \<Rightarrow> mounted \<Rightarrow> bool" where
  "dash_watched T (At_dash d sp) \<longleftrightarrow> set (db_selected d) \<subseteq> T \<and> terminal_ids (or_empty (db_migrations d)) \<subseteq> T"
| "dash_watched T m \<longleftrightarrow> True"

lemma page_terminal_ids: "mr_migration_id ` set (terminalPaged s) \<subseteq> terminal_ids (or_empty (db_migrations s))"
  using set_terminalPaged [of s] by (auto simp: terminal_ids_def)

lemma selected_grows:
  "set (db_selected (dash_step s ev)) \<subseteq> set (db_selected s) \<union> terminal_ids (or_empty (db_migrations s))"
proof -
  consider (one) i where "ev = Toggle i" "enabled s ev" | (all) "ev = Toggle_all" | (other) "\<not> (enabled s ev \<and> (ev = Toggle_all \<or> (\<exists>i. ev = Toggle i)))"
    by blast
  then show ?thesis
  proof cases
    case one
    have "i \<in> terminal_ids (or_empty (db_migrations s))"
      using one set_db_paged [of s] set_db_filtered [of s] by (auto simp: list_ex_iff terminal_ids_def)
    then show ?thesis by (auto simp: one(1) dash_step_def toggleSelect_def)
  next
    case all
    then show ?thesis using page_terminal_ids [of s] by (auto simp: dash_step_def toggle_all_selected)
  next
    case other
    then show ?thesis
      by (cases ev) (auto simp: dash_steps prune_selected_def split: sum.split if_splits
        dest: subsetD [OF selected_set_migrations])
  qed
qed

lemma migrations_told:
  "terminal_ids (or_empty (db_migrations (dash_step s ev))) \<subseteq>
     terminal_ids (or_empty (db_migrations s)) \<union> ended_told (At_dash s sp) (On_dash ev)"
  by (cases ev) (auto simp: dash_steps split: sum.split if_splits)

lemma dash_watch_step: "dash_watched T m \<Longrightarrow> dash_watched (T \<union> ended_told m e) (page_step msg m e)"
proof (cases "(msg, m, e)" rule: page_step.cases)
  case (1 g d sp f)
  assume "dash_watched T m"
  then show ?thesis using 1 selected_grows [of d f] migrations_told [of d f sp] by auto
qed (auto simp: detail_moves_def Let_def)

interpretation ended: page_watch dash_watched ended_told
proof
  show "dash_watched T m \<Longrightarrow> T \<subseteq> U \<Longrightarrow> dash_watched U m" for T U m by (cases m) auto
  show "dash_watched T (mount_page r i t)" for T r i t
    by (cases r) (simp_all add: detail_moves_def Let_def dash_step_def fresh_dashboard_def render_poll_def
      fetchMigrations_def call_def terminal_ids_def)
  show "dash_watched T (put_toaster t m) = dash_watched T m" for T t m by (cases m) simp_all
  have "list_awaited (put_toaster t m) = list_awaited m" for t m by (cases m) simp_all
  then show "ended_told (put_toaster t m) e = ended_told m e" for t m e
    by (cases "(m, e)" rule: ended_told.cases) simp_all
qed (simp_all add: dash_watch_step)

text \<open>On a migration's page: the ids of the records it was sent on its request.\<close>

fun record_awaited :: "string \<Rightarrow> mounted \<Rightarrow> bool" where
  "record_awaited i (At_detail d ms) \<longleftrightarrow> Get_record i \<in> set (dt_calls d)"
| "record_awaited i m \<longleftrightarrow> False"

fun records_told :: "mounted \<Rightarrow> page_event \<Rightarrow> string set" where
  "records_told m (On_detail (D_record i (Inr r))) = (if record_awaited i m then {mr_migration_id r} else {})"
| "records_told m e = {}"

fun record_watched :: "string set \<Rightarrow> mounted \<Rightarrow> bool" where
  "record_watched R (At_detail d ms) \<longleftrightarrow> (case dt_record d of None \<Rightarrow> True | Some r \<Rightarrow> mr_migration_id r \<in> R)"
| "record_watched R m \<longleftrightarrow> True"

lemma commit_record: "dt_record (dt_commit i t s) = dt_record s"
  by (simp add: dt_commit_def effects_fields leave_page_def split: sum.split)

lemma step_record:
  "dt_record (detail_step d e) = dt_record d \<or>
   (\<exists>i r. e = D_record i (Inr r) \<and> Get_record i \<in> set (dt_calls d) \<and> dt_record (detail_step d e) = Some r)"
proof (cases "dt_enabled d e")
  case True
  have h: "dt_record (dt_handle d e) = dt_record d \<or> (\<exists>i r. e = D_record i (Inr r) \<and> dt_record (dt_handle d e) = Some r)"
    by (cases e)
      (auto simp: record_fetched_def schema_fetched_def safety_fetched_def abort_done_def abort_start_def
        dt_settle_def dt_post_def dt_call_def fetchRecord_def fetchSafetyData_def leave_page_def Let_def
        split: sum.split option.split)
  then have "dt_record (detail_step d e) = dt_record d \<or> (\<exists>i r. e = D_record i (Inr r) \<and> dt_record (detail_step d e) = Some r)"
    by (cases rule: detail_step_cases [of d e]) (simp_all add: commit_record del: dt_handle.simps)
  then show ?thesis using True by auto
qed (simp add: detail_step_def)

lemma record_watch_step: "record_watched R m \<Longrightarrow> record_watched (R \<union> records_told m e) (page_step msg m e)"
proof (cases "(msg, m, e)" rule: page_step.cases)
  case (3 g d ms f)
  assume "record_watched R m"
  then show ?thesis using 3 step_record [of d f] by (auto simp: detail_moves_def Let_def split: option.splits)
qed auto

interpretation records: page_watch record_watched records_told
proof
  show "record_watched T m \<Longrightarrow> T \<subseteq> U \<Longrightarrow> record_watched U m" for T U m by (cases m) (auto split: option.splits)
  show "record_watched T (mount_page r i t)" for T r i t
    using step_record [of "fresh_detail i no_timers t" D_mount]
    by (cases r) (simp_all add: detail_moves_def Let_def fresh_detail_def)
  show "record_watched T (put_toaster t m) = record_watched T m" for T t m by (cases m) simp_all
  have "record_awaited i (put_toaster t m) = record_awaited i m" for i t m by (cases m) simp_all
  then show "records_told (put_toaster t m) e = records_told m e" for t m e
    by (cases "(m, e)" rule: records_told.cases) simp_all
qed (simp_all add: record_watch_step)

lemma abort_confirmed:
  "confirmed_calls (At_detail d ms) (On_detail f) = [] \<or>
   (\<exists>r. dt_record d = Some r \<and> confirmed_calls (At_detail d ms) (On_detail f) =
      [(POST, ''/migrations/'' @ mr_migration_id r @ ''/abort'', [], NoBody)])"
  by (cases "dt_record d") simp_all

lemma confirmed_targets:
  assumes "k \<in> set (confirmed (console_run w storage path now evs) ev)" and "sent_for k rq"
  shows "(\<exists>ids. rq_method rq = DELETE \<and> rq_url rq = ''/migrations'' \<and> rq_body rq = IdsBody ids \<and>
      set ids \<subseteq> heard ended_told w storage path now evs) \<or>
    (\<exists>m \<in> heard records_told w storage path now evs. rq_method rq = POST \<and> rq_url rq = ''/migrations/'' @ m @ ''/abort'')"
proof -
  obtain e where e: "ev = Page_does e" "k \<in> set (confirmed_calls (cn_page (console_run w storage path now evs)) e)"
    using assms(1) by (cases ev) auto
  show ?thesis
  proof (cases "cn_page (console_run w storage path now evs)")
    case (At_dash d sp)
    obtain f where f: "e = On_dash f" using e(2) by (cases e) (simp_all add: At_dash)
    have "k = (DELETE, ''/migrations'', JSON_TYPE, IdsBody (db_selected d))"
      using e(2) by (simp add: At_dash f split: if_splits)
    moreover have "set (db_selected d) \<subseteq> heard ended_told w storage path now evs"
      using ended.watch_run [of w storage path now evs] unfolding At_dash dash_watched.simps by (rule conjunct1)
    ultimately show ?thesis using assms(2) by (simp add: sent_for_def)
  next
    case (At_detail d ms)
    obtain f where f: "e = On_detail f"
    proof (cases e)
      case (On_detail f)
      then show ?thesis by (rule that)
    qed (use e(2) in \<open>simp_all add: At_detail\<close>)
    obtain r where "dt_record d = Some r" "k = (POST, ''/migrations/'' @ mr_migration_id r @ ''/abort'', [], NoBody)"
      using e(2) abort_confirmed [of d ms f] unfolding At_detail f by (auto simp del: confirmed_calls.simps)
    moreover have "mr_migration_id r \<in> heard records_told w storage path now evs"
      using records.watch_run [of w storage path now evs] calculation(1) unfolding At_detail by simp
    ultimately show ?thesis using assms(2) unfolding sent_for_def by blast
  qed (use e(2) in auto)
qed

text \<open>
  C5: what is destroyed had been shown. Every destructive request of a run is a delete of ids that answers had
  listed as those of ended migrations, or the abort of a migration whose record an answer had brought; both
  are answers that came earlier in the run to the page on the screen, which had asked for them. It needs no assumption on the engine, on the order of its answers or on the
  events of the user.
\<close>

theorem destructive_targets_seen:
  assumes "rq \<in> set (cn_sent (console_run w storage path now evs))" and "destroys rq"
  shows "(\<exists>ids. rq_method rq = DELETE \<and> rq_url rq = ''/migrations'' \<and> rq_body rq = IdsBody ids \<and>
      set ids \<subseteq> heard ended_told w storage path now evs) \<or>
    (\<exists>m \<in> heard records_told w storage path now evs. rq_method rq = POST \<and> rq_url rq = ''/migrations/'' @ m @ ''/abort'')"
  using assms(1)
proof (induction evs rule: rev_induct)
  case Nil
  have "dispatches [] \<lparr> cn_session = open_app storage path now, cn_page = At_login, cn_left = [],
      cn_boundary = fresh_boundary, cn_sent = [] \<rparr> (open_console w storage path now [])"
    unfolding open_console_def by (rule dispatches_render)
  then obtain ks where "filter destructive ks = []" "list_all2 sent_for ks (cn_sent (open_console w storage path now []))"
    by (auto simp: dispatches_def)
  then have "filter destroys (cn_sent (open_console w storage path now [])) = []" using sent_filter by fastforce
  then show ?case using Nil assms(2) by (auto simp: console_run_def filter_empty_conv)
next
  case (snoc ev evs)
  obtain rqs where new: "cn_sent (console_run w storage path now (evs @ [ev])) = cn_sent (console_run w storage path now evs) @ rqs"
      "list_all2 sent_for (confirmed (console_run w storage path now evs) ev) (filter destroys rqs)"
    using step_destroys [of w storage path now evs ev] by (auto simp: console_run_def)
  show ?case
  proof (cases "rq \<in> set (cn_sent (console_run w storage path now evs))")
    case True
    from snoc.IH [OF this] show ?thesis by auto
  next
    case False
    then have "rq \<in> set (filter destroys rqs)" using snoc.prems new(1) assms(2) by simp
    then obtain k where "k \<in> set (confirmed (console_run w storage path now evs) ev)" "sent_for k rq"
      using new(2) by (metis in_set_conv_nth list_all2_conv_all_nth)
    from confirmed_targets [OF this] show ?thesis by auto
  qed
qed

text \<open>An ended migration is listed, selected and, after the question, deleted.\<close>

definition deleting :: "console_event list" where
  "deleting = map (\<lambda>e. Page_does (On_dash e))
     [Listed (Inr (Some [bare_record ''m1'' ''p1'' Done True])), Toggle ''m1'', Ask_delete, Confirm_delete]"

lemma dash_opened_empty:
  "dash_at (opened []) (\<lambda>d. dash_mounted d \<and> db_calls d = [Call_list] \<and> db_search d = [] \<and> db_page d = 0 \<and>
     db_selected d = [] \<and> \<not> db_deleting d)"
proof -
  have "dash_mounted (dash_step (fresh_dashboard no_timers t) Mount)" for t
    using mount_present [of Page_Dashboard "[]" t] by simp
  then show ?thesis
    by (simp add: sample_defs opened_def console_run_def open_console_def fresh_boundary_def truthy_str_def role_t Let_def)
      (simp add: open_app_def load_effect_def dash_step_def fresh_dashboard_def render_poll_def fetchMigrations_def
        call_def dash_mounted_def unmounted_def case_prod_beta Let_def)
qed

lemma render_poll_more [simp]: "db_page (render_poll d) = db_page d" "db_navs (render_poll d) = db_navs d"
  by (simp_all add: render_poll_def)

lemma deleting_at: "dash_at (opened (butlast deleting)) (\<lambda>d. dash_mounted d \<and> db_showDeleteConfirm d)"
proof -
  let ?r = "bare_record ''m1'' ''p1'' Done True"
  let ?P = "\<lambda>is d. dash_mounted d \<and> \<not> db_loading d \<and> db_migrations d = Some [?r] \<and> db_search d = [] \<and>
    db_page d = 0 \<and> db_selected d = is \<and> \<not> db_deleting d"
  have r: "mr_terminal ?r" "mr_migration_id ?r = ''m1''" by (simp_all add: bare_record_def)
  have "dash_at (opened [Page_does (On_dash (Listed (Inr (Some [?r]))))]) (?P [])"
    using dash_at_step [OF dash_opened_empty, of "Listed (Inr (Some [?r]))" "?P []"] opened_snoc [of "[]"]
    by (simp add: dash_step_def fetched_def settle_def set_migrations_def prune_selected_def mounted_fields Let_def)
  then have "dash_at (opened (map (\<lambda>e. Page_does (On_dash e)) [Listed (Inr (Some [?r])), Toggle ''m1''])) (?P [''m1''])"
    using dash_at_step [of _ "?P []" "Toggle ''m1''" "?P [''m1'']"]
      opened_snoc [of "[Page_does (On_dash (Listed (Inr (Some [?r]))))]"] r
    by (simp add: dash_step_def toggleSelect_def table_on_def db_paged_def db_filtered_def filtered_def paged_def
        slice_def PAGE_SIZE_def mounted_fields os_add_def)
  then have "dash_at (opened (map (\<lambda>e. Page_does (On_dash e)) [Listed (Inr (Some [?r])), Toggle ''m1'', Ask_delete]))
      (\<lambda>d. dash_mounted d \<and> db_showDeleteConfirm d)"
    using dash_at_step [of _ "?P [''m1'']" Ask_delete "\<lambda>d. dash_mounted d \<and> db_showDeleteConfirm d"]
      opened_snoc [of "map (\<lambda>e. Page_does (On_dash e)) [Listed (Inr (Some [?r])), Toggle ''m1'']"]
    by (simp add: dash_step_def table_on_def bulk_bar_view_def mounted_fields)
  then show ?thesis by (simp add: deleting_def)
qed

theorem destructive_targets_seen_witness:
  "\<exists>rq \<in> set (cn_sent (opened deleting)). rq_method rq = DELETE \<and> (\<exists>ids. rq_body rq = IdsBody ids \<and> set ids \<subseteq> {''m1''})"
proof -
  let ?c = "opened (butlast deleting)" and ?ev = "Page_does (On_dash Confirm_delete)"
  have all: "butlast deleting @ [?ev] = deleting" by (simp add: deleting_def)
  obtain d sp where "cn_page ?c = At_dash d sp" "dash_mounted d" "db_showDeleteConfirm d"
    using deleting_at by (auto simp: dash_at_def split: mounted.splits)
  then have "confirmed ?c ?ev = [(DELETE, ''/migrations'', JSON_TYPE, IdsBody (db_selected d))]" by simp
  then obtain rqs rq where "cn_sent (opened deleting) = cn_sent ?c @ rqs" "filter destroys rqs = [rq]" "rq_method rq = DELETE"
    using step_destroys [of sample_browser "[TOKEN_KEY \<mapsto> ''t'']" "''/''" 0 "butlast deleting" ?ev]
      opened_snoc [of "butlast deleting" ?ev]
    by (auto simp: all list_all2_Cons1 sent_for_def simp flip: opened_def)
  moreover have "rq \<in> set rqs \<and> destroys rq"
    using calculation(2) by (auto simp: filter_eq_Cons_iff)
  ultimately have rq: "rq \<in> set (cn_sent (opened deleting))" "destroys rq" "rq_method rq = DELETE" by auto
  have "heard_from ended_told b c deleting \<subseteq> {''m1''}" for b c
    by (simp add: deleting_def terminal_ids_def bare_record_def)
  then have told: "heard ended_told b st p n deleting \<subseteq> {''m1''}" for b st p n by (simp add: heard_def)
  from destructive_targets_seen [OF rq(1) [unfolded opened_def] rq(2)] rq show ?thesis
    using told by fastforce
qed

end
