(* ===== verification/AbortDialog.thy ===== *)
theory AbortDialog
  imports Destruction
begin

text \<open>
  The abort dialog of the migration page inside the console: it is opened for one migration and confirmed
  later. What happens when the address changes, or the migration ends, in between.
\<close>

section \<open>The dialog\<close>

text \<open>The dialog as the page renders it; only whether it is open depends on the page.\<close>

datatype abort_callback = Handle_abort | Close_dialog

definition abort_dialog :: "detail \<Rightarrow> abort_callback dialog_props" where
  "abort_dialog d =
     \<lparr> dp_open = dt_showAbortConfirm d,
       dp_title = ''Abort & Rollback Migration'',
       dp_message = ''This will immediately stop the migration and roll back all changes made during the expand phase. The contract DDL will be undone and all new columns will be dropped.'',
       dp_confirmLabel = Some ''Abort & Rollback'', dp_cancelLabel = None, dp_danger = Some True,
       dp_onConfirm = Handle_abort, dp_onCancel = Close_dialog \<rparr>"

lemma dialog_on: "ConfirmDialog (abort_dialog d) \<noteq> None \<longleftrightarrow> dt_showAbortConfirm d"
  by (simp add: ConfirmDialog_def abort_dialog_def Let_def)

section \<open>What is shown has rendered\<close>

text \<open>No page that threw stays on the screen, and the role in the navigation could be shown.\<close>

definition shown_ok :: "browser \<Rightarrow> console \<Rightarrow> bool" where
  "shown_ok w c \<longleftrightarrow> page_failure (cn_page c) = None \<and>
     (is_failed (cn_page c) \<or> \<not> se_auth (cn_session c) \<or> (\<exists>t. role_shown (br_child_error w) (cn_session c) = Inr t))"

lemma commit_crashed: "detail_view s = Inr v \<Longrightarrow> dt_crashed (dt_commit i t s) = dt_crashed s"
  by (simp add: dt_commit_def run_effects_def safety_render_def dt_render_poll_def fetchSafetyData_def fetchRecord_def
      schema_effect_def dt_fetchSchema_def dt_call_def Let_def split: option.split)

lemma mount_failure: "page_failure (mount_page r i t) = None"
proof (cases r)
  case Page_MigrationDetail
  have "\<exists>v. detail_view (fresh_detail i no_timers t) = Inr v" by (simp add: detail_view_def fresh_detail_def)
  then have "dt_crashed (dt_commit None None (fresh_detail i no_timers t)) = None"
    using commit_crashed by (fastforce simp: fresh_detail_def)
  moreover have "detail_step (fresh_detail i no_timers t) D_mount = dt_commit None None (fresh_detail i no_timers t)"
    by (simp add: detail_step_def Let_def) (simp add: dt_mounted_def fresh_detail_def unmounted_def)
  ultimately show ?thesis using Page_MigrationDetail by (simp add: detail_moves_def Let_def)
qed (simp_all add: fresh_plan_def)

lemma catch_failure: "page_failure (cn_page (catch_error c)) = None"
  by (simp add: catch_error_def fail_page_def split: option.split)

lemma role_shown_cong: "se_role s = se_role t \<Longrightarrow> role_shown cerr s = role_shown cerr t"
  by (simp add: role_shown_def)

lemma taken_role [simp]: "se_role (taken p q s) = se_role s" "se_auth (taken p q s) = se_auth s"
  by (simp_all add: taken_def)

lemma acts_role:
  "se_role (cn_session (page_acts w e c)) = se_role (cn_session c)"
  "se_role (cn_session (catch_error c)) = se_role (cn_session c)"
  by (simp_all add: page_acts_def Let_def)

lemma shown_route:
  assumes "page_failure (cn_page c) = None" and "role_shown (br_child_error w) (cn_session c) = Inr t"
  shows "shown_ok w (route_page w c)"
proof -
  have "se_role (cn_session (route_page w c)) = se_role (cn_session c)"
    by (simp add: route_page_def mount_def acts_role Let_def)
  then have "role_shown (br_child_error w) (cn_session (route_page w c)) = Inr t"
    using assms(2) by (simp add: role_shown_def)
  moreover have "page_failure (cn_page (route_page w c)) = None"
    by (simp add: route_page_def mount_def assms(1) catch_failure mount_failure Let_def del: mount_page.simps)
  ultimately show ?thesis by (simp add: shown_ok_def)
qed

lemma shown_render: "page_failure (cn_page c) = None \<Longrightarrow> shown_ok w (render w c)"
proof -
  assume ok: "page_failure (cn_page c) = None"
  have "shown_ok w c" if "is_failed (cn_page c) \<or> \<not> se_auth (cn_session c)" using ok that by (auto simp: shown_ok_def)
  moreover have "shown_ok w (replace_page At_failed c)" "shown_ok w (fail_page e c)" for e
    by (simp_all add: shown_ok_def fail_page_def)
  moreover have "shown_ok w (replace_page At_login c)" if "\<not> se_auth (cn_session c)"
    using that by (simp add: shown_ok_def)
  ultimately show ?thesis
    using shown_route [OF ok]
    by (auto simp: render_def App_def bind_result_Inr_iff split: sum.split app_view.split sum.splits if_splits)
qed

lemma shown_app:
  assumes "page_failure (cn_page c) = None"
  shows "shown_ok w (render_app w e c)"
proof (rule render_appI)
  fix d path
  assume "shown_ok w d"
  then have "page_failure (cn_page d) = None" by (simp add: shown_ok_def)
  then show "shown_ok w (render w (with_session (\<lambda>s. s\<lparr> se_path := path \<rparr>) d))"
    by (simp add: shown_render with_session_def)
qed (simp add: assms shown_render with_session_def)

lemma shown_step: "shown_ok w c \<Longrightarrow> shown_ok w (console_step w c ev)"
proof (cases "console_enabled c ev")
  case True
  assume ok: "shown_ok w c"
  then have f: "page_failure (cn_page c) = None" by (simp add: shown_ok_def)
  show ?thesis
  proof (cases ev)
    case (Toasts_do e)
    have "role_shown cerr (s\<lparr> se_toaster := t \<rparr>) = role_shown cerr s" for cerr s t by (simp add: role_shown_def)
    then show ?thesis using True ok Toasts_do by (simp add: console_step_def with_session_def shown_ok_def)
  qed (use True f in \<open>simp_all add: console_step_def with_session_def shown_render shown_app catch_failure left_acts_def
      open_console_def Let_def\<close>)
qed (simp add: console_step_def)

lemma shown_run: "shown_ok w (console_run w storage path now evs)"
proof (induction evs rule: rev_induct)
  case Nil
  show ?case by (simp add: console_run_def open_console_def shown_render)
next
  case (snoc ev evs)
  then show ?case using shown_step by (simp add: console_run_def)
qed

section \<open>What the view of the migration page depends on\<close>

definition same_data :: "detail \<Rightarrow> detail \<Rightarrow> bool" where
  "same_data s t \<longleftrightarrow> dt_loading s = dt_loading t \<and> dt_record s = dt_record t \<and> dt_aborting s = dt_aborting t \<and>
     dt_schema s = dt_schema t \<and> dt_ddlLogs s = dt_ddlLogs t \<and> dt_backfillProgress s = dt_backfillProgress t \<and>
     dt_canaryObs s = dt_canaryObs t"

lemma page_view_same: "same_data s t \<Longrightarrow> detail_page_view s r = detail_page_view t r"
proof -
  assume same: "same_data s t"
  then have idx: "currentIdx s = currentIdx t" and live: "isLive s = isLive t"
    by (simp_all add: same_data_def currentIdx_def isLive_def)
  then have "flow_row_view s = flow_row_view t" by (intro ext) (simp add: flow_row_view_def Let_def)
  then have "flow_view s = flow_view t" "progress s = progress t" using idx by (simp_all add: flow_view_def progress_def)
  moreover have "safety_section s = safety_section t" using same by (simp add: safety_section_def same_data_def)
  moreover have "schema_sections s r = schema_sections t r"
    using same by (simp add: schema_sections_def same_data_def split: option.split)
  ultimately show ?thesis using same live by (simp add: detail_page_view_def same_data_def)
qed

lemma view_same: "same_data s t \<Longrightarrow> dt_id s = [] \<longleftrightarrow> dt_id t = [] \<Longrightarrow> detail_view s = detail_view t"
  using page_view_same [of s t] by (simp add: detail_view_def same_data_def split: option.split)

lemma effects_data:
  "same_data (run_effects i t s) s" "dt_showAbortConfirm (run_effects i t s) = dt_showAbortConfirm s"
  by (simp_all add: same_data_def run_effects_def safety_render_def dt_render_poll_def fetchSafetyData_def
      fetchRecord_def schema_effect_def dt_fetchSchema_def dt_call_def Let_def split: option.split)

section \<open>The page across its steps\<close>

lemma run_snoc: "console_run w storage path now (evs @ [ev]) = console_step w (console_run w storage path now evs) ev"
  by (simp add: console_run_def)

lemma shown_detail:
  assumes "c = console_run w storage path now evs" and "cn_page c = At_detail d ms"
  shows "\<not> eb_hasError (cn_boundary c)" and "se_auth (cn_session c)"
    and "\<exists>t. role_shown (br_child_error w) (cn_session c) = Inr t"
    and "br_pick w App_routes (se_path (cn_session c)) = Page_MigrationDetail"
    and "dt_id d = br_id w (se_path (cn_session c))" and "dt_crashed d = None"
proof -
  have s: "shows_route w c" and k: "shown_ok w c" using assms(1) shows_run shown_run by blast+
  have nf: "\<not> is_failed (cn_page c)" "\<not> is_login (cn_page c)" by (simp_all add: assms(2) is_failed_def is_login_def)
  then show e: "\<not> eb_hasError (cn_boundary c)" and a: "se_auth (cn_session c)"
    using s by (auto simp: shows_route_def Let_def split: if_splits)
  then have "of_route (br_pick w App_routes (se_path (cn_session c))) (cn_page c)"
      "shown_id (cn_page c) \<in> {None, Some (br_id w (se_path (cn_session c)))}"
    using s by (auto simp: shows_route_def Let_def)
  then show "br_pick w App_routes (se_path (cn_session c)) = Page_MigrationDetail"
      "dt_id d = br_id w (se_path (cn_session c))"
    by (cases "br_pick w App_routes (se_path (cn_session c))"; simp add: assms(2))+
  show "dt_crashed d = None" "\<exists>t. role_shown (br_child_error w) (cn_session c) = Inr t"
    using k nf a by (simp_all add: shown_ok_def assms(2))
qed

lemma role_shown_fields [simp]:
  "role_shown cerr (s\<lparr> se_path := p \<rparr>) = role_shown cerr s" "role_shown cerr (s\<lparr> se_client := cl \<rparr>) = role_shown cerr s"
  "role_shown cerr (taken a b s) = role_shown cerr s"
  by (simp_all add: role_shown_def)

text \<open>An event of the page that does not crash leaves the page shown, in the state after it.\<close>

lemma detail_acts:
  assumes c: "c = console_run w storage path now evs" and p: "cn_page c = At_detail d ms"
    and e: "own_event (On_detail e)"
    and d': "d' = detail_step (d\<lparr> dt_toaster := se_toaster (cn_session c) \<rparr>) e" "dt_crashed d' = None"
  shows "\<exists>ms'. cn_page (console_step w c (Page_does (On_detail e))) = At_detail d' ms'"
proof -
  note shown = shown_detail [OF c p]
  have "dt_id d' = dt_id d" using e by (cases e) (simp_all add: d' detail_id_step)
  moreover have "role_shown (br_child_error w) (cn_session (page_acts w (On_detail e) c)) =
      role_shown (br_child_error w) (cn_session c)"
    by (simp add: role_shown_def acts_role)
  ultimately show ?thesis
    using shown e d'
    by (auto simp: console_step_def render_def App_def bind_result_def route_page_def page_acts_def p catch_error_def
        detail_moves_def taken_def follow_def Let_def)
qed

lemma detail_goes:
  assumes c: "c = console_run w storage path now evs" and p: "cn_page c = At_detail d ms"
    and new: "br_pick w App_routes addr = Page_MigrationDetail"
    and d': "d' = detail_step (d\<lparr> dt_toaster := se_toaster (cn_session c) \<rparr>) (D_change_id (br_id w addr))"
      "dt_crashed d' = None"
  shows "\<exists>ms'. cn_page (console_step w c (Go_to addr)) =
    At_detail (if br_id w addr = dt_id d then d else d') ms'"
proof -
  note shown = shown_detail [OF c p]
  then show ?thesis
    using new d'
    by (auto simp: console_step_def with_session_def render_def App_def bind_result_def route_page_def page_acts_def p
        catch_error_def detail_moves_def Let_def)
qed

subsection \<open>Asking and confirming\<close>

lemma ask_shows:
  "dt_enabled d D_ask_abort \<longleftrightarrow>
     dt_mounted d \<and> (\<exists>p l. detail_view d = Inr (Detail_page p) \<and> pv_abort p = Some (l, False))"
  by (auto split: sum.splits detail_body.splits option.splits)

text \<open>A step whose render does not throw: what the handler left, and the calls of the effects.\<close>

lemma rendered:
  assumes "dt_enabled d e" and "e \<noteq> D_mount" and "dt_mounted (dt_handle d e)" and v: "detail_view (dt_handle d e) = Inr v"
  defines "s \<equiv> dt_handle d e" and "d' \<equiv> detail_step d e"
  shows "same_data d' s" and "dt_id d' = dt_id s" and "dt_mounted d'" and "dt_crashed d' = dt_crashed s"
    and "dt_showAbortConfirm d' = dt_showAbortConfirm s" and "set (dt_calls s) \<subseteq> set (dt_calls d')"
    and "detail_view d' = Inr v"
proof -
  let ?i = "Some (dt_id d)" and ?t = "table_of_record (dt_record d)"
  have v': "detail_view s = Inr v" using v by (simp only: s_def)
  have step: "d' = dt_commit ?i ?t s" "d' = run_effects ?i ?t s"
    using assms(1-3) v unfolding d'_def s_def
    by (cases e; simp add: detail_step_def Let_def dt_commit_def del: dt_handle.simps dt_enabled.simps)+
  show data: "same_data d' s" "dt_id d' = dt_id s" "dt_showAbortConfirm d' = dt_showAbortConfirm s"
    unfolding step(2) by (simp_all add: effects_fields effects_data)
  show "dt_mounted d'" unfolding step(2) by (rule effects_mounted)
  show "dt_crashed d' = dt_crashed s" unfolding step(1) using v' by (rule commit_crashed)
  show "set (dt_calls s) \<subseteq> set (dt_calls d')" using effects_calls [of ?i ?t s] unfolding step(2) by auto
  show "detail_view d' = Inr v" using view_same [OF data(1)] data(2) v' by simp
qed

lemma effects_fetch: "i \<noteq> Some (dt_id s) \<Longrightarrow> dt_id s \<noteq> [] \<Longrightarrow> Get_record (dt_id s) \<in> set (dt_calls (run_effects i t s))"
  by (simp add: run_effects_def safety_render_def dt_render_poll_def fetchSafetyData_def fetchRecord_def
      schema_effect_def dt_fetchSchema_def dt_call_def Let_def split: option.split)

lemma moved_data:
  assumes "dt_mounted d" and "detail_view d = Inr v" and "i \<noteq> []" and "dt_id d \<noteq> []"
  defines "e \<equiv> detail_step d (D_change_id i)"
  shows "same_data e d" and "dt_id e = i" and "dt_mounted e" and "dt_crashed e = dt_crashed d"
    and "detail_view e = Inr v" and "i \<noteq> dt_id d \<longrightarrow> Get_record i \<in> set (dt_calls e)"
proof -
  let ?s = "d\<lparr> dt_id := i \<rparr>"
  have "same_data ?s d" by (simp add: same_data_def)
  moreover from this have view: "detail_view ?s = Inr v" using assms(2-4) view_same [of ?s d] by simp
  moreover have on: "dt_mounted ?s" using assms(1) by (simp add: dt_mounted_def)
  ultimately show "same_data e d" "dt_id e = i" "dt_mounted e" "dt_crashed e = dt_crashed d" "detail_view e = Inr v"
    using rendered [of d "D_change_id i" v] assms(1) by (simp_all add: e_def same_data_def)
  have "e = run_effects (Some (dt_id d)) (table_of_record (dt_record d)) ?s"
    using assms(1) view on
    by (simp add: e_def detail_step_def dt_commit_def Let_def)
  then show "i \<noteq> dt_id d \<longrightarrow> Get_record i \<in> set (dt_calls e)" using effects_fetch [of "Some (dt_id d)" ?s] assms(3) by simp
qed

lemma asked_data:
  assumes "dt_enabled d D_ask_abort"
  defines "e \<equiv> detail_step d D_ask_abort"
  shows "same_data e d" and "dt_id e = dt_id d" and "dt_mounted e" and "dt_crashed e = dt_crashed d"
    and "dt_showAbortConfirm e" and "set (dt_calls d) \<subseteq> set (dt_calls e)"
proof -
  let ?s = "d\<lparr> dt_showAbortConfirm := True \<rparr>"
  have "same_data ?s d" by (simp add: same_data_def)
  moreover from this have "detail_view ?s = detail_view d" by (rule view_same) simp
  moreover have "dt_mounted ?s" "\<exists>v. detail_view d = Inr v"
    using assms(1) unfolding ask_shows by (auto simp: dt_mounted_def)
  ultimately obtain v where "dt_mounted ?s" "detail_view ?s = Inr v" "same_data ?s d" by auto
  then show "same_data e d" "dt_id e = dt_id d" "dt_mounted e" "dt_crashed e = dt_crashed d"
      "dt_showAbortConfirm e" "set (dt_calls d) \<subseteq> set (dt_calls e)"
    using rendered [of d D_ask_abort v] assms(1) by (simp_all add: e_def same_data_def del: dt_enabled.simps)
qed

text \<open>Confirming sends one abort, of the record that the page holds.\<close>

lemma confirm_aborts:
  assumes "cn_page (console_run w storage path now evs) = At_detail d ms" and "dt_mounted d" and "dt_showAbortConfirm d"
    and "dt_id d \<noteq> []" and "dt_record d = Some r"
  shows "\<exists>rqs rq. cn_sent (console_run w storage path now (evs @ [Page_does (On_detail D_confirm_abort)])) =
      cn_sent (console_run w storage path now evs) @ rqs \<and> filter destroys rqs = [rq] \<and> rq_method rq = POST \<and>
      rq_url rq = ''/migrations/'' @ mr_migration_id r @ ''/abort''"
  using assms step_destroys [of w storage path now evs "Page_does (On_detail D_confirm_abort)"]
  by (auto simp: run_snoc list_all2_Cons1 sent_for_def)

text \<open>An answer with a record shows it; the button is there while it runs, and the dialog is left as it was.\<close>

lemma answered_data:
  fixes r :: migration_record
  assumes "dt_mounted d" and "dt_id d \<noteq> []" and "Get_record j \<in> set (dt_calls d)"
    and "no_nulls d" and "dt_schema d \<noteq> None"
  defines "e \<equiv> detail_step d (D_record j (Inr r))"
  shows "dt_record e = Some r" and "dt_id e = dt_id d" and "dt_mounted e" and "dt_crashed e = dt_crashed d"
    and "dt_showAbortConfirm e = dt_showAbortConfirm d" and "no_nulls e" and "dt_schema e = dt_schema d"
    and "\<exists>p. detail_view e = Inr (Detail_page p) \<and>
      (pv_abort p = None \<longleftrightarrow> mr_terminal r) \<and> (\<forall>l b. pv_abort p = Some (l, b) \<longrightarrow> b = dt_aborting d)"
proof -
  let ?s = "dt_handle d (D_record j (Inr r))"
  have f: "dt_record ?s = Some r" "dt_id ?s = dt_id d" "dt_mounted ?s" "\<not> dt_loading ?s" "no_nulls ?s"
      "dt_schema ?s = dt_schema d" "dt_crashed ?s = dt_crashed d" "dt_showAbortConfirm ?s = dt_showAbortConfirm d"
      "dt_aborting ?s = dt_aborting d"
    using assms by (simp_all add: record_fetched_def dt_settle_def dt_mounted_def no_nulls_def)
  have "\<exists>v. detail_view ?s = Inr v" using renders [OF f(5)] f(6) assms(5) by simp
  then obtain p where p: "detail_view ?s = Inr (Detail_page p)"
      "pv_abort p = (if mr_terminal r then None
        else Some (if dt_aborting ?s then ''Aborting...'' else ''Abort & Rollback'', dt_aborting ?s))"
    using f assms(2) by (auto simp: detail_view_def detail_page_view_def bind_result_Inr_iff simp del: dt_handle.simps)
  have "dt_enabled d (D_record j (Inr r))" using assms(3) by simp
  note e = rendered [OF this _ f(3) p(1), folded e_def]
  show "dt_record e = Some r" "dt_id e = dt_id d" "dt_mounted e" "dt_crashed e = dt_crashed d"
      "dt_showAbortConfirm e = dt_showAbortConfirm d" "no_nulls e" "dt_schema e = dt_schema d"
    using e(1-5) f by (simp_all add: same_data_def no_nulls_def del: dt_handle.simps)
  show "\<exists>p. detail_view e = Inr (Detail_page p) \<and>
      (pv_abort p = None \<longleftrightarrow> mr_terminal r) \<and> (\<forall>l b. pv_abort p = Some (l, b) \<longrightarrow> b = dt_aborting d)"
    using e(7) p(2) f(9) by (auto simp del: dt_handle.simps)
qed

text \<open>The address changes to another migration's, and the user asks to abort before its record is there.\<close>

lemma asked_elsewhere:
  assumes p: "cn_page (console_run w storage path now evs) = At_detail d ms"
    and ask: "dt_enabled d D_ask_abort"
    and new: "br_pick w App_routes addr = Page_MigrationDetail" "br_id w addr \<noteq> []"
  shows "\<exists>d' ms'. cn_page (console_run w storage path now (evs @ [Go_to addr, Page_does (On_detail D_ask_abort)])) =
      At_detail d' ms' \<and> dt_mounted d' \<and> dt_id d' = br_id w addr \<and> dt_showAbortConfirm d' \<and> same_data d' d \<and>
      (br_id w addr \<noteq> dt_id d \<longrightarrow> Get_record (br_id w addr) \<in> set (dt_calls d'))"
proof -
  let ?c = "console_run w storage path now evs"
  let ?d = "d\<lparr> dt_toaster := se_toaster (cn_session ?c) \<rparr>"
  let ?d1 = "detail_step ?d (D_change_id (br_id w addr))"
  have "dt_id d \<noteq> []" using ask unfolding ask_shows by (auto simp: detail_view_def split: if_splits)
  then obtain v where en: "dt_mounted ?d" "detail_view ?d = Inr v" "dt_id ?d \<noteq> []"
    using ask unfolding ask_shows by auto
  note moved = moved_data [OF en(1,2) new(2) en(3)]
  obtain d1 ms1 where c1: "cn_page (console_run w storage path now (evs @ [Go_to addr])) = At_detail d1 ms1"
      "dt_id d1 = br_id w addr" "same_data d1 d" "dt_mounted d1"
      "br_id w addr \<noteq> dt_id d \<longrightarrow> Get_record (br_id w addr) \<in> set (dt_calls d1)"
  proof -
    have "dt_crashed ?d1 = None" using moved(4) shown_detail(6) [OF refl p] by simp
    from detail_goes [OF refl p new(1) refl this] obtain ms1 where
      "cn_page (console_run w storage path now (evs @ [Go_to addr])) =
        At_detail (if br_id w addr = dt_id d then d else ?d1) ms1"
      unfolding run_snoc by blast
    moreover have "same_data ?d1 d" using moved(1) by (simp add: same_data_def)
    moreover have "same_data d d" "dt_mounted d" using en(1) by (simp_all add: same_data_def)
    ultimately show ?thesis using that moved(2,3,6) by (cases "br_id w addr = dt_id d") auto
  qed
  have "detail_view d1 = detail_view d" using c1 new(2) en(3) by (intro view_same) simp_all
  then have ask1: "dt_enabled d1 D_ask_abort" using ask c1(4) unfolding ask_shows by simp
  let ?c1 = "console_run w storage path now (evs @ [Go_to addr])"
  let ?e = "d1\<lparr> dt_toaster := se_toaster (cn_session ?c1) \<rparr>"
  have "dt_enabled ?e D_ask_abort" using ask1 unfolding ask_shows by simp
  note asked = asked_data [OF this]
  have "dt_crashed (detail_step ?e D_ask_abort) = None" using asked(4) shown_detail(6) [OF refl c1(1)] by simp
  from detail_acts [OF refl c1(1) _ refl this] obtain ms2 where
    "cn_page (console_run w storage path now (evs @ [Go_to addr, Page_does (On_detail D_ask_abort)])) =
      At_detail (detail_step ?e D_ask_abort) ms2"
    using run_snoc [of w storage path now "evs @ [Go_to addr]"] by auto
  moreover have "same_data (detail_step ?e D_ask_abort) d" using asked(1) c1(3) by (simp add: same_data_def)
  ultimately show ?thesis using asked(2,3,5,6) c1(2,5) by auto
qed

section \<open>Properties\<close>

text \<open>
  C19: an abort can go to another migration than the one the page names. While the page shows a running
  migration, the address changes to another one's (a link, the browser's buttons, a redirect of a page
  that was left). The page takes the new id as its title at once and keeps the old record, and with it the
  button, until the new record arrives; confirmed in between, the dialog, which names no migration, aborts
  the one before.
\<close>

theorem abort_reaches_previous:
  assumes "cn_page (console_run w storage path now evs) = At_detail d ms" and "dt_record d = Some r"
    and "dt_enabled d D_ask_abort"
    and "br_pick w App_routes addr = Page_MigrationDetail" and "br_id w addr \<noteq> []"
    and "evs' = evs @ [Go_to addr, Page_does (On_detail D_ask_abort)]"
  shows "\<exists>d' ms' rqs rq. cn_page (console_run w storage path now evs') = At_detail d' ms' \<and>
    dh_title (detail_header_view d') = br_id w addr \<and> ConfirmDialog (abort_dialog d') \<noteq> None \<and>
    cn_sent (console_run w storage path now (evs' @ [Page_does (On_detail D_confirm_abort)])) =
      cn_sent (console_run w storage path now evs') @ rqs \<and>
    filter destroys rqs = [rq] \<and> rq_method rq = POST \<and> rq_url rq = ''/migrations/'' @ mr_migration_id r @ ''/abort''"
proof -
  obtain d' ms' where d': "cn_page (console_run w storage path now evs') = At_detail d' ms'" "dt_mounted d'"
      "dt_id d' = br_id w addr" "dt_showAbortConfirm d'" "same_data d' d"
    using asked_elsewhere [OF assms(1,3-5)] unfolding assms(6) by blast
  then show ?thesis
    using confirm_aborts [OF d'(1,2,4)] assms(2,5) by (simp add: detail_header_view_def same_data_def dialog_on del: not_None_eq)
qed

text \<open>
  C20: the abort dialog outlives the migration. While it is open, the record of a migration that has ended
  arrives: the button disappears and the dialog stays, and confirming it still sends the abort (with which
  the engine marks a completed migration as rolled back).
\<close>

theorem abort_after_end:
  assumes p: "cn_page (console_run w storage path now evs) = At_detail d ms" and "dt_showAbortConfirm d"
    and "dt_id d \<noteq> []" and "Get_record j \<in> set (dt_calls d)" and "mr_terminal r" and "no_nulls d" and "dt_schema d \<noteq> None"
    and evs': "evs' = evs @ [Page_does (On_detail (D_record j (Inr r)))]"
  shows "\<exists>d' ms' v rqs rq. cn_page (console_run w storage path now evs') = At_detail d' ms' \<and>
    detail_view d' = Inr (Detail_page v) \<and> pv_abort v = None \<and> ConfirmDialog (abort_dialog d') \<noteq> None \<and>
    cn_sent (console_run w storage path now (evs' @ [Page_does (On_detail D_confirm_abort)])) =
      cn_sent (console_run w storage path now evs') @ rqs \<and>
    filter destroys rqs = [rq] \<and> rq_method rq = POST \<and> rq_url rq = ''/migrations/'' @ mr_migration_id r @ ''/abort''"
proof -
  let ?c = "console_run w storage path now evs"
  let ?d = "d\<lparr> dt_toaster := se_toaster (cn_session ?c) \<rparr>"
  let ?e = "detail_step ?d (D_record j (Inr r))"
  have "dt_mounted ?d" using console_ok_run [of w storage path now evs] p by (simp add: console_ok_def)
  moreover have "no_nulls ?d" using assms(6) by (simp add: no_nulls_def)
  ultimately have e: "dt_record ?e = Some r" "dt_id ?e \<noteq> []" "dt_mounted ?e" "dt_crashed ?e = dt_crashed d"
      "dt_showAbortConfirm ?e" and v: "\<exists>v. detail_view ?e = Inr (Detail_page v) \<and> pv_abort v = None"
    using answered_data [of ?d j r] assms(2-5,7) by auto
  have "dt_crashed ?e = None" using e(4) shown_detail(6) [OF refl p] by simp
  from detail_acts [OF refl p _ refl this] obtain ms1 where
    c1: "cn_page (console_run w storage path now evs') = At_detail ?e ms1"
    unfolding evs' run_snoc by auto
  then show ?thesis using confirm_aborts [OF c1 e(3,5,2,1)] e(5) v dialog_on [of ?e] by blast
qed

section \<open>Running them\<close>

text \<open>The address of a running migration is opened and its record arrives.\<close>

definition running :: migration_record where
  "running = bare_record ''m1'' ''p1'' Backfilling False"

definition viewed :: "console_event list \<Rightarrow> console" where
  "viewed evs = console_run sample_browser [TOKEN_KEY \<mapsto> ''t''] ''/migrations/m1'' 0 evs"

definition record_arrives :: "console_event list" where
  "record_arrives = [Page_does (On_detail (D_record ''m1'' (Inr running)))]"

lemma opened_session:
  "se_path (open_app storage path now) = path" "se_toaster (open_app storage path now) = fresh_toaster now"
  "se_auth (open_app [TOKEN_KEY \<mapsto> ''t''] path now)" "se_role (open_app [TOKEN_KEY \<mapsto> ''t''] path now) = Some (JStr ''viewer'')"
  by (simp_all add: open_app_def load_effect_def case_prod_beta Let_def getToken_def fresh_client_def truthy_str_def role_t)

lemma viewed_opened:
  "\<exists>ms. cn_page (viewed []) = At_detail (detail_step (fresh_detail ''m1'' no_timers (fresh_toaster 0)) D_mount) ms"
  by (simp add: viewed_def console_run_def open_console_def sample_defs fresh_boundary_def Let_def detail_moves_def
      opened_session role_t)

lemma viewed_mounted:
  assumes "d = detail_step (fresh_detail ''m1'' no_timers t) D_mount"
  shows "same_data d (fresh_detail ''m1'' no_timers t)" and "dt_id d = ''m1''" and "dt_mounted d"
    and "Get_record ''m1'' \<in> set (dt_calls d)"
proof -
  let ?f = "fresh_detail ''m1'' no_timers t"
  have "\<exists>v. detail_view ?f = Inr v" by (simp add: detail_view_def fresh_detail_def)
  then have d: "d = run_effects None None ?f"
    unfolding assms by (auto simp: detail_step_def Let_def dt_commit_def)
      (simp_all add: dt_mounted_def fresh_detail_def unmounted_def)
  show "same_data d ?f" "dt_id d = ''m1''" "dt_mounted d"
    unfolding d by (simp_all add: effects_data effects_mounted effects_fields, simp add: fresh_detail_def)
  show "Get_record ''m1'' \<in> set (dt_calls d)"
    using effects_fetch [of None ?f None] unfolding d by (simp add: fresh_detail_def)
qed

lemma viewed_at:
  "\<exists>d ms. cn_page (viewed record_arrives) = At_detail d ms \<and> dt_record d = Some running \<and> dt_id d = ''m1'' \<and>
    dt_enabled d D_ask_abort \<and> no_nulls d \<and> dt_schema d \<noteq> None"
proof -
  let ?d = "detail_step (fresh_detail ''m1'' no_timers (fresh_toaster 0)) D_mount"
  let ?t = "?d\<lparr> dt_toaster := se_toaster (cn_session (viewed [])) \<rparr>"
  let ?e = "detail_step ?t (D_record ''m1'' (Inr running))"
  obtain ms where p: "cn_page (viewed []) = At_detail ?d ms" using viewed_opened by blast
  note m = viewed_mounted [OF refl, of "fresh_toaster 0"]
  have "no_nulls ?t" "dt_schema ?t \<noteq> None" "\<not> dt_aborting ?t"
    using m(1) by (simp_all add: same_data_def fresh_detail_def no_nulls_def)
  then have e: "dt_record ?e = Some running" "dt_id ?e = ''m1''" "dt_mounted ?e" "dt_crashed ?e = dt_crashed ?d"
      "no_nulls ?e" "dt_schema ?e \<noteq> None"
      "\<exists>p. detail_view ?e = Inr (Detail_page p) \<and> (pv_abort p = None \<longleftrightarrow> mr_terminal running) \<and>
        (\<forall>l b. pv_abort p = Some (l, b) \<longrightarrow> \<not> b)"
    using answered_data [of ?t "''m1''" running] m(2-4) by simp_all
  have "dt_crashed ?e = None" using e(4) shown_detail(6) [OF viewed_def p] by simp
  from detail_acts [OF viewed_def p _ refl this] obtain ms' where "cn_page (viewed record_arrives) = At_detail ?e ms'"
    using run_snoc [of sample_browser _ _ _ "[]"] by (auto simp: viewed_def record_arrives_def)
  moreover have "dt_enabled ?e D_ask_abort" using e(3,7) unfolding ask_shows by (force simp: running_def bare_record_def)
  ultimately show ?thesis using e by blast
qed

lemma sample_route [simp]:
  "br_pick sample_browser App_routes ''/migrations/m2'' = Page_MigrationDetail"
  "br_id sample_browser ''/migrations/m2'' = ''m2''"
  by (simp_all add: sample_browser_def sample_pick_def)

definition asked_for_next :: "console_event list" where
  "asked_for_next = record_arrives @ [Go_to ''/migrations/m2'', Page_does (On_detail D_ask_abort)]"

theorem abort_reaches_previous_witness:
  "\<exists>d ms rqs rq. cn_page (viewed asked_for_next) = At_detail d ms \<and> dh_title (detail_header_view d) = ''m2'' \<and>
    cn_sent (viewed (asked_for_next @ [Page_does (On_detail D_confirm_abort)])) = cn_sent (viewed asked_for_next) @ rqs \<and>
    filter destroys rqs = [rq] \<and> rq_url rq = ''/migrations/m1/abort''"
proof -
  obtain d ms where d: "cn_page (viewed record_arrives) = At_detail d ms" "dt_record d = Some running"
      "dt_enabled d D_ask_abort" using viewed_at by blast
  have addr: "br_pick sample_browser App_routes ''/migrations/m2'' = Page_MigrationDetail"
      "br_id sample_browser ''/migrations/m2'' \<noteq> []" by simp_all
  from abort_reaches_previous [OF d(1) [unfolded viewed_def] d(2,3) addr asked_for_next_def]
  show ?thesis unfolding viewed_def [symmetric] by (auto simp: running_def bare_record_def)
qed

text \<open>There the record of the next migration comes, and it has ended.\<close>

theorem abort_after_end_witness:
  "\<exists>rqs rq. cn_sent (viewed (asked_for_next @ [Page_does (On_detail (D_record ''m2'' (Inr (bare_record ''m2'' ''p2'' Done True)))),
      Page_does (On_detail D_confirm_abort)])) =
    cn_sent (viewed (asked_for_next @ [Page_does (On_detail (D_record ''m2'' (Inr (bare_record ''m2'' ''p2'' Done True))))])) @ rqs \<and>
    filter destroys rqs = [rq] \<and> rq_url rq = ''/migrations/m2/abort''"
proof -
  let ?r = "bare_record ''m2'' ''p2'' Done True"
  obtain d ms where d: "cn_page (viewed record_arrives) = At_detail d ms" "dt_id d = ''m1''" "dt_enabled d D_ask_abort"
      "no_nulls d" "dt_schema d \<noteq> None" using viewed_at by blast
  have addr: "br_pick sample_browser App_routes ''/migrations/m2'' = Page_MigrationDetail"
      "br_id sample_browser ''/migrations/m2'' \<noteq> []" by simp_all
  from asked_elsewhere [OF d(1) [unfolded viewed_def] d(3) addr]
  obtain d' ms' where d': "cn_page (viewed asked_for_next) = At_detail d' ms'" "dt_id d' \<noteq> []" "dt_showAbortConfirm d'"
      "Get_record ''m2'' \<in> set (dt_calls d')" "no_nulls d'" "dt_schema d' \<noteq> None"
    unfolding asked_for_next_def viewed_def using d(2,4,5) by (auto simp: same_data_def no_nulls_def)
  have ended: "mr_terminal ?r" by (simp add: bare_record_def)
  from abort_after_end [OF d'(1) [unfolded viewed_def] d'(3,2,4) ended d'(5,6) refl]
  show ?thesis unfolding viewed_def [symmetric] by (auto simp: bare_record_def)
qed

end
