(* ===== verification/Spec2Isabelle.thy ===== *)
theory Spec2Isabelle
  imports Constants Prometheus Api DashProps DetailProps Panels Graph Metrics NewPlanProps DriftScan
    SessionProps Landing Widgets Status AbortDialog
begin

text \<open>
  The web console of the migration safety engine (\<^verbatim>\<open>frontend/src\<close>): a React application that signs
  the user in, lists migrations, shows one migration with its charts, submits plans and runs drift scans.
  This is a model of all its TypeScript and of the properties that make its parts correct.

  \<^bold>\<open>How the parts interact.\<close> \<^verbatim>\<open>App.tsx\<close> decides between the login page and the pages; all pages talk to
  the engine through the one client of \<^verbatim>\<open>lib/api.ts\<close>, which carries the token kept in local storage, and
  report to the user through the toast provider. The dashboard and the migration page poll while something
  is running; the metrics panel polls the Prometheus text that \<^verbatim>\<open>lib/prometheus.ts\<close> reads. The report
  panels and charts are functions of a migration record. An error thrown by a render is caught by the
  error boundary around all pages. \<open>Console\<close> composes them: the session, the page that the router has mounted
  with its panels, the pages left while they still had calls or timeouts pending, the error boundary, and
  the requests sent; a step is one event of one part and the render it causes. Where a handler of App or of
  the login page changes the address, the router follows in a second render of its own.

  \<^bold>\<open>How a component is modelled.\<close> Its hooks are the fields of a record. A handler is a function on that
  record; where a handler awaits a request it is split: the first half adds the request to the calls in
  flight, the second half (named \<^verbatim>\<open>..._done\<close>, \<^verbatim>\<open>..._settled\<close>, \<^verbatim>\<open>..._submitted\<close>) takes the answer, which is
  arbitrary, and answers may arrive in any order and after the component is gone. A component's events are a
  datatype with a guard (control rendered and not disabled) and one transition per event; the theorems
  quantify over every sequence of events. The session has an inductive step relation, with its steps also as
  labelled events (\<open>app_action\<close>). What a component renders is a record of its texts, conditions, colours that depend on data, and disabled flags.

  \<^bold>\<open>Theories.\<close>
  \<^item> \<open>Prelude\<close>: results, strings, arrays, insertion-ordered maps (locale \<open>ordered_map\<close>), runs of a
    component (locale \<open>run_invariant\<close>). \<open>JsNumber\<close>: binary64 as rationals rounded to nearest even (locale
    \<open>rounding\<close>), \<^verbatim>\<open>parseFloat\<close>, \<^verbatim>\<open>parseInt\<close>. \<open>JsText\<close>: numbers as text, \<^verbatim>\<open>toFixed\<close>. \<open>NumText\<close>: the text of
    every finite number reads back.
  \<^item> \<open>Types\<close>, \<open>Constants\<close>: \<^verbatim>\<open>types/index.ts\<close> and \<^verbatim>\<open>lib/constants.ts\<close>. \<open>Http\<close>: what \<^verbatim>\<open>fetch\<close> takes and gives.
  \<^item> \<open>Api\<close>: \<^verbatim>\<open>lib/api.ts\<close>, with the contract of a token store (locale \<open>token_store\<close>): values come from 2xx
    answers only; which path the URL of a schema request resolves to.
  \<^item> \<open>GoText\<close>: which texts the exposition format allows for a number, and one printer that keeps to it.
    \<open>Prometheus\<close>: \<^verbatim>\<open>lib/prometheus.ts\<close>, read against the documented format with escaped label values: on plain
    labels the reader inverts every printer of the format; on others it keeps the escapes.
  \<^item> \<open>Json\<close>, \<open>PlanJson\<close>: \<^verbatim>\<open>JSON.parse\<close> and \<^verbatim>\<open>JSON.stringify\<close> written out, and plans as JSON values.
  \<^item> \<open>Polling\<close>: window timers and the effects that start them (locale \<open>interval_effect\<close>: exactly the wanted
    interval lives, no other is touched), interpreted by every component that polls.
  \<^item> \<open>Toast\<close>: \<^verbatim>\<open>components/Toast.tsx\<close>, refining an abstract toaster that remembers posting times.
  \<^item> \<open>Stats\<close>, \<open>Paging\<close>, \<open>Dashboard\<close>, \<open>DashProps\<close>: \<^verbatim>\<open>pages/Dashboard.tsx\<close>: its displays, search and paging,
    state and handlers, and what every run of the page keeps.
  \<^item> \<open>Detail\<close>, \<open>DetailProps\<close>: \<^verbatim>\<open>pages/MigrationDetail.tsx\<close>.
  \<^item> \<open>Panels\<close>, \<open>Graph\<close>, \<open>Metrics\<close>: \<^verbatim>\<open>ExecutiveHealthPanel\<close>, \<^verbatim>\<open>DataParityPanel\<close>, \<^verbatim>\<open>CostEfficiencyPanel\<close>,
    \<^verbatim>\<open>DisasterAvertedChart\<close>; \<^verbatim>\<open>StateMachineGraph\<close>; \<^verbatim>\<open>MetricsPanel\<close> (all in \<^verbatim>\<open>components/\<close>).
  \<^item> \<open>NewPlan\<close>, \<open>NewPlanProps\<close>: \<^verbatim>\<open>pages/NewPlan.tsx\<close>. \<open>DriftScan\<close>: \<^verbatim>\<open>pages/DriftScanPage.tsx\<close>.
  \<^item> \<open>Base64\<close>, \<open>Session\<close>, \<open>SessionProps\<close>: \<^verbatim>\<open>App.tsx\<close> and the handlers of \<^verbatim>\<open>pages/LoginPage.tsx\<close>, refining,
    event by event, a gate that only the answer waited for opens; \<open>Landing\<close>: the animations of that page.
  \<^item> \<open>Widgets\<close>: \<^verbatim>\<open>ConfirmDialog\<close>, \<^verbatim>\<open>OnboardingWizard\<close>, \<^verbatim>\<open>ErrorBoundary\<close>, \<^verbatim>\<open>NotFoundPage\<close>. \<open>Status\<close>:
    \<^verbatim>\<open>SystemStatusPanel\<close>.
  \<^item> \<open>Console\<close>: \<^verbatim>\<open>App.tsx\<close> with everything inside it. \<open>ConsoleProps\<close>: its invariants, that its session is a
    run of \<open>Session\<close>'s step relation, and the contract of a part that posts toasts (locale \<open>toast_user\<close>,
    interpreted by each page). \<open>ConsoleClaims\<close>: what is shown, which intervals run and
    with which token requests are sent, at every moment. \<open>ConsoleOutcomes\<close>: signing in, late answers on
    pages that were left, and what brings it all down. \<open>Destruction\<close>: deletes and aborts are sent only when
    confirmed and only of what the pages were told of (locale \<open>page_watch\<close>: facts about the page shown that
    its own events tell). \<open>AbortDialog\<close>: what the abort dialog does when the page moves on under it.

  \<^bold>\<open>Bounds and fuel.\<close> The JSON reader takes two units of fuel per character and one more: \<open>Json\<close> proves
  that more never changes the answer. Printing a number searches its decimal exponent within 700 steps
  (binary64 spans less) and up to 17 digits; \<open>NumText\<close> proves that the search always finds a decimal that reads back. Everything else recurs on
  its data.

  \<^bold>\<open>Abstractions.\<close> A string is a list of code units below 256; longer dashes, arrows and marks in literals
  are transliterated, emoji left out. There is no negative zero. Locale formatting, clocks, random numbers,
  the browser's error messages and the router's matching are parameters. Each component has its own view of
  the window's timers, in which the others may start and stop theirs.

  \<^bold>\<open>Not modelled.\<close> Styling, SVG paths, static text and the style sheet; \<^verbatim>\<open>main.tsx\<close>, configuration and tests;
  the Go engine behind the HTTP interface, whose answers are arbitrary values of the declared types.
\<close>

section \<open>From the migration page to the plan page\<close>

text \<open>
  C14: the plan card can be submitted again. The text that the migration page shows for a plan with
  finite numbers, put into the JSON editor of the plan page and submitted, sends exactly that plan, and
  the page reads its id from it.
\<close>

theorem plan_card_resubmits:
  assumes "mr_plan r = Some p" and "finite_plan p" and "plan_card r = Some (version, shown)"
    and "np_mounted s" and "\<not> np_submitting s" and "np_mode s = Json_mode" and "np_json s = shown"
  shows "np_calls (plan_step msg s (P_submit now)) = np_calls s @ [Submit (Raw (plan_json p))] \<and>
    body_id (Raw (plan_json p)) = Inr (mp_id p)"
proof -
  have "json_parse msg shown = Inr (plan_json p)"
    using assms(1-3) read_written [OF plain_plan] by (auto simp: plan_card_def json_parse_def)
  then have "plan_of msg now s = Inr (Raw (plan_json p))" using assms(6,7) by (simp add: plan_of_def)
  then show ?thesis
    using assms(4,5)
    by (simp add: plan_step_def commit_calls NewPlan.handleSubmit_def np_call_def Let_def raw_id_plan)
qed

text \<open>The demo plan is such a plan, and its text is what the editor holds at first.\<close>

theorem plan_card_resubmits_witness:
  "np_calls (plan_step (\<lambda>_. ''JSON'') ((fresh_plan (fresh_toaster 0))\<lparr> np_mode := Json_mode \<rparr>) (P_submit (Fin 7))) =
     [Submit (Raw (plan_json DEMO_PLAN))]"
proof -
  have finite: "finite_plan DEMO_PLAN"
    by (simp add: finite_plan_def DEMO_PLAN_def double_number_numeral double_number_fl [of _ 1])
  define r :: migration_record where "r = undefined\<lparr> mr_plan := Some DEMO_PLAN \<rparr>"
  have r: "mr_plan r = Some DEMO_PLAN" by (simp add: r_def)
  show ?thesis
    using plan_card_resubmits [OF r finite, where version = "''v'' @ num_text (mp_version DEMO_PLAN)"
        and shown = "json_write (plan_json DEMO_PLAN)" and msg = "\<lambda>_. ''JSON''" and now = "Fin 7"
        and s = "(fresh_plan (fresh_toaster 0))\<lparr> np_mode := Json_mode \<rparr>"] r
    by (simp add: plan_card_def fresh_plan_def)
qed

end
